theory Spec2Isabelle
  imports Main "HOL-Library.Word"
begin

unbundle bit_operations_syntax

section \<open>Data model\<close>

text \<open>
  The B+-tree insert engine (\<^verbatim>\<open>src/btree_insert.c\<close>) and the cursor machinery
  (\<^verbatim>\<open>src/btree_cursor.c\<close>) of the key/value store, as functions over an explicit
  database state. A pointer to a page is the page's own address (\<^verbatim>\<open>page_get_self\<close>),
  a pointer to a cursor is a number, and \<open>0\<close> is the null pointer of both. Where the code
  would dereference a null or dangling pointer, or address a slot outside the page, the
  function returns \<open>None\<close>: "no defined result". The debug assertions (\<^verbatim>\<open>ham_assert\<close>),
  the pin counts of the pages and the release of key buffers are not part of the model.
\<close>

type_synonym byte = "8 word"
type_synonym ham_offset = "64 word"
type_synonym ham_u32 = "32 word"

text \<open>
  The public status codes. Their numeric values live in a header that is not part of the
  sources at hand; the code only ever tests a status against zero (\<open>HAM_SUCCESS\<close>) or
  against a named constant.
\<close>

datatype ham_status =
    HAM_SUCCESS
  | HAM_OUT_OF_MEMORY
  | HAM_NOT_INITIALIZED
  | HAM_INV_PARAMETER
  | HAM_KEY_NOT_FOUND
  | HAM_DUPLICATE_KEY
  | HAM_CURSOR_IS_NIL
  | HAM_COMPARE_FAILED
  | HAM_IO_ERROR

text \<open>
  \<^verbatim>\<open>#define SPLIT 1\<close> is a return value private to the insert engine; every public
  status other than success is an error code, so \<open>SPLIT\<close> is kept apart from them.
\<close>

datatype insert_status = Status ham_status | SPLIT

text \<open>\<^verbatim>\<open>ham_key_t\<close> and \<^verbatim>\<open>ham_record_t\<close>: a buffer and the number of bytes used.\<close>

record ham_key =
  kdata :: "byte list"
  ksize :: nat

record ham_record =
  rdata :: "byte list"
  rsize :: nat

text \<open>
  \<^verbatim>\<open>key_t\<close>, one slot of a node: the pointer word, the key length, the flag byte and the
  key bytes.
\<close>

record int_key =
  key_ptr :: ham_offset
  key_size :: nat
  key_flags :: byte
  key_key :: "byte list"

definition KEY_BLOB_SIZE_TINY :: byte where "KEY_BLOB_SIZE_TINY = 1"
definition KEY_BLOB_SIZE_SMALL :: byte where "KEY_BLOB_SIZE_SMALL = 2"
definition KEY_BLOB_SIZE_EMPTY :: byte where "KEY_BLOB_SIZE_EMPTY = 4"

text \<open>
  \<^verbatim>\<open>btree_node_t\<close>: the header and the slot array. \<open>node_entries\<close> is the physical array
  (as many slots as fit in the page); only the first \<open>node_count\<close> of them are in use,
  the others keep whatever was written there last.
\<close>

record btree_node =
  node_count :: nat
  node_ptr_left :: ham_offset
  node_left :: ham_offset
  node_right :: ham_offset
  node_entries :: "int_key list"

datatype page_type = PAGE_TYPE_UNKNOWN | PAGE_TYPE_ROOT | PAGE_TYPE_INDEX

record ham_page =
  page_type :: page_type
  page_dirty :: bool
  page_node :: btree_node
  page_cursors :: "nat list"

text \<open>\<^verbatim>\<open>ham_btree_t\<close>, the backend: the address of the root page and the node capacity.\<close>

record ham_btree =
  rootpage :: ham_offset
  maxkeys :: nat

text \<open>
  \<^verbatim>\<open>ham_bt_cursor_t\<close>. \<open>c_next\<close> and \<open>c_previous\<close> link the cursor into the database's
  list of cursors.
\<close>

record ham_bt_cursor =
  c_flags :: ham_u32
  c_coupled_page :: ham_offset
  c_coupled_index :: nat
  c_uncoupled_key :: "ham_key option"
  c_dupe_id :: ham_offset
  c_next :: nat
  c_previous :: nat

datatype txn_event = TXN_BEGIN | TXN_COMMIT | TXN_ABORT

text \<open>
  \<^verbatim>\<open>ham_db_t\<close> together with the state of its collaborators: the page store of the pager,
  the cursors on the heap, and the calls made to the transaction manager so far.
  \<open>free_pages\<close>, \<open>alloc_error\<close>, \<open>fetch_error\<close>, \<open>alloc_budget\<close>,
  \<open>txn_begin_status\<close> and \<open>txn_commit_status\<close> fix how the collaborators will answer.
\<close>

record ham_db =
  pages :: "ham_offset \<rightharpoonup> ham_page"
  db_backend :: "ham_btree option"
  db_error :: ham_status
  db_dirty :: bool
  free_pages :: "ham_offset list"
  alloc_error :: ham_status
  fetch_error :: ham_status
  alloc_budget :: nat
  db_txn :: bool
  txn_log :: "txn_event list"
  txn_begin_status :: ham_status
  txn_commit_status :: ham_status
  blob_calls :: nat
  cursors :: "nat \<rightharpoonup> ham_bt_cursor"
  db_cursors :: nat
  next_cursor :: nat

text \<open>
  What the sources at hand use but do not define, taken as parameters: the configured
  comparator (its integer result and the error it reports, \<open>HAM_SUCCESS\<close> for none), the
  macro \<^verbatim>\<open>btree_node_is_leaf\<close>, the descent step \<^verbatim>\<open>btree_traverse_tree\<close>, the answer
  of the blob store to its \<open>n\<close>-th allocation (a status and a blob address), the
  number of slots a page has room for, and, for the cursors, the tree-level find and erase
  (\<^verbatim>\<open>btree_find_cursor\<close>, \<^verbatim>\<open>btree_erase_cursor\<close>) and the decoders
  \<^verbatim>\<open>util_read_key\<close> and \<^verbatim>\<open>util_read_record\<close> (the latter is given the slot's flags and
  pointer word, which the code hands over in the record). These four may change the
  database state in any way.
\<close>

record env =
  db_compare :: "byte list \<Rightarrow> byte list \<Rightarrow> int \<times> ham_status"
  btree_node_is_leaf :: "btree_node \<Rightarrow> bool"
  btree_traverse_tree :: "ham_db \<Rightarrow> ham_offset \<Rightarrow> ham_key \<Rightarrow> ham_offset"
  blob_store_allocate :: "nat \<Rightarrow> byte list \<Rightarrow> nat \<Rightarrow> ham_status \<times> ham_offset"
  page_slots :: nat
  btree_find_cursor :: "ham_db \<Rightarrow> nat \<Rightarrow> ham_key \<Rightarrow> ham_u32 \<Rightarrow> ham_status \<times> ham_db"
  btree_erase_cursor :: "ham_db \<Rightarrow> ham_key \<Rightarrow> nat \<Rightarrow> ham_u32 \<Rightarrow> ham_status \<times> ham_db"
  util_read_key :: "ham_db \<Rightarrow> int_key \<Rightarrow> ham_key \<Rightarrow> ham_status \<times> ham_key \<times> ham_db"
  util_read_record ::
    "ham_db \<Rightarrow> byte \<Rightarrow> ham_offset \<Rightarrow> ham_record \<Rightarrow> ham_status \<times> ham_record \<times> ham_db"

text \<open>
  The scratchpad of one insert: the caller's flags and record, and the pivot key and
  page address a split hands to the parent.
\<close>

record insert_scratchpad =
  sp_flags :: ham_u32
  sp_record :: ham_record
  sp_key :: ham_key
  sp_rid :: ham_offset

definition NOFLUSH :: ham_u32 where "NOFLUSH = 1"
definition OVERWRITE :: ham_u32 where "OVERWRITE = 2"

section \<open>Collaborators of the insert engine\<close>

definition db_set_error :: "ham_status \<Rightarrow> ham_db \<Rightarrow> ham_db" where
  "db_set_error e s = s\<lparr>db_error := e\<rparr>"

definition modify_page :: "ham_offset \<Rightarrow> (ham_page \<Rightarrow> ham_page) \<Rightarrow> ham_db \<Rightarrow> ham_db" where
  "modify_page p f s = (case pages s p of None \<Rightarrow> s | Some pg \<Rightarrow> s\<lparr>pages := (pages s)(p \<mapsto> f pg)\<rparr>)"

definition modify_node :: "ham_offset \<Rightarrow> (btree_node \<Rightarrow> btree_node) \<Rightarrow> ham_db \<Rightarrow> ham_db" where
  "modify_node p f s = modify_page p (\<lambda>pg. pg\<lparr>page_node := f (page_node pg)\<rparr>) s"

definition page_set_dirty :: "ham_offset \<Rightarrow> ham_db \<Rightarrow> ham_db" where
  "page_set_dirty p s = modify_page p (\<lambda>pg. pg\<lparr>page_dirty := True\<rparr>) s"

definition page_set_type :: "ham_offset \<Rightarrow> page_type \<Rightarrow> ham_db \<Rightarrow> ham_db" where
  "page_set_type p t s = modify_page p (\<lambda>pg. pg\<lparr>page_type := t\<rparr>) s"

definition zero_key :: int_key where
  "zero_key = \<lparr>key_ptr = 0, key_size = 0, key_flags = 0, key_key = []\<rparr>"

definition fresh_page :: "env \<Rightarrow> page_type \<Rightarrow> ham_page" where
  "fresh_page env t =
     \<lparr>page_type = t, page_dirty = False,
      page_node = \<lparr>node_count = 0, node_ptr_left = 0, node_left = 0, node_right = 0,
                   node_entries = replicate (page_slots env) zero_key\<rparr>,
      page_cursors = []\<rparr>"

text \<open>
  Modelled from the spec: the pager (\<^verbatim>\<open>db_fetch_page\<close>, \<^verbatim>\<open>db_alloc_page\<close>,
  \<^verbatim>\<open>db_free_page\<close>) is not among the sources. "fetch(page_id) \<rightarrow> page*,
  alloc(type) \<rightarrow> page*, free(page)": fetching yields the page or null, allocating yields a
  zero-filled page of the requested type at the next free address, or null with the
  database error set.
\<close>

definition db_fetch_page :: "ham_offset \<Rightarrow> ham_db \<Rightarrow> ham_offset option \<times> ham_db" where
  "db_fetch_page p s =
     (case pages s p of
        Some pg \<Rightarrow> (Some p, s)
      | None \<Rightarrow> (None, if fetch_error s = HAM_SUCCESS then s else db_set_error (fetch_error s) s))"

definition db_alloc_page :: "env \<Rightarrow> page_type \<Rightarrow> ham_db \<Rightarrow> ham_offset option \<times> ham_db" where
  "db_alloc_page env t s =
     (case free_pages s of
        [] \<Rightarrow> (None, db_set_error (alloc_error s) s)
      | p # ps \<Rightarrow> (Some p, s\<lparr>pages := (pages s)(p \<mapsto> fresh_page env t), free_pages := ps\<rparr>))"

definition db_free_page :: "ham_offset \<Rightarrow> ham_db \<Rightarrow> ham_db" where
  "db_free_page p s = s\<lparr>pages := (pages s)(p := None), free_pages := p # free_pages s\<rparr>"

text \<open>
  Modelled from the spec: the blob store is not among the sources.
  "allocate(bytes, len) \<rightarrow> blob_id": the call yields a status and, through its last
  argument, the address of the blob; the store itself is outside the database state, which
  only counts the calls.
\<close>

definition blob_allocate ::
  "env \<Rightarrow> byte list \<Rightarrow> nat \<Rightarrow> ham_offset \<Rightarrow> ham_db \<Rightarrow> ham_status \<times> ham_offset \<times> ham_db" where
  "blob_allocate env d n rid s =
     (let (st, blob) = blob_store_allocate env (blob_calls s) (take n d) n
      in (st, if st = HAM_SUCCESS then blob else rid, s\<lparr>blob_calls := Suc (blob_calls s)\<rparr>))"

text \<open>
  Modelled from the spec: \<^verbatim>\<open>util_copy_key\<close> is not among the sources. It copies a key
  into a freshly allocated buffer and yields null, with \<open>HAM_OUT_OF_MEMORY\<close> as the
  database error, when the allocator is exhausted.
\<close>

definition util_copy_key :: "ham_key \<Rightarrow> ham_db \<Rightarrow> ham_key option \<times> ham_db" where
  "util_copy_key k s =
     (if alloc_budget s = 0 then (None, db_set_error HAM_OUT_OF_MEMORY s)
      else (Some \<lparr>kdata = take (ksize k) (kdata k), ksize = ksize k\<rparr>,
            s\<lparr>alloc_budget := alloc_budget s - 1\<rparr>))"

text \<open>
  Modelled from the spec: \<^verbatim>\<open>key_compare_int_to_pub\<close> is not among the sources.
  "Comparison uses the configured comparator; on comparator failure the operation
  fails": slot \<open>i\<close> of the page is compared with the caller's key, and a failure of the
  comparator is left in the database error.
\<close>

definition key_compare_int_to_pub ::
  "env \<Rightarrow> ham_offset \<Rightarrow> nat \<Rightarrow> ham_key \<Rightarrow> ham_db \<Rightarrow> (int \<times> ham_db) option" where
  "key_compare_int_to_pub env page i key s =
     (case pages s page of
        None \<Rightarrow> None
      | Some pg \<Rightarrow>
          let es = node_entries (page_node pg) in
          if length es \<le> i then None
          else
            let (cmp, err) = db_compare env (take (key_size (es ! i)) (key_key (es ! i)))
                                            (take (ksize key) (kdata key))
            in Some (cmp, if err = HAM_SUCCESS then s else db_set_error err s))"

text \<open>
  Modelled from the spec: \<^verbatim>\<open>btree_node_search_by_key\<close> is not among the sources.
  "Ordered lookup ... a linear scan is the reference implementation": the index of the
  first used slot that compares equal to the key, or \<open>-1\<close>.
\<close>

fun search_from :: "env \<Rightarrow> int_key list \<Rightarrow> ham_key \<Rightarrow> nat \<Rightarrow> int" where
  "search_from env [] key i = -1"
| "search_from env (e # es) key i =
     (if fst (db_compare env (take (key_size e) (key_key e)) (take (ksize key) (kdata key))) = 0
      then int i else search_from env es key (Suc i))"

definition btree_node_search_by_key :: "env \<Rightarrow> ham_offset \<Rightarrow> ham_key \<Rightarrow> ham_db \<Rightarrow> int option" where
  "btree_node_search_by_key env page key s =
     (case pages s page of
        None \<Rightarrow> None
      | Some pg \<Rightarrow>
          Some (search_from env (take (node_count (page_node pg)) (node_entries (page_node pg))) key 0))"

section \<open>Inserting into a page that has room: \<^verbatim>\<open>my_insert_nosplit\<close>\<close>

text \<open>
  \<^verbatim>\<open>memmove\<close> of the slots \<open>[i, i + n)\<close> one slot to the right. Slot \<open>i\<close> keeps its
  old contents; writing behind the last slot of the page is undefined.
\<close>

definition memmove_keys :: "int_key list \<Rightarrow> nat \<Rightarrow> nat \<Rightarrow> int_key list option" where
  "memmove_keys es i n =
     (if length es < i + 1 + n then None
      else Some (take (i + 1) es @ take n (drop i es) @ drop (i + 1 + n) es))"

text \<open>
  The eight bytes of a pointer word as they lie in memory (least significant byte first),
  and \<^verbatim>\<open>memcpy(&rid, data, size)\<close> followed, for a record shorter than the word, by
  \<^verbatim>\<open>p[sizeof(ham_offset_t)-1]=size\<close>.
\<close>

definition rid_bytes :: "ham_offset \<Rightarrow> byte list" where
  "rid_bytes w = map (\<lambda>i. ucast (drop_bit (8 * i) w)) [0..<8]"

definition bytes_rid :: "byte list \<Rightarrow> ham_offset" where
  "bytes_rid bs = foldr (\<lambda>b w. push_bit 8 w OR ucast b) bs 0"

definition memcpy_rid :: "ham_offset \<Rightarrow> byte list \<Rightarrow> nat \<Rightarrow> byte list" where
  "memcpy_rid rid d n = take n d @ drop n (rid_bytes rid)"

text \<open>The outcome of the scan: the function returns at once, or slot \<open>i\<close> is to be written.\<close>

datatype scan = Return ham_status | Slot nat

function nosplit_scan ::
  "env \<Rightarrow> ham_offset \<Rightarrow> ham_key \<Rightarrow> ham_u32 \<Rightarrow> nat \<Rightarrow> nat \<Rightarrow> ham_db \<Rightarrow> (scan \<times> ham_db) option" where
  "nosplit_scan env page key flags count i s =
     (if i < count then
        (case key_compare_int_to_pub env page i key s of
           None \<Rightarrow> None
         | Some (cmp, s1) \<Rightarrow>
             if db_error s1 \<noteq> HAM_SUCCESS then Some (Return (db_error s1), s1)
             else if cmp = 0 then
               (if flags AND OVERWRITE \<noteq> 0 then Some (Return HAM_SUCCESS, s1)
                else Some (Return HAM_DUPLICATE_KEY, s1))
             else if cmp > 0 then
               (case pages s1 page of
                  None \<Rightarrow> None
                | Some pg \<Rightarrow>
                    (case memmove_keys (node_entries (page_node pg)) i (count - i) of
                       None \<Rightarrow> None
                     | Some es \<Rightarrow>
                         Some (Slot i, modify_node page (\<lambda>n. n\<lparr>node_entries := es\<rparr>) s1)))
             else nosplit_scan env page key flags count (Suc i) s1)
      else Some (Slot i, s))"
  by pat_completeness auto
termination
  by (relation "measure (\<lambda>(env, page, key, flags, count, i, s). count - i)") auto

declare nosplit_scan.simps [simp del]

text \<open>
  The flag byte and the pointer word of the new slot: in a leaf a record of at most
  eight bytes is stored in the pointer word itself.
\<close>

definition record_to_slot :: "bool \<Rightarrow> ham_record \<Rightarrow> ham_offset \<Rightarrow> byte \<times> ham_offset" where
  "record_to_slot leaf record rid =
     (if leaf then
        (if rsize record = 0 then (0 OR KEY_BLOB_SIZE_EMPTY, rid)
         else if rsize record \<le> 8 then
           (if rsize record < 8 then
              (0 OR KEY_BLOB_SIZE_TINY,
               bytes_rid ((memcpy_rid rid (rdata record) (rsize record))[7 := of_nat (rsize record)]))
            else (0 OR KEY_BLOB_SIZE_SMALL, bytes_rid (memcpy_rid rid (rdata record) (rsize record))))
         else (0, rid))
      else (0, rid))"

text \<open>
  The second half of \<^verbatim>\<open>my_insert_nosplit\<close> (from line 328 on): the record is stored,
  slot \<open>i\<close> is written, the page is marked dirty and the count goes up by one.
\<close>

definition nosplit_write ::
  "env \<Rightarrow> ham_offset \<Rightarrow> ham_key \<Rightarrow> ham_offset \<Rightarrow> ham_record \<Rightarrow> nat \<Rightarrow> nat \<Rightarrow> ham_db
     \<Rightarrow> (ham_status \<times> ham_db) option" where
  "nosplit_write env page key rid record count i s1 =
     (case pages s1 page of
        None \<Rightarrow> None
      | Some pg1 \<Rightarrow>
          let (st, rid1, s2) =
                (if btree_node_is_leaf env (page_node pg1) \<and> 8 < rsize record
                 then blob_allocate env (rdata record) (rsize record) rid s1
                 else (HAM_SUCCESS, rid, s1))
          in
          if st \<noteq> HAM_SUCCESS then Some (st, s2)
          else
            (case pages s2 page of
               None \<Rightarrow> None
             | Some pg2 \<Rightarrow>
                 if length (node_entries (page_node pg2)) \<le> i then None
                 else
                   let (fl, rid2) = record_to_slot (btree_node_is_leaf env (page_node pg2)) record rid1;
                       bte = \<lparr>key_ptr = rid2, key_size = ksize key, key_flags = fl,
                              key_key = take (ksize key) (kdata key)\<rparr>
                   in Some (HAM_SUCCESS,
                            modify_node page (\<lambda>n. n\<lparr>node_count := count + 1\<rparr>)
                              (page_set_dirty page
                                (modify_node page
                                   (\<lambda>n. n\<lparr>node_entries := (node_entries n)[i := bte]\<rparr>) s2)))))"

definition my_insert_nosplit ::
  "env \<Rightarrow> ham_offset \<Rightarrow> ham_key \<Rightarrow> ham_offset \<Rightarrow> ham_record \<Rightarrow> ham_u32 \<Rightarrow> ham_db
     \<Rightarrow> (ham_status \<times> ham_db) option" where
  "my_insert_nosplit env page key rid record flags s =
     (case pages s page of
        None \<Rightarrow> None
      | Some pg \<Rightarrow>
          let count = node_count (page_node pg) in
          (case nosplit_scan env page key flags count 0 s of
             None \<Rightarrow> None
           | Some (Return st, s1) \<Rightarrow> Some (st, s1)
           | Some (Slot i, s1) \<Rightarrow> nosplit_write env page key rid record count i s1))"

section \<open>Splitting a page: \<^verbatim>\<open>my_insert_split\<close>\<close>

text \<open>
  \<^verbatim>\<open>memcpy\<close> of half of the slots into the new page (lines 423 to 446): from index
  \<open>pivot\<close> on in a leaf, from \<open>pivot + 1\<close> on in an internal node. The counts are
  unsigned, so \<open>count - pivot - 1\<close> has no defined meaning for an empty internal node.
\<close>

definition split_copy_keys :: "env \<Rightarrow> ham_offset \<Rightarrow> ham_offset \<Rightarrow> ham_db \<Rightarrow> ham_db option" where
  "split_copy_keys env page newpage s =
     (case pages s page of
        None \<Rightarrow> None
      | Some opg \<Rightarrow>
          (case pages s newpage of
             None \<Rightarrow> None
           | Some npg \<Rightarrow>
               let obtp = page_node opg;
                   count = node_count obtp;
                   pivot = count div 2;
                   from = (if btree_node_is_leaf env obtp then pivot else pivot + 1);
                   n = (if btree_node_is_leaf env obtp then count - pivot else count - pivot - 1)
               in
               if \<not> btree_node_is_leaf env obtp \<and> count - pivot = 0 then None
               else if length (node_entries obtp) < from + n then None
               else if length (node_entries (page_node npg)) < n then None
               else Some (modify_node newpage
                            (\<lambda>nd. nd\<lparr>node_entries :=
                                        take n (drop from (node_entries obtp)) @ drop n (node_entries nd)\<rparr>) s)))"

text \<open>
  Lines 464 to 485: the counts of both nodes, and for an internal node the left pointer
  of the new page, read from the pivot slot \<open>nbte\<close> of the old page.
\<close>

definition split_adjust ::
  "env \<Rightarrow> ham_offset \<Rightarrow> ham_offset \<Rightarrow> nat \<Rightarrow> nat \<Rightarrow> ham_db \<Rightarrow> ham_db option" where
  "split_adjust env page newpage count pivot s =
     (case pages s page of
        None \<Rightarrow> None
      | Some opg \<Rightarrow>
          let s1 = (if btree_node_is_leaf env (page_node opg)
                    then modify_node newpage (\<lambda>n. n\<lparr>node_count := count - pivot\<rparr>)
                           (modify_node page (\<lambda>n. n\<lparr>node_count := pivot\<rparr>) s)
                    else modify_node newpage (\<lambda>n. n\<lparr>node_count := count - pivot - 1\<rparr>)
                           (modify_node page (\<lambda>n. n\<lparr>node_count := pivot\<rparr>) s))
          in
          (case pages s1 page of
             None \<Rightarrow> None
           | Some opg1 \<Rightarrow>
               if \<not> btree_node_is_leaf env (page_node opg1) then
                 (if length (node_entries (page_node opg1)) \<le> pivot then None
                  else Some (modify_node newpage
                               (\<lambda>n. n\<lparr>node_ptr_left := key_ptr (node_entries (page_node opg1) ! pivot)\<rparr>) s1))
               else Some s1))"

text \<open>
  Lines 503 to 520, the double-linked list of siblings. The header fields are written
  one after the other; the writes are kept as a list, in the order of the statements, and
  \<^verbatim>\<open>split_fix_siblings_states\<close> gives the state of the database before the first
  write and after each write, so that the intermediate states of the chain are visible.
  The old right sibling is fetched before the first write.
\<close>

datatype node_write =
    Set_left ham_offset ham_offset
  | Set_right ham_offset ham_offset
  | Set_dirty ham_offset

fun apply_write :: "ham_db \<Rightarrow> node_write \<Rightarrow> ham_db" where
  "apply_write s (Set_left p v) = modify_node p (\<lambda>n. n\<lparr>node_left := v\<rparr>) s"
| "apply_write s (Set_right p v) = modify_node p (\<lambda>n. n\<lparr>node_right := v\<rparr>) s"
| "apply_write s (Set_dirty p) = page_set_dirty p s"

fun write_states :: "ham_db \<Rightarrow> node_write list \<Rightarrow> ham_db list" where
  "write_states s [] = []"
| "write_states s (w # ws) = apply_write s w # write_states (apply_write s w) ws"

definition sibling_writes ::
  "ham_offset \<Rightarrow> ham_offset \<Rightarrow> ham_offset \<Rightarrow> ham_offset option \<Rightarrow> node_write list" where
  "sibling_writes page newpage oldright oldsib =
     [Set_left newpage page, Set_right newpage oldright, Set_right page newpage]
     @ (case oldsib of None \<Rightarrow> [] | Some sib \<Rightarrow> [Set_left sib newpage, Set_dirty sib])
     @ [Set_dirty newpage, Set_dirty page]"

definition split_fix_siblings_states :: "ham_offset \<Rightarrow> ham_offset \<Rightarrow> ham_db \<Rightarrow> ham_db list option" where
  "split_fix_siblings_states page newpage s =
     (case pages s page of
        None \<Rightarrow> None
      | Some opg \<Rightarrow>
          let oldright = node_right (page_node opg);
              (oldsib, s1) = (if oldright \<noteq> 0 then db_fetch_page oldright s else (None, s))
          in Some (s1 # write_states s1 (sibling_writes page newpage oldright oldsib)))"

definition split_fix_siblings :: "ham_offset \<Rightarrow> ham_offset \<Rightarrow> ham_db \<Rightarrow> ham_db option" where
  "split_fix_siblings page newpage s = map_option last (split_fix_siblings_states page newpage s)"

definition my_insert_split ::
  "env \<Rightarrow> ham_offset \<Rightarrow> ham_key \<Rightarrow> ham_offset \<Rightarrow> ham_u32 \<Rightarrow> insert_scratchpad \<Rightarrow> ham_db
     \<Rightarrow> (insert_status \<times> insert_scratchpad \<times> ham_db) option" where
  "my_insert_split env page key rid flags sp s =
     (case db_alloc_page env PAGE_TYPE_INDEX s of
        (None, s1) \<Rightarrow> Some (Status (db_error s1), sp, s1)
      | (Some newpage, s1) \<Rightarrow>
          (case split_copy_keys env page newpage s1 of
             None \<Rightarrow> None
           | Some s2 \<Rightarrow>
               (case pages s2 page of
                  None \<Rightarrow> None
                | Some opg \<Rightarrow>
                    let count = node_count (page_node opg);
                        pivot = count div 2
                    in
                    if length (node_entries (page_node opg)) \<le> pivot then None
                    else
                      let nbte = node_entries (page_node opg) ! pivot;
                          oldkey = \<lparr>kdata = key_key nbte, ksize = key_size nbte\<rparr>
                      in
                      (case util_copy_key oldkey s2 of
                         (None, s3) \<Rightarrow>
                           Some (Status HAM_OUT_OF_MEMORY, sp,
                                 db_set_error HAM_OUT_OF_MEMORY (db_free_page newpage s3))
                       | (Some pivotkey, s3) \<Rightarrow>
                           (case split_adjust env page newpage count pivot s3 of
                              None \<Rightarrow> None
                            | Some s4 \<Rightarrow>
                                (case key_compare_int_to_pub env page pivot key s4 of
                                   None \<Rightarrow> None
                                 | Some (cmp, s5) \<Rightarrow>
                                     if db_error s5 \<noteq> HAM_SUCCESS then Some (Status (db_error s5), sp, s5)
                                     else
                                       (case (if cmp \<le> 0
                                              then my_insert_nosplit env newpage key rid (sp_record sp)
                                                     (flags OR NOFLUSH) s5
                                              else my_insert_nosplit env page key rid (sp_record sp)
                                                     (flags OR NOFLUSH) s5) of
                                          None \<Rightarrow> None
                                        | Some (st, s6) \<Rightarrow>
                                            if st \<noteq> HAM_SUCCESS then Some (Status st, sp, s6)
                                            else
                                              (case split_fix_siblings page newpage s6 of
                                                 None \<Rightarrow> None
                                               | Some s7 \<Rightarrow>
                                                   Some (SPLIT,
                                                         sp\<lparr>sp_key := pivotkey, sp_rid := newpage\<rparr>,
                                                         s7)))))))))"

section \<open>\<^verbatim>\<open>my_insert_in_page\<close>, \<^verbatim>\<open>my_insert_recursive\<close> and \<^verbatim>\<open>btree_insert\<close>\<close>

definition my_insert_in_page ::
  "env \<Rightarrow> ham_offset \<Rightarrow> ham_key \<Rightarrow> ham_offset \<Rightarrow> ham_u32 \<Rightarrow> insert_scratchpad \<Rightarrow> ham_db
     \<Rightarrow> (insert_status \<times> insert_scratchpad \<times> ham_db) option" where
  "my_insert_in_page env page key rid flags sp s =
     (case db_backend s of
        None \<Rightarrow> None
      | Some be \<Rightarrow>
          (case pages s page of
             None \<Rightarrow> None
           | Some pg \<Rightarrow>
               if node_count (page_node pg) < maxkeys be then
                 map_option (\<lambda>(st, s1). (Status st, sp, s1))
                   (my_insert_nosplit env page key rid (sp_record sp) flags s)
               else if btree_node_is_leaf env (page_node pg) then
                 (case btree_node_search_by_key env page key s of
                    None \<Rightarrow> None
                  | Some idx \<Rightarrow>
                      if 0 \<le> idx then
                        (if flags AND OVERWRITE \<noteq> 0 then
                           map_option (\<lambda>(st, s1). (Status st, sp, s1))
                             (my_insert_nosplit env page key rid (sp_record sp) flags s)
                         else Some (Status HAM_DUPLICATE_KEY, sp, s))
                      else my_insert_split env page key rid flags sp s)
               else my_insert_split env page key rid flags sp s))"

text \<open>
  The recursion descends along \<^verbatim>\<open>btree_traverse_tree\<close>; nothing in the function bounds
  its depth, so it is a partial function: \<open>None\<close> also stands for a descent that does
  not end.
\<close>

partial_function (option) my_insert_recursive ::
  "env \<Rightarrow> ham_offset \<Rightarrow> ham_key \<Rightarrow> ham_offset \<Rightarrow> insert_scratchpad \<Rightarrow> ham_db
     \<Rightarrow> (insert_status \<times> insert_scratchpad \<times> ham_db) option" where
  "my_insert_recursive env page key rid sp s =
     (case pages s page of
        None \<Rightarrow> None
      | Some pg \<Rightarrow>
          if btree_node_is_leaf env (page_node pg) then my_insert_in_page env page key rid 0 sp s
          else
            Option.bind (my_insert_recursive env (btree_traverse_tree env s page key) key rid sp s)
              (\<lambda>(st, sp1, s1).
                 case st of
                   Status HAM_SUCCESS \<Rightarrow> Some (st, sp1, s1)
                 | Status HAM_DUPLICATE_KEY \<Rightarrow> Some (st, sp1, s1)
                 | SPLIT \<Rightarrow> my_insert_in_page env page (sp_key sp1) (sp_rid sp1) OVERWRITE sp1 s1
                 | Status e \<Rightarrow> Some (st, sp1, db_set_error e s1)))"

definition btree_set_rootpage :: "ham_offset \<Rightarrow> ham_db \<Rightarrow> ham_db" where
  "btree_set_rootpage p s = s\<lparr>db_backend := map_option (\<lambda>be. be\<lparr>rootpage := p\<rparr>) (db_backend s)\<rparr>"

definition btree_insert ::
  "env \<Rightarrow> ham_key \<Rightarrow> ham_record \<Rightarrow> ham_u32 \<Rightarrow> ham_db \<Rightarrow> (ham_status \<times> ham_db) option" where
  "btree_insert env key record flags s =
     (case db_backend s of
        None \<Rightarrow> None
      | Some be \<Rightarrow>
          let scratchpad = \<lparr>sp_flags = flags, sp_record = record,
                            sp_key = \<lparr>kdata = [], ksize = 0\<rparr>, sp_rid = 0\<rparr>;
              root = rootpage be
          in
          (case my_insert_recursive env root key 0 scratchpad s of
             None \<Rightarrow> None
           | Some (Status st, sp1, s1) \<Rightarrow> Some (st, s1)
           | Some (SPLIT, sp1, s1) \<Rightarrow>
               (case db_alloc_page env PAGE_TYPE_ROOT s1 of
                  (None, s2) \<Rightarrow> Some (db_error s2, s2)
                | (Some newroot, s2) \<Rightarrow>
                    (case db_backend s2 of
                       None \<Rightarrow> None
                     | Some be2 \<Rightarrow>
                         let s3 = page_set_type newroot PAGE_TYPE_ROOT s2;
                             s4 = modify_node newroot (\<lambda>n. n\<lparr>node_ptr_left := rootpage be2\<rparr>) s3
                         in
                         (case my_insert_nosplit env newroot (sp_key sp1) (sp_rid sp1) (sp_record sp1)
                                 NOFLUSH s4 of
                            None \<Rightarrow> None
                          | Some (st, s5) \<Rightarrow>
                              if st \<noteq> HAM_SUCCESS then Some (st, s5)
                              else
                                Some (st, page_set_type root PAGE_TYPE_INDEX
                                            ((btree_set_rootpage newroot s5)\<lparr>db_dirty := True\<rparr>)))))))"

declare my_insert_recursive.simps [code]

section \<open>The cursors: \<^verbatim>\<open>src/btree_cursor.c\<close>\<close>

text \<open>
  The flag bits of a cursor and of \<^verbatim>\<open>ham_cursor_move\<close> are defined in headers that are not
  among the sources; each is a single bit of its own.
\<close>

definition BT_CURSOR_FLAG_COUPLED :: ham_u32 where "BT_CURSOR_FLAG_COUPLED = 1"
definition BT_CURSOR_FLAG_UNCOUPLED :: ham_u32 where "BT_CURSOR_FLAG_UNCOUPLED = 2"
definition BT_CURSOR_UNCOUPLE_NO_REMOVE :: ham_u32 where "BT_CURSOR_UNCOUPLE_NO_REMOVE = 1"

definition HAM_CURSOR_FIRST :: ham_u32 where "HAM_CURSOR_FIRST = 1"
definition HAM_CURSOR_LAST :: ham_u32 where "HAM_CURSOR_LAST = 2"
definition HAM_CURSOR_NEXT :: ham_u32 where "HAM_CURSOR_NEXT = 4"
definition HAM_CURSOR_PREVIOUS :: ham_u32 where "HAM_CURSOR_PREVIOUS = 8"

text \<open>
  Modelled from the spec: the macro \<^verbatim>\<open>bt_cursor_is_nil\<close> is not among the sources.
  "Exactly one of three modes holds at any instant ... NIL: no position": a cursor is
  NIL when it is neither coupled nor uncoupled (as \<^verbatim>\<open>my_move_next\<close> tests it).
\<close>

definition bt_cursor_is_nil :: "ham_bt_cursor \<Rightarrow> bool" where
  "bt_cursor_is_nil c \<longleftrightarrow>
     c_flags c AND BT_CURSOR_FLAG_COUPLED = 0 \<and> c_flags c AND BT_CURSOR_FLAG_UNCOUPLED = 0"

definition modify_cursor :: "nat \<Rightarrow> (ham_bt_cursor \<Rightarrow> ham_bt_cursor) \<Rightarrow> ham_db \<Rightarrow> ham_db" where
  "modify_cursor c f s = (case cursors s c of None \<Rightarrow> s | Some cu \<Rightarrow> s\<lparr>cursors := (cursors s)(c \<mapsto> f cu)\<rparr>)"

text \<open>
  Modelled from the spec: \<^verbatim>\<open>page_add_cursor\<close> and \<^verbatim>\<open>page_remove_cursor\<close> are not among
  the sources. "Each page owns a doubly linked list of cursors currently coupled to it":
  the list of the page, with the new cursor put in front.
\<close>

definition page_add_cursor :: "ham_offset \<Rightarrow> nat \<Rightarrow> ham_db \<Rightarrow> ham_db option" where
  "page_add_cursor page c s =
     (case pages s page of
        None \<Rightarrow> None
      | Some pg \<Rightarrow> Some (modify_page page (\<lambda>pg. pg\<lparr>page_cursors := c # page_cursors pg\<rparr>) s))"

definition page_remove_cursor :: "ham_offset \<Rightarrow> nat \<Rightarrow> ham_db \<Rightarrow> ham_db option" where
  "page_remove_cursor page c s =
     (case pages s page of
        None \<Rightarrow> None
      | Some pg \<Rightarrow> Some (modify_page page (\<lambda>pg. pg\<lparr>page_cursors := removeAll c (page_cursors pg)\<rparr>) s))"

text \<open>
  Modelled from the spec: the transaction manager is not among the sources.
  "begin \<rightarrow> txn, commit(txn), abort(txn)": a successful begin makes the transaction the
  database's active one, commit and abort end it; every call is recorded in \<open>txn_log\<close>.
\<close>

definition ham_txn_begin :: "ham_db \<Rightarrow> ham_status \<times> ham_db" where
  "ham_txn_begin s =
     (if txn_begin_status s \<noteq> HAM_SUCCESS then (txn_begin_status s, s)
      else (HAM_SUCCESS, s\<lparr>db_txn := True, txn_log := txn_log s @ [TXN_BEGIN]\<rparr>))"

definition ham_txn_commit :: "ham_db \<Rightarrow> ham_status \<times> ham_db" where
  "ham_txn_commit s = (txn_commit_status s, s\<lparr>db_txn := False, txn_log := txn_log s @ [TXN_COMMIT]\<rparr>)"

definition ham_txn_abort :: "ham_db \<Rightarrow> ham_db" where
  "ham_txn_abort s = s\<lparr>db_txn := False, txn_log := txn_log s @ [TXN_ABORT]\<rparr>"

text \<open>
  Modelled from the spec: \<^verbatim>\<open>util_copy_key_int2pub\<close> is not among the sources. It copies
  the key of a slot into a public key, in a buffer of its own, and yields null with
  \<open>HAM_OUT_OF_MEMORY\<close> as the database error when the allocator is exhausted.
\<close>

definition util_copy_key_int2pub :: "int_key \<Rightarrow> ham_db \<Rightarrow> ham_key option \<times> ham_db" where
  "util_copy_key_int2pub e s =
     (if alloc_budget s = 0 then (None, db_set_error HAM_OUT_OF_MEMORY s)
      else (Some \<lparr>kdata = take (key_size e) (key_key e), ksize = key_size e\<rparr>,
            s\<lparr>alloc_budget := alloc_budget s - 1\<rparr>))"

text \<open>\<^verbatim>\<open>ham_mem_alloc\<close>: whether the allocator grants one more block.\<close>

definition ham_mem_alloc :: "ham_db \<Rightarrow> bool \<times> ham_db" where
  "ham_mem_alloc s =
     (if alloc_budget s = 0 then (False, s) else (True, s\<lparr>alloc_budget := alloc_budget s - 1\<rparr>))"

definition bt_cursor_set_to_nil :: "nat \<Rightarrow> ham_db \<Rightarrow> (ham_status \<times> ham_db) option" where
  "bt_cursor_set_to_nil c s =
     (case cursors s c of
        None \<Rightarrow> None
      | Some cu \<Rightarrow>
          if c_flags cu AND BT_CURSOR_FLAG_UNCOUPLED \<noteq> 0 then
            (case c_uncoupled_key cu of
               None \<Rightarrow> None
             | Some key \<Rightarrow>
                 Some (HAM_SUCCESS,
                       modify_cursor c (\<lambda>cu. cu\<lparr>c_dupe_id := 0\<rparr>)
                         (modify_cursor c
                            (\<lambda>cu. cu\<lparr>c_uncoupled_key := None,
                                      c_flags := c_flags cu AND NOT BT_CURSOR_FLAG_UNCOUPLED\<rparr>) s)))
          else if c_flags cu AND BT_CURSOR_FLAG_COUPLED \<noteq> 0 then
            (case page_remove_cursor (c_coupled_page cu) c s of
               None \<Rightarrow> None
             | Some s1 \<Rightarrow>
                 Some (HAM_SUCCESS,
                       modify_cursor c (\<lambda>cu. cu\<lparr>c_dupe_id := 0\<rparr>)
                         (modify_cursor c
                            (\<lambda>cu. cu\<lparr>c_flags := c_flags cu AND NOT BT_CURSOR_FLAG_COUPLED\<rparr>) s1)))
          else Some (HAM_SUCCESS, modify_cursor c (\<lambda>cu. cu\<lparr>c_dupe_id := 0\<rparr>) s))"

text \<open>\<open>count - 1\<close> on the unsigned 32-bit counts of the code.\<close>

definition u32_pred :: "nat \<Rightarrow> nat" where
  "u32_pred n = (if n = 0 then 4294967295 else n - 1)"

text \<open>\<^verbatim>\<open>page_add_cursor\<close> and the four assignments that couple a cursor to a slot.\<close>

definition couple_to :: "ham_offset \<Rightarrow> nat \<Rightarrow> nat \<Rightarrow> ham_db \<Rightarrow> ham_db option" where
  "couple_to page idx c s =
     (case page_add_cursor page c s of
        None \<Rightarrow> None
      | Some s1 \<Rightarrow>
          (case cursors s1 c of
             None \<Rightarrow> None
           | Some cu \<Rightarrow>
               Some (modify_cursor c
                       (\<lambda>cu. cu\<lparr>c_coupled_page := page, c_coupled_index := idx,
                                 c_flags := c_flags cu OR BT_CURSOR_FLAG_COUPLED,
                                 c_dupe_id := 0\<rparr>) s1)))"

text \<open>
  The loops of \<^verbatim>\<open>my_move_first\<close> and \<^verbatim>\<open>my_move_last\<close>: down the leftmost (rightmost)
  children to a leaf. Their result is an error status or the leaf. Nothing bounds the
  number of rounds, so they are partial functions.
\<close>

partial_function (option) move_first_loop ::
  "env \<Rightarrow> ham_offset \<Rightarrow> ham_db \<Rightarrow> ((ham_status + ham_offset) \<times> ham_db) option" where
  "move_first_loop env page s =
     (case pages s page of
        None \<Rightarrow> None
      | Some pg \<Rightarrow>
          if node_count (page_node pg) = 0 then
            Some (Inl HAM_KEY_NOT_FOUND, db_set_error HAM_KEY_NOT_FOUND s)
          else if btree_node_is_leaf env (page_node pg) then Some (Inr page, s)
          else
            (case db_fetch_page (node_ptr_left (page_node pg)) s of
               (None, s1) \<Rightarrow>
                 let s2 = (if db_error s1 = HAM_SUCCESS then db_set_error HAM_KEY_NOT_FOUND s1 else s1)
                 in Some (Inl (db_error s2), s2)
             | (Some child, s1) \<Rightarrow> move_first_loop env child s1))"

partial_function (option) move_last_loop ::
  "env \<Rightarrow> ham_offset \<Rightarrow> ham_db \<Rightarrow> ((ham_status + ham_offset) \<times> ham_db) option" where
  "move_last_loop env page s =
     (case pages s page of
        None \<Rightarrow> None
      | Some pg \<Rightarrow>
          if node_count (page_node pg) = 0 then
            Some (Inl HAM_KEY_NOT_FOUND, db_set_error HAM_KEY_NOT_FOUND s)
          else if btree_node_is_leaf env (page_node pg) then Some (Inr page, s)
          else if length (node_entries (page_node pg)) \<le> node_count (page_node pg) - 1 then None
          else
            (case db_fetch_page (key_ptr (node_entries (page_node pg) ! (node_count (page_node pg) - 1))) s of
               (None, s1) \<Rightarrow>
                 let s2 = (if db_error s1 = HAM_SUCCESS then db_set_error HAM_KEY_NOT_FOUND s1 else s1)
                 in Some (Inl (db_error s2), s2)
             | (Some child, s1) \<Rightarrow> move_last_loop env child s1))"

declare move_first_loop.simps [code]
declare move_last_loop.simps [code]

definition my_move_first :: "env \<Rightarrow> ham_btree \<Rightarrow> nat \<Rightarrow> ham_u32 \<Rightarrow> ham_db \<Rightarrow> (ham_status \<times> ham_db) option" where
  "my_move_first env be c flags s =
     (case bt_cursor_set_to_nil c s of
        None \<Rightarrow> None
      | Some (st, s1) \<Rightarrow>
          if st \<noteq> HAM_SUCCESS then Some (st, s1)
          else
            let s2 = db_set_error HAM_SUCCESS s1 in
            if rootpage be = 0 then Some (HAM_KEY_NOT_FOUND, db_set_error HAM_KEY_NOT_FOUND s2)
            else
              (case db_fetch_page (rootpage be) s2 of
                 (None, s3) \<Rightarrow> Some (db_error s3, s3)
               | (Some root, s3) \<Rightarrow>
                   (case move_first_loop env root s3 of
                      None \<Rightarrow> None
                    | Some (Inl e, s4) \<Rightarrow> Some (e, s4)
                    | Some (Inr page, s4) \<Rightarrow>
                        map_option (\<lambda>s5. (HAM_SUCCESS, s5)) (couple_to page 0 c s4))))"

definition my_move_last :: "env \<Rightarrow> ham_btree \<Rightarrow> nat \<Rightarrow> ham_u32 \<Rightarrow> ham_db \<Rightarrow> (ham_status \<times> ham_db) option" where
  "my_move_last env be c flags s =
     (case bt_cursor_set_to_nil c s of
        None \<Rightarrow> None
      | Some (st, s1) \<Rightarrow>
          if st \<noteq> HAM_SUCCESS then Some (st, s1)
          else
            let s2 = db_set_error HAM_SUCCESS s1 in
            if rootpage be = 0 then Some (HAM_KEY_NOT_FOUND, db_set_error HAM_KEY_NOT_FOUND s2)
            else
              (case db_fetch_page (rootpage be) s2 of
                 (None, s3) \<Rightarrow> Some (db_error s3, s3)
               | (Some root, s3) \<Rightarrow>
                   (case move_last_loop env root s3 of
                      None \<Rightarrow> None
                    | Some (Inl e, s4) \<Rightarrow> Some (e, s4)
                    | Some (Inr page, s4) \<Rightarrow>
                        (case pages s4 page of
                           None \<Rightarrow> None
                         | Some pg \<Rightarrow>
                             map_option (\<lambda>s5. (HAM_SUCCESS, s5))
                               (couple_to page (u32_pred (node_count (page_node pg))) c s4)))))"

definition bt_cursor_find :: "env \<Rightarrow> nat \<Rightarrow> ham_key \<Rightarrow> ham_u32 \<Rightarrow> ham_db \<Rightarrow> (ham_status \<times> ham_db) option" where
  "bt_cursor_find env c key flags s =
     (let local_txn = \<not> db_txn s in
      case db_backend s of
        None \<Rightarrow> Some (HAM_NOT_INITIALIZED, s)
      | Some be \<Rightarrow>
          let (st0, s1) = (if local_txn then ham_txn_begin s else (HAM_SUCCESS, s)) in
          if st0 \<noteq> HAM_SUCCESS then Some (st0, s1)
          else
            (case bt_cursor_set_to_nil c s1 of
               None \<Rightarrow> None
             | Some (st, s2) \<Rightarrow>
                 if st \<noteq> HAM_SUCCESS then Some (st, if local_txn then ham_txn_abort s2 else s2)
                 else
                   let (st1, s3) = btree_find_cursor env s2 c key flags in
                   if st1 \<noteq> HAM_SUCCESS then Some (st1, if local_txn then ham_txn_abort s3 else s3)
                   else if local_txn then Some (ham_txn_commit s3)
                   else Some (HAM_SUCCESS, s3)))"

definition bt_cursor_couple :: "env \<Rightarrow> nat \<Rightarrow> ham_db \<Rightarrow> (ham_status \<times> ham_db) option" where
  "bt_cursor_couple env c s =
     (let local_txn = \<not> db_txn s;
          (st0, s1) = (if local_txn then ham_txn_begin s else (HAM_SUCCESS, s))
      in
      if st0 \<noteq> HAM_SUCCESS then Some (st0, s1)
      else
        (case cursors s1 c of
           None \<Rightarrow> None
         | Some cu \<Rightarrow>
             (case c_uncoupled_key cu of
                None \<Rightarrow> None
              | Some ukey \<Rightarrow>
                  (case util_copy_key ukey s1 of
                     (None, s2) \<Rightarrow>
                       let s3 = (if local_txn then ham_txn_abort s2 else s2) in Some (db_error s3, s3)
                   | (Some key, s2) \<Rightarrow>
                       (case bt_cursor_find env c key 0 s2 of
                          None \<Rightarrow> None
                        | Some (st, s3) \<Rightarrow>
                            if local_txn then
                              (if st \<noteq> HAM_SUCCESS then Some (st, ham_txn_abort s3)
                               else Some (ham_txn_commit s3))
                            else Some (st, s3))))))"

definition bt_cursor_uncouple :: "nat \<Rightarrow> ham_u32 \<Rightarrow> ham_db \<Rightarrow> (ham_status \<times> ham_db) option" where
  "bt_cursor_uncouple c flags s =
     (let local_txn = \<not> db_txn s in
      case cursors s c of
        None \<Rightarrow> None
      | Some cu \<Rightarrow>
          if c_flags cu AND BT_CURSOR_FLAG_UNCOUPLED \<noteq> 0 then Some (HAM_SUCCESS, s)
          else if c_flags cu AND BT_CURSOR_FLAG_COUPLED = 0 then Some (HAM_SUCCESS, s)
          else
            let (st0, s1) = (if local_txn then ham_txn_begin s else (HAM_SUCCESS, s)) in
            if st0 \<noteq> HAM_SUCCESS then Some (st0, s1)
            else
              (case pages s1 (c_coupled_page cu) of
                 None \<Rightarrow> None
               | Some pg \<Rightarrow>
                   if length (node_entries (page_node pg)) \<le> c_coupled_index cu then None
                   else
                     let entry = node_entries (page_node pg) ! c_coupled_index cu;
                         (ok, s2) = ham_mem_alloc s1
                     in
                     if \<not> ok then
                       Some (HAM_OUT_OF_MEMORY,
                             db_set_error HAM_OUT_OF_MEMORY (if local_txn then ham_txn_abort s2 else s2))
                     else
                       (case util_copy_key_int2pub entry s2 of
                          (None, s3) \<Rightarrow>
                            let s4 = (if local_txn then ham_txn_abort s3 else s3) in Some (db_error s4, s4)
                        | (Some key, s3) \<Rightarrow>
                            (case (if flags AND BT_CURSOR_UNCOUPLE_NO_REMOVE = 0
                                   then page_remove_cursor (c_coupled_page cu) c s3 else Some s3) of
                               None \<Rightarrow> None
                             | Some s4 \<Rightarrow>
                                 let s5 = modify_cursor c
                                            (\<lambda>cu. cu\<lparr>c_flags := (c_flags cu AND NOT BT_CURSOR_FLAG_COUPLED)
                                                                   OR BT_CURSOR_FLAG_UNCOUPLED,
                                                      c_uncoupled_key := Some key\<rparr>) s4
                                 in
                                 if local_txn then Some (ham_txn_commit s5)
                                 else Some (HAM_SUCCESS, s5)))))"

text \<open>\<^verbatim>\<open>my_move_next\<close> from \<^verbatim>\<open>db_set_error(db, 0)\<close> on, for a cursor that is coupled.\<close>

definition move_next_coupled :: "nat \<Rightarrow> ham_db \<Rightarrow> (ham_status \<times> ham_db) option" where
  "move_next_coupled c s1 =
     (let s2 = db_set_error HAM_SUCCESS s1 in
      case cursors s2 c of
        None \<Rightarrow> None
      | Some cu \<Rightarrow>
          (case pages s2 (c_coupled_page cu) of
             None \<Rightarrow> None
           | Some pg \<Rightarrow>
               if c_coupled_index cu + 1 < node_count (page_node pg) then
                 Some (HAM_SUCCESS,
                       modify_cursor c (\<lambda>cu. cu\<lparr>c_coupled_index := c_coupled_index cu + 1, c_dupe_id := 0\<rparr>) s2)
               else if node_right (page_node pg) = 0 then
                 Some (HAM_KEY_NOT_FOUND, db_set_error HAM_KEY_NOT_FOUND s2)
               else
                 (case page_remove_cursor (c_coupled_page cu) c s2 of
                    None \<Rightarrow> None
                  | Some s3 \<Rightarrow>
                      let s4 = modify_cursor c
                                 (\<lambda>cu. cu\<lparr>c_flags := c_flags cu AND NOT BT_CURSOR_FLAG_COUPLED\<rparr>) s3
                      in
                      (case db_fetch_page (node_right (page_node pg)) s4 of
                         (None, s5) \<Rightarrow> Some (db_error s5, s5)
                       | (Some page, s5) \<Rightarrow>
                           map_option (\<lambda>s6. (HAM_SUCCESS, s6)) (couple_to page 0 c s5)))))"

definition my_move_next :: "env \<Rightarrow> ham_btree \<Rightarrow> nat \<Rightarrow> ham_u32 \<Rightarrow> ham_db \<Rightarrow> (ham_status \<times> ham_db) option" where
  "my_move_next env be c flags s =
     (case cursors s c of
        None \<Rightarrow> None
      | Some cu \<Rightarrow>
          if c_flags cu AND BT_CURSOR_FLAG_UNCOUPLED \<noteq> 0 then
            (case bt_cursor_couple env c s of
               None \<Rightarrow> None
             | Some (st, s1) \<Rightarrow> if st \<noteq> HAM_SUCCESS then Some (st, s1) else move_next_coupled c s1)
          else if c_flags cu AND BT_CURSOR_FLAG_COUPLED = 0 then Some (HAM_CURSOR_IS_NIL, s)
          else move_next_coupled c s)"

definition move_previous_coupled :: "nat \<Rightarrow> ham_db \<Rightarrow> (ham_status \<times> ham_db) option" where
  "move_previous_coupled c s1 =
     (let s2 = db_set_error HAM_SUCCESS s1 in
      case cursors s2 c of
        None \<Rightarrow> None
      | Some cu \<Rightarrow>
          (case pages s2 (c_coupled_page cu) of
             None \<Rightarrow> None
           | Some pg \<Rightarrow>
               if c_coupled_index cu \<noteq> 0 then
                 Some (HAM_SUCCESS,
                       modify_cursor c (\<lambda>cu. cu\<lparr>c_coupled_index := c_coupled_index cu - 1, c_dupe_id := 0\<rparr>) s2)
               else if node_left (page_node pg) = 0 then
                 Some (HAM_KEY_NOT_FOUND, db_set_error HAM_KEY_NOT_FOUND s2)
               else
                 (case page_remove_cursor (c_coupled_page cu) c s2 of
                    None \<Rightarrow> None
                  | Some s3 \<Rightarrow>
                      let s4 = modify_cursor c
                                 (\<lambda>cu. cu\<lparr>c_flags := c_flags cu AND NOT BT_CURSOR_FLAG_COUPLED\<rparr>) s3
                      in
                      (case db_fetch_page (node_left (page_node pg)) s4 of
                         (None, s5) \<Rightarrow> Some (db_error s5, s5)
                       | (Some page, s5) \<Rightarrow>
                           (case pages s5 page of
                              None \<Rightarrow> None
                            | Some lpg \<Rightarrow>
                                map_option (\<lambda>s6. (HAM_SUCCESS, s6))
                                  (couple_to page (u32_pred (node_count (page_node lpg))) c s5))))))"

definition my_move_previous :: "env \<Rightarrow> ham_btree \<Rightarrow> nat \<Rightarrow> ham_u32 \<Rightarrow> ham_db \<Rightarrow> (ham_status \<times> ham_db) option" where
  "my_move_previous env be c flags s =
     (case cursors s c of
        None \<Rightarrow> None
      | Some cu \<Rightarrow>
          if c_flags cu AND BT_CURSOR_FLAG_UNCOUPLED \<noteq> 0 then
            (case bt_cursor_couple env c s of
               None \<Rightarrow> None
             | Some (st, s1) \<Rightarrow> if st \<noteq> HAM_SUCCESS then Some (st, s1) else move_previous_coupled c s1)
          else if c_flags cu AND BT_CURSOR_FLAG_COUPLED = 0 then Some (HAM_CURSOR_IS_NIL, s)
          else move_previous_coupled c s)"

text \<open>
  \<^verbatim>\<open>bt_cursor_move\<close> after the movement (from line 900 on): the key and the record of
  the slot the cursor is coupled to are read into the caller's buffers, where given.
\<close>

definition move_read ::
  "env \<Rightarrow> bool \<Rightarrow> nat \<Rightarrow> ham_key option \<Rightarrow> ham_record option \<Rightarrow> ham_db
     \<Rightarrow> (ham_status \<times> ham_key option \<times> ham_record option \<times> ham_db) option" where
  "move_read env local_txn c key record s =
     (case cursors s c of
        None \<Rightarrow> None
      | Some cu \<Rightarrow>
          (case pages s (c_coupled_page cu) of
             None \<Rightarrow> None
           | Some pg \<Rightarrow>
               if length (node_entries (page_node pg)) \<le> c_coupled_index cu then None
               else
                 let entry = node_entries (page_node pg) ! c_coupled_index cu;
                     (st1, key1, s1) =
                        (case key of
                           None \<Rightarrow> (HAM_SUCCESS, None, s)
                         | Some k \<Rightarrow> (let (st, k1, s1) = util_read_key env s entry k in (st, Some k1, s1)))
                 in
                 if st1 \<noteq> HAM_SUCCESS then
                   Some (st1, key1, record, if local_txn then ham_txn_abort s1 else s1)
                 else
                   let (st2, record2, s2) =
                         (case record of
                            None \<Rightarrow> (HAM_SUCCESS, None, s1)
                          | Some r \<Rightarrow>
                              (let (st, r1, s2) = util_read_record env s1 (key_flags entry) (key_ptr entry) r
                               in (st, Some r1, s2)))
                   in
                   if st2 \<noteq> HAM_SUCCESS then
                     Some (st2, key1, record2, if local_txn then ham_txn_abort s2 else s2)
                   else if local_txn then
                     (let (st3, s3) = ham_txn_commit s2 in Some (st3, key1, record2, s3))
                   else Some (HAM_SUCCESS, key1, record2, s2)))"

text \<open>
  The end of the movement in \<^verbatim>\<open>bt_cursor_move\<close> (lines 894 to 898): a failure aborts the
  local transaction and is returned, otherwise the slot is read.
\<close>

definition move_finish ::
  "env \<Rightarrow> bool \<Rightarrow> nat \<Rightarrow> ham_key option \<Rightarrow> ham_record option \<Rightarrow> (ham_status \<times> ham_db) option
     \<Rightarrow> (ham_status \<times> ham_key option \<times> ham_record option \<times> ham_db) option" where
  "move_finish env local_txn c key record r =
     (case r of
        None \<Rightarrow> None
      | Some (st, s2) \<Rightarrow>
          if st \<noteq> HAM_SUCCESS then Some (st, key, record, if local_txn then ham_txn_abort s2 else s2)
          else move_read env local_txn c key record s2)"

text \<open>
  Lines 857 to 870: for a NIL cursor a request for the next key becomes one for the first,
  a request for the previous key one for the last.
\<close>

definition nil_rewrite_flags :: "ham_bt_cursor \<Rightarrow> ham_u32 \<Rightarrow> ham_u32" where
  "nil_rewrite_flags cu flags =
     (if bt_cursor_is_nil cu then
        (if flags AND HAM_CURSOR_NEXT \<noteq> 0
         then (flags AND NOT HAM_CURSOR_NEXT) OR HAM_CURSOR_FIRST
         else if flags AND HAM_CURSOR_PREVIOUS \<noteq> 0
         then (flags AND NOT HAM_CURSOR_PREVIOUS) OR HAM_CURSOR_LAST
         else flags)
      else flags)"

text \<open>Lines 872 to 892: the movement that the flags ask for.\<close>

definition move_dispatch ::
  "env \<Rightarrow> ham_btree \<Rightarrow> bool \<Rightarrow> nat \<Rightarrow> ham_bt_cursor \<Rightarrow> ham_key option \<Rightarrow> ham_record option
     \<Rightarrow> ham_u32 \<Rightarrow> ham_db \<Rightarrow> (ham_status \<times> ham_key option \<times> ham_record option \<times> ham_db) option" where
  "move_dispatch env be local_txn c cu key record flags s1 =
     (if flags AND HAM_CURSOR_FIRST \<noteq> 0 then
        move_finish env local_txn c key record (my_move_first env be c flags s1)
      else if flags AND HAM_CURSOR_LAST \<noteq> 0 then
        move_finish env local_txn c key record (my_move_last env be c flags s1)
      else if flags AND HAM_CURSOR_NEXT \<noteq> 0 then
        move_finish env local_txn c key record (my_move_next env be c flags s1)
      else if flags AND HAM_CURSOR_PREVIOUS \<noteq> 0 then
        move_finish env local_txn c key record (my_move_previous env be c flags s1)
      else if bt_cursor_is_nil cu then
        Some (if key \<noteq> None \<or> record \<noteq> None then HAM_CURSOR_IS_NIL else HAM_SUCCESS,
              key, record, if local_txn then ham_txn_abort s1 else s1)
      else if c_flags cu AND BT_CURSOR_FLAG_UNCOUPLED \<noteq> 0 then
        move_finish env local_txn c key record (bt_cursor_couple env c s1)
      else move_finish env local_txn c key record (Some (HAM_SUCCESS, s1)))"

definition bt_cursor_move ::
  "env \<Rightarrow> nat \<Rightarrow> ham_key option \<Rightarrow> ham_record option \<Rightarrow> ham_u32 \<Rightarrow> ham_db
     \<Rightarrow> (ham_status \<times> ham_key option \<times> ham_record option \<times> ham_db) option" where
  "bt_cursor_move env c key record flags s =
     (let local_txn = \<not> db_txn s in
      case db_backend s of
        None \<Rightarrow> Some (HAM_NOT_INITIALIZED, key, record, s)
      | Some be \<Rightarrow>
          let (st0, s1) = (if local_txn then ham_txn_begin s else (HAM_SUCCESS, s)) in
          if st0 \<noteq> HAM_SUCCESS then Some (st0, key, record, s1)
          else
            (case cursors s1 c of
               None \<Rightarrow> None
             | Some cu \<Rightarrow>
                 move_dispatch env be local_txn c cu key record (nil_rewrite_flags cu flags) s1))"

definition bt_cursor_erase :: "env \<Rightarrow> nat \<Rightarrow> ham_u32 \<Rightarrow> ham_db \<Rightarrow> (ham_status \<times> ham_db) option" where
  "bt_cursor_erase env c flags s =
     (let local_txn = \<not> db_txn s in
      case db_backend s of
        None \<Rightarrow> Some (HAM_NOT_INITIALIZED, s)
      | Some be \<Rightarrow>
          let (st0, s1) = (if local_txn then ham_txn_begin s else (HAM_SUCCESS, s)) in
          if st0 \<noteq> HAM_SUCCESS then Some (st0, s1)
          else
            (case cursors s1 c of
               None \<Rightarrow> None
             | Some cu \<Rightarrow>
                 (case (if c_flags cu AND BT_CURSOR_FLAG_COUPLED \<noteq> 0 then bt_cursor_uncouple c 0 s1
                        else if c_flags cu AND BT_CURSOR_FLAG_UNCOUPLED = 0 then Some (HAM_CURSOR_IS_NIL, s1)
                        else Some (HAM_SUCCESS, s1)) of
                    None \<Rightarrow> None
                  | Some (st, s2) \<Rightarrow>
                      if st \<noteq> HAM_SUCCESS then Some (st, s2)
                      else
                        (case cursors s2 c of
                           None \<Rightarrow> None
                         | Some cu2 \<Rightarrow>
                             (case c_uncoupled_key cu2 of
                                None \<Rightarrow> None
                              | Some ukey \<Rightarrow>
                                  let (st1, s3) = btree_erase_cursor env s2 ukey c flags in
                                  if st1 \<noteq> HAM_SUCCESS then
                                    Some (st1, if local_txn then ham_txn_abort s3 else s3)
                                  else
                                    (case bt_cursor_set_to_nil c s3 of
                                       None \<Rightarrow> None
                                     | Some (st2, s4) \<Rightarrow>
                                         if st2 \<noteq> HAM_SUCCESS then Some (st2, s4)
                                         else if local_txn then Some (ham_txn_commit s4)
                                         else Some (HAM_SUCCESS, s4)))))))"

definition zero_cursor :: ham_bt_cursor where
  "zero_cursor = \<lparr>c_flags = 0, c_coupled_page = 0, c_coupled_index = 0, c_uncoupled_key = None,
                  c_dupe_id = 0, c_next = 0, c_previous = 0\<rparr>"

text \<open>
  \<^verbatim>\<open>bt_cursor_create\<close>: the new cursor is allocated at the address \<open>next_cursor\<close>, zeroed
  and put in front of the database's list of cursors.
\<close>

definition bt_cursor_create :: "ham_db \<Rightarrow> (ham_status \<times> nat \<times> ham_db) option" where
  "bt_cursor_create s =
     (let (ok, s1) = ham_mem_alloc s in
      if \<not> ok then Some (HAM_OUT_OF_MEMORY, 0, db_set_error HAM_OUT_OF_MEMORY s1)
      else
        let c = next_cursor s1;
            s2 = s1\<lparr>cursors := (cursors s1)(c \<mapsto> zero_cursor\<lparr>c_next := db_cursors s1\<rparr>),
                    next_cursor := Suc c\<rparr>
        in
        if db_cursors s2 \<noteq> 0 \<and> cursors s2 (db_cursors s2) = None then None
        else
          Some (HAM_SUCCESS, c,
                (if db_cursors s2 \<noteq> 0
                 then modify_cursor (db_cursors s2) (\<lambda>cu. cu\<lparr>c_previous := c\<rparr>) s2
                 else s2)\<lparr>db_cursors := c\<rparr>))"

text \<open>
  \<^verbatim>\<open>bt_cursor_close\<close>: the cursor is taken out of the database's list, set to NIL, and
  its memory is given back.
\<close>

definition bt_cursor_close :: "nat \<Rightarrow> ham_db \<Rightarrow> (ham_status \<times> ham_db) option" where
  "bt_cursor_close c s =
     (case cursors s c of
        None \<Rightarrow> None
      | Some cu \<Rightarrow>
          let p = c_previous cu;
              n = c_next cu
          in
          if p \<noteq> 0 \<and> cursors s p = None then None
          else
            let s1 = (if p \<noteq> 0 then modify_cursor p (\<lambda>cu. cu\<lparr>c_next := n\<rparr>) s
                      else s\<lparr>db_cursors := n\<rparr>)
            in
            if n \<noteq> 0 \<and> cursors s1 n = None then None
            else
              let s2 = (if n \<noteq> 0 then modify_cursor n (\<lambda>cu. cu\<lparr>c_previous := p\<rparr>) s1
                        else s1\<lparr>db_cursors := 0\<rparr>)
              in
              (case bt_cursor_set_to_nil c s2 of
                 None \<Rightarrow> None
               | Some (st, s3) \<Rightarrow> Some (HAM_SUCCESS, s3\<lparr>cursors := (cursors s3)(c := None)\<rparr>)))"

text \<open>
  The cursors that can be reached from \<open>c\<close> along the \<open>c_next\<close> links, in at most \<open>n\<close>
  steps.
\<close>

fun cursor_chain :: "ham_db \<Rightarrow> nat \<Rightarrow> nat \<Rightarrow> nat list" where
  "cursor_chain s 0 c = []"
| "cursor_chain s (Suc n) c =
     (if c = 0 then []
      else (case cursors s c of
              None \<Rightarrow> []
            | Some cu \<Rightarrow> c # cursor_chain s n (c_next cu)))"

section \<open>Notions used in the statements\<close>

text \<open>The comparator applied to a slot and the caller's key.\<close>

definition slot_cmp :: "env \<Rightarrow> int_key \<Rightarrow> ham_key \<Rightarrow> int \<times> ham_status" where
  "slot_cmp env e key =
     db_compare env (take (key_size e) (key_key e)) (take (ksize key) (kdata key))"

text \<open>
  The key is present in the node at slot \<open>j\<close>: slot \<open>j\<close> is in use and compares equal,
  and the slots before it compare less, as they do in a node whose keys are strictly
  ordered.
\<close>

definition key_found_at :: "env \<Rightarrow> btree_node \<Rightarrow> ham_key \<Rightarrow> nat \<Rightarrow> bool" where
  "key_found_at env n key j \<longleftrightarrow>
     j < node_count n \<and> node_count n \<le> length (node_entries n) \<and>
     slot_cmp env (node_entries n ! j) key = (0, HAM_SUCCESS) \<and>
     list_all (\<lambda>e. fst (slot_cmp env e key) < 0 \<and> snd (slot_cmp env e key) = HAM_SUCCESS)
       (take j (node_entries n))"

text \<open>The leaf that the recursion reaches from page \<open>p\<close> within \<open>n\<close> steps.\<close>

fun descend :: "env \<Rightarrow> ham_db \<Rightarrow> ham_key \<Rightarrow> nat \<Rightarrow> ham_offset \<Rightarrow> ham_offset option" where
  "descend env s key 0 p =
     (case pages s p of
        None \<Rightarrow> None
      | Some pg \<Rightarrow> if btree_node_is_leaf env (page_node pg) then Some p else None)"
| "descend env s key (Suc n) p =
     (case pages s p of
        None \<Rightarrow> None
      | Some pg \<Rightarrow>
          if btree_node_is_leaf env (page_node pg) then Some p
          else descend env s key n (btree_traverse_tree env s p key))"

text \<open>
  A cursor in one of its three modes: an uncoupled cursor owns a key and is not coupled,
  a coupled cursor points to a page that is there.
\<close>

definition cursor_wf :: "ham_db \<Rightarrow> nat \<Rightarrow> bool" where
  "cursor_wf s c =
     (case cursors s c of
        None \<Rightarrow> False
      | Some cu \<Rightarrow>
          if c_flags cu AND BT_CURSOR_FLAG_UNCOUPLED \<noteq> 0
          then c_uncoupled_key cu \<noteq> None \<and> c_flags cu AND BT_CURSOR_FLAG_COUPLED = 0
          else if c_flags cu AND BT_CURSOR_FLAG_COUPLED \<noteq> 0
          then pages s (c_coupled_page cu) \<noteq> None
          else True)"

section \<open>A small database used for concrete runs\<close>

text \<open>
  Keys are compared by the sum of their bytes (an order on one-byte keys), a node is a
  leaf when it has no left pointer, and a page has room for four slots.
\<close>

definition ex_env :: env where
  "ex_env =
     \<lparr>db_compare = (\<lambda>a b. (int (sum_list (map unat a)) - int (sum_list (map unat b)), HAM_SUCCESS)),
      btree_node_is_leaf = (\<lambda>n. node_ptr_left n = 0),
      btree_traverse_tree = (\<lambda>s p k. 0),
      blob_store_allocate = (\<lambda>c d n. (HAM_SUCCESS, 4096 + of_nat c)),
      page_slots = 4,
      btree_find_cursor = (\<lambda>s c k f. (HAM_KEY_NOT_FOUND, s)),
      btree_erase_cursor = (\<lambda>s k c f. (HAM_KEY_NOT_FOUND, s)),
      util_read_key = (\<lambda>s e k. (HAM_SUCCESS, \<lparr>kdata = key_key e, ksize = key_size e\<rparr>, s)),
      util_read_record = (\<lambda>s fl rid r. (HAM_SUCCESS, \<lparr>rdata = [], rsize = 0\<rparr>, s))\<rparr>"

definition ex_slot :: "nat \<Rightarrow> int_key" where
  "ex_slot k = \<lparr>key_ptr = 0, key_size = 1, key_flags = KEY_BLOB_SIZE_EMPTY, key_key = [of_nat k]\<rparr>"

definition ex_key :: "nat \<Rightarrow> ham_key" where
  "ex_key k = \<lparr>kdata = [of_nat k], ksize = 1\<rparr>"

definition ex_record :: ham_record where
  "ex_record = \<lparr>rdata = [7, 8], rsize = 2\<rparr>"

definition ex_leaf :: "int_key list \<Rightarrow> nat \<Rightarrow> ham_page" where
  "ex_leaf es n =
     \<lparr>page_type = PAGE_TYPE_ROOT, page_dirty = False,
      page_node = \<lparr>node_count = n, node_ptr_left = 0, node_left = 0, node_right = 0,
                   node_entries = es\<rparr>,
      page_cursors = []\<rparr>"

definition ex_db :: "ham_page \<Rightarrow> ham_db" where
  "ex_db root =
     \<lparr>pages = [1 \<mapsto> root], db_backend = Some \<lparr>rootpage = 1, maxkeys = 4\<rparr>,
      db_error = HAM_SUCCESS, db_dirty = False, free_pages = [2, 3],
      alloc_error = HAM_OUT_OF_MEMORY, fetch_error = HAM_IO_ERROR, alloc_budget = 5,
      db_txn = False, txn_log = [], txn_begin_status = HAM_SUCCESS,
      txn_commit_status = HAM_SUCCESS, blob_calls = 0, cursors = Map.empty, db_cursors = 0,
      next_cursor = 1\<rparr>"

text \<open>A root leaf with the keys 10 and 20 and two unused slots.\<close>

definition ex_db2 :: ham_db where
  "ex_db2 = ex_db (ex_leaf [ex_slot 10, ex_slot 20, zero_key, zero_key] 2)"

text \<open>A full root leaf with the keys 10, 20, 30 and 40.\<close>

definition ex_db4 :: ham_db where
  "ex_db4 = ex_db (ex_leaf [ex_slot 10, ex_slot 20, ex_slot 30, ex_slot 40] 4)"

text \<open>
  A full internal root: left pointer 5, and the keys 10, 20, 30 and 40 with the children
  6, 7, 8 and 9.
\<close>

definition ex_child_slot :: "nat \<Rightarrow> ham_offset \<Rightarrow> int_key" where
  "ex_child_slot k p = \<lparr>key_ptr = p, key_size = 1, key_flags = 0, key_key = [of_nat k]\<rparr>"

definition ex_internal :: ham_page where
  "ex_internal =
     \<lparr>page_type = PAGE_TYPE_ROOT, page_dirty = False,
      page_node = \<lparr>node_count = 4, node_ptr_left = 5, node_left = 0, node_right = 0,
                   node_entries = [ex_child_slot 10 6, ex_child_slot 20 7,
                                   ex_child_slot 30 8, ex_child_slot 40 9]\<rparr>,
      page_cursors = []\<rparr>"

definition ex_db_internal :: ham_db where
  "ex_db_internal = ex_db ex_internal"

definition ex_sp :: insert_scratchpad where
  "ex_sp = \<lparr>sp_flags = 0, sp_record = ex_record, sp_key = \<lparr>kdata = [], ksize = 0\<rparr>, sp_rid = 0\<rparr>"

text \<open>
  Three leaves in a row: page 1 (the keys 10 and 20) with its right neighbour page 3
  (the key 50), and page 2, which is not linked yet.
\<close>

definition ex_linked_leaf :: "int_key list \<Rightarrow> nat \<Rightarrow> ham_offset \<Rightarrow> ham_offset \<Rightarrow> ham_page" where
  "ex_linked_leaf es n l r =
     \<lparr>page_type = PAGE_TYPE_INDEX, page_dirty = False,
      page_node = \<lparr>node_count = n, node_ptr_left = 0, node_left = l, node_right = r,
                   node_entries = es\<rparr>,
      page_cursors = []\<rparr>"

definition ex_db_chain :: ham_db where
  "ex_db_chain =
     (ex_db (ex_linked_leaf [ex_slot 10, ex_slot 20, zero_key, zero_key] 2 0 3))
       \<lparr>pages := [1 \<mapsto> ex_linked_leaf [ex_slot 10, ex_slot 20, zero_key, zero_key] 2 0 3,
                  2 \<mapsto> ex_linked_leaf [ex_slot 30, ex_slot 40, zero_key, zero_key] 2 0 0,
                  3 \<mapsto> ex_linked_leaf [ex_slot 50, zero_key, zero_key, zero_key] 1 1 0],
        free_pages := []\<rparr>"

text \<open>The keys in the used slots of a page.\<close>

definition page_keys :: "ham_db \<Rightarrow> ham_offset \<Rightarrow> byte list list" where
  "page_keys s p =
     (case pages s p of
        None \<Rightarrow> []
      | Some pg \<Rightarrow> map key_key (take (node_count (page_node pg)) (node_entries (page_node pg))))"

text \<open>
  The database of the leaf 10, 20 with one cursor, NIL as \<^verbatim>\<open>bt_cursor_create\<close> leaves it,
  and with two cursors: cursor 1 was created first, cursor 2 after it.
\<close>

definition ex_one_cursor :: ham_db where
  "ex_one_cursor = ex_db2\<lparr>alloc_budget := 4, cursors := [1 \<mapsto> zero_cursor], db_cursors := 1, next_cursor := 2\<rparr>"

definition ex_two_cursors :: ham_db where
  "ex_two_cursors =
     ex_db2\<lparr>alloc_budget := 3,
            cursors := [2 \<mapsto> zero_cursor\<lparr>c_next := 1\<rparr>, 1 \<mapsto> zero_cursor\<lparr>c_previous := 2\<rparr>],
            db_cursors := 2, next_cursor := 3\<rparr>"

text \<open>A database whose root leaf is empty, and one without a root page, each with a NIL cursor.\<close>

definition ex_empty_root :: ham_db where
  "ex_empty_root =
     (ex_db (ex_leaf [zero_key, zero_key, zero_key, zero_key] 0))
       \<lparr>cursors := [1 \<mapsto> zero_cursor], db_cursors := 1, next_cursor := 2\<rparr>"

definition ex_no_root :: ham_db where
  "ex_no_root =
     (ex_db (ex_leaf [zero_key, zero_key, zero_key, zero_key] 0))
       \<lparr>pages := Map.empty, db_backend := Some \<lparr>rootpage = 0, maxkeys = 4\<rparr>,
        cursors := [1 \<mapsto> zero_cursor], db_cursors := 1, next_cursor := 2\<rparr>"

section \<open>Verified properties\<close>

subsection \<open>A key that is already present\<close>

lemma key_compare_ok:
  assumes "pages s page = Some pg" "i < length (node_entries (page_node pg))"
    "slot_cmp env (node_entries (page_node pg) ! i) key = (c, HAM_SUCCESS)"
  shows "key_compare_int_to_pub env page i key s = Some (c, s)"
  using assms by (simp add: key_compare_int_to_pub_def slot_cmp_def Let_def)

lemma nosplit_scan_found:
  assumes "pages s page = Some pg" "db_error s = HAM_SUCCESS"
    "key_found_at env (page_node pg) key j" "i \<le> j" "count = node_count (page_node pg)"
  shows "nosplit_scan env page key flags count i s =
           Some (Return (if flags AND OVERWRITE \<noteq> 0 then HAM_SUCCESS else HAM_DUPLICATE_KEY), s)"
  using assms
proof (induction "j - i" arbitrary: i)
  case 0
  then have ij: "i = j" by simp
  from 0 have lt: "j < count" "j < length (node_entries (page_node pg))"
    and eq: "slot_cmp env (node_entries (page_node pg) ! j) key = (0, HAM_SUCCESS)"
    by (auto simp: key_found_at_def)
  have "key_compare_int_to_pub env page j key s = Some (0, s)"
    using key_compare_ok[OF "0.prems"(1) lt(2) eq] .
  then show ?case using lt ij "0.prems"(2) by (subst nosplit_scan.simps) simp
next
  case (Suc d)
  then have ilt: "i < j" by simp
  from Suc.prems have jlt: "j < count" "count \<le> length (node_entries (page_node pg))"
    and less: "list_all (\<lambda>e. fst (slot_cmp env e key) < 0 \<and> snd (slot_cmp env e key) = HAM_SUCCESS)
       (take j (node_entries (page_node pg)))"
    by (auto simp: key_found_at_def)
  have ilen: "i < length (node_entries (page_node pg))" using ilt jlt by simp
  have "take j (node_entries (page_node pg)) ! i = node_entries (page_node pg) ! i"
    using ilt by simp
  moreover have "i < length (take j (node_entries (page_node pg)))" using ilt jlt by simp
  ultimately have c: "fst (slot_cmp env (node_entries (page_node pg) ! i) key) < 0"
      "snd (slot_cmp env (node_entries (page_node pg) ! i) key) = HAM_SUCCESS"
    using less by (auto simp: list_all_length)
  obtain cv where cv: "slot_cmp env (node_entries (page_node pg) ! i) key = (cv, HAM_SUCCESS)" "cv < 0"
    using c by (cases "slot_cmp env (node_entries (page_node pg) ! i) key") auto
  have kc: "key_compare_int_to_pub env page i key s = Some (cv, s)"
    using key_compare_ok[OF Suc.prems(1) ilen cv(1)] .
  have IH: "nosplit_scan env page key flags count (Suc i) s =
           Some (Return (if flags AND OVERWRITE \<noteq> 0 then HAM_SUCCESS else HAM_DUPLICATE_KEY), s)"
    using Suc.hyps(1)[of "Suc i"] Suc.hyps(2) Suc.prems ilt by simp
  have "i < count" using ilt jlt by simp
  then show ?case using kc cv(2) IH Suc.prems(2) by (subst nosplit_scan.simps) simp
qed

lemma my_insert_nosplit_found:
  assumes "pages s page = Some pg" "db_error s = HAM_SUCCESS"
    "key_found_at env (page_node pg) key j"
  shows "my_insert_nosplit env page key rid record flags s =
           Some (if flags AND OVERWRITE \<noteq> 0 then HAM_SUCCESS else HAM_DUPLICATE_KEY, s)"
  using nosplit_scan_found[OF assms, of 0 "node_count (page_node pg)" flags] assms(1)
  by (simp add: my_insert_nosplit_def)

lemma search_from_found:
  assumes "j < length es" "fst (slot_cmp env (es ! j) key) = 0"
  shows "0 \<le> search_from env es key i"
  using assms
proof (induction es arbitrary: i j)
  case Nil
  then show ?case by simp
next
  case (Cons e es)
  show ?case
  proof (cases j)
    case 0
    then show ?thesis using Cons.prems by (simp add: slot_cmp_def)
  next
    case (Suc k)
    then show ?thesis using Cons.prems Cons.IH[of k "Suc i"] by (simp add: slot_cmp_def)
  qed
qed

lemma my_insert_in_page_found:
  assumes "pages s page = Some pg" "db_error s = HAM_SUCCESS"
    "key_found_at env (page_node pg) key j" "db_backend s = Some be"
    "btree_node_is_leaf env (page_node pg)"
  shows "my_insert_in_page env page key rid flags sp s =
           Some (Status (if flags AND OVERWRITE \<noteq> 0 then HAM_SUCCESS else HAM_DUPLICATE_KEY), sp, s)"
proof -
  have ns: "my_insert_nosplit env page key rid (sp_record sp) flags s =
           Some (if flags AND OVERWRITE \<noteq> 0 then HAM_SUCCESS else HAM_DUPLICATE_KEY, s)"
    by (rule my_insert_nosplit_found[OF assms(1-3)])
  have j: "j < length (take (node_count (page_node pg)) (node_entries (page_node pg)))"
    "fst (slot_cmp env (take (node_count (page_node pg)) (node_entries (page_node pg)) ! j) key) = 0"
    using assms(3) by (auto simp: key_found_at_def)
  have sr: "btree_node_search_by_key env page key s =
      Some (search_from env (take (node_count (page_node pg)) (node_entries (page_node pg))) key 0)"
    using assms(1) by (simp add: btree_node_search_by_key_def)
  have ge: "0 \<le> search_from env (take (node_count (page_node pg)) (node_entries (page_node pg))) key 0"
    using search_from_found[OF j] .
  show ?thesis
    using assms(1,4,5) ns sr ge by (simp add: my_insert_in_page_def)
qed

lemma my_insert_recursive_duplicate:
  assumes "descend env s key n p = Some L" "pages s L = Some pg" "db_error s = HAM_SUCCESS"
    "key_found_at env (page_node pg) key j" "db_backend s = Some be"
  shows "my_insert_recursive env p key rid sp s = Some (Status HAM_DUPLICATE_KEY, sp, s)"
  using assms
proof (induction n arbitrary: p)
  case 0
  then obtain pg0 where p0: "pages s p = Some pg0" "btree_node_is_leaf env (page_node pg0)" "p = L"
    by (auto split: option.splits if_splits)
  then have "pg0 = pg" using 0 by simp
  then show ?case
    using my_insert_in_page_found[OF "0.prems"(2,3,4,5), of rid 0 sp] p0
    by (subst my_insert_recursive.simps) (simp add: OVERWRITE_def)
next
  case (Suc n)
  then obtain pg0 where p0: "pages s p = Some pg0" by (auto split: option.splits)
  show ?case
  proof (cases "btree_node_is_leaf env (page_node pg0)")
    case True
    then have "p = L" using Suc.prems p0 by simp
    then have "pg0 = pg" using Suc.prems p0 by simp
    then show ?thesis
      using my_insert_in_page_found[OF Suc.prems(2,3,4,5), of rid 0 sp] p0 True \<open>p = L\<close>
      by (subst my_insert_recursive.simps) (simp add: OVERWRITE_def)
  next
    case False
    then have d: "descend env s key n (btree_traverse_tree env s p key) = Some L"
      using Suc.prems p0 by simp
    have "my_insert_recursive env (btree_traverse_tree env s p key) key rid sp s =
        Some (Status HAM_DUPLICATE_KEY, sp, s)"
      using Suc.IH[OF d Suc.prems(2-5)] .
    then show ?thesis using p0 False
      by (subst my_insert_recursive.simps) simp
  qed
qed

lemma descend_leaf:
  assumes "descend env s key n p = Some L" "pages s L = Some pg"
  shows "btree_node_is_leaf env (page_node pg)"
  using assms
proof (induction n arbitrary: p)
  case 0
  then show ?case by (auto split: option.splits if_splits)
next
  case (Suc n)
  then show ?case by (auto split: option.splits if_splits)
qed

lemma ex_db2_found: "key_found_at ex_env (page_node (ex_leaf [ex_slot 10, ex_slot 20, zero_key, zero_key] 2)) (ex_key 20) 1"
  by (simp add: key_found_at_def ex_leaf_def ex_slot_def ex_key_def slot_cmp_def ex_env_def)




text \<open>
  C2. Inserting a key that the leaf reached by the descent already holds, without
  \<open>OVERWRITE\<close>, returns \<open>HAM_DUPLICATE_KEY\<close> and leaves the whole database state as it
  was: no page is allocated, no slot is moved or written, no page is marked dirty. The
  same holds at the leaf itself for \<^verbatim>\<open>my_insert_in_page\<close>, whether the leaf is full or not.
\<close>

theorem duplicate_key_leaves_tree_unchanged:
  assumes "db_backend s = Some be"
    and "descend env s key n (rootpage be) = Some L"
    and "pages s L = Some pg"
    and "key_found_at env (page_node pg) key j"
    and "db_error s = HAM_SUCCESS"
    and "flags AND OVERWRITE = 0"
  shows "btree_insert env key record flags s = Some (HAM_DUPLICATE_KEY, s) \<and>
         my_insert_in_page env L key rid flags sp s = Some (Status HAM_DUPLICATE_KEY, sp, s)"
proof -
  have leaf: "btree_node_is_leaf env (page_node pg)"
    using descend_leaf[OF assms(2,3)] .
  have "my_insert_recursive env (rootpage be) key 0
          \<lparr>sp_flags = flags, sp_record = record, sp_key = \<lparr>kdata = [], ksize = 0\<rparr>, sp_rid = 0\<rparr> s
        = Some (Status HAM_DUPLICATE_KEY,
                \<lparr>sp_flags = flags, sp_record = record, sp_key = \<lparr>kdata = [], ksize = 0\<rparr>, sp_rid = 0\<rparr>, s)"
    by (rule my_insert_recursive_duplicate[OF assms(2,3,5,4,1)])
  then have a: "btree_insert env key record flags s = Some (HAM_DUPLICATE_KEY, s)"
    using assms(1) by (simp add: btree_insert_def)
  have b: "my_insert_in_page env L key rid flags sp s = Some (Status HAM_DUPLICATE_KEY, sp, s)"
    using my_insert_in_page_found[OF assms(3,5,4,1) leaf, of rid flags sp] assms(6) by simp
  show ?thesis using a b by simp
qed

theorem duplicate_key_leaves_tree_unchanged_witness:
  "db_backend ex_db2 = Some \<lparr>rootpage = 1, maxkeys = 4\<rparr> \<and>
   descend ex_env ex_db2 (ex_key 20) 0 (rootpage \<lparr>rootpage = 1, maxkeys = 4\<rparr>) = Some 1 \<and>
   pages ex_db2 1 = Some (ex_leaf [ex_slot 10, ex_slot 20, zero_key, zero_key] 2) \<and>
   key_found_at ex_env (page_node (ex_leaf [ex_slot 10, ex_slot 20, zero_key, zero_key] 2)) (ex_key 20) 1 \<and>
   db_error ex_db2 = HAM_SUCCESS \<and> (0 :: ham_u32) AND OVERWRITE = 0 \<and>
   btree_insert ex_env (ex_key 20) ex_record 0 ex_db2 = Some (HAM_DUPLICATE_KEY, ex_db2) \<and>
   my_insert_in_page ex_env 1 (ex_key 20) 0 0
       \<lparr>sp_flags = 0, sp_record = ex_record, sp_key = ex_key 0, sp_rid = 0\<rparr> ex_db2
     = Some (Status HAM_DUPLICATE_KEY,
             \<lparr>sp_flags = 0, sp_record = ex_record, sp_key = ex_key 0, sp_rid = 0\<rparr>, ex_db2)"
proof -
  have h1: "db_backend ex_db2 = Some \<lparr>rootpage = 1, maxkeys = 4\<rparr>"
    by (simp add: ex_db2_def ex_db_def)
  have h3: "pages ex_db2 1 = Some (ex_leaf [ex_slot 10, ex_slot 20, zero_key, zero_key] 2)"
    by (simp add: ex_db2_def ex_db_def)
  have h2: "descend ex_env ex_db2 (ex_key 20) 0 (rootpage \<lparr>rootpage = 1, maxkeys = 4\<rparr>) = Some 1"
    using h3 by (simp add: ex_env_def ex_leaf_def)
  have h5: "db_error ex_db2 = HAM_SUCCESS"
    by (simp add: ex_db2_def ex_db_def)
  have h6: "(0 :: ham_u32) AND OVERWRITE = 0"
    by simp
  show ?thesis
    using duplicate_key_leaves_tree_unchanged[OF h1 h2 h3 ex_db2_found h5 h6,
            of ex_record 0 "\<lparr>sp_flags = 0, sp_record = ex_record, sp_key = ex_key 0, sp_rid = 0\<rparr>"]
          h1 h2 h3 ex_db2_found h5 h6
    by simp
qed

subsection \<open>What an insert leaves untouched, and what a split hands upwards\<close>

lemma backend_modify_page [simp]: "db_backend (modify_page p f s) = db_backend s"
  by (simp add: modify_page_def split: option.splits)

lemma backend_modify_node [simp]: "db_backend (modify_node p f s) = db_backend s"
  by (simp add: modify_node_def)

lemma backend_page_set_dirty [simp]: "db_backend (page_set_dirty p s) = db_backend s"
  by (simp add: page_set_dirty_def)

lemma backend_page_set_type [simp]: "db_backend (page_set_type p t s) = db_backend s"
  by (simp add: page_set_type_def)

lemma backend_db_set_error [simp]: "db_backend (db_set_error e s) = db_backend s"
  by (simp add: db_set_error_def)

lemma backend_key_compare:
  "key_compare_int_to_pub env page i key s = Some (c, s1) \<Longrightarrow> db_backend s1 = db_backend s"
  by (auto simp: key_compare_int_to_pub_def Let_def split: option.splits if_splits prod.splits)

lemma backend_nosplit_scan:
  "nosplit_scan env page key flags count i s = Some (r, s1) \<Longrightarrow> db_backend s1 = db_backend s"
proof (induction env page key flags count i s rule: nosplit_scan.induct)
  case (1 env page key flags count i s)
  show ?case
  proof (cases "i < count")
    case False
    then show ?thesis using "1.prems" by (subst (asm) nosplit_scan.simps) simp
  next
    case True
    then obtain cmp s0 where kc: "key_compare_int_to_pub env page i key s = Some (cmp, s0)"
      using "1.prems" by (subst (asm) nosplit_scan.simps) (auto split: option.splits)
    have b0: "db_backend s0 = db_backend s" using backend_key_compare[OF kc] .
    show ?thesis
    proof (cases "db_error s0 = HAM_SUCCESS \<and> cmp < 0")
      case True
      then have "nosplit_scan env page key flags count (Suc i) s0 = Some (r, s1)"
        using "1.prems" kc \<open>i < count\<close> by (subst (asm) nosplit_scan.simps) simp
      then show ?thesis using "1.IH"[OF \<open>i < count\<close> kc refl] True b0 by simp
    next
      case False
      then show ?thesis using "1.prems" kc \<open>i < count\<close> b0
        by (subst (asm) nosplit_scan.simps) (auto split: option.splits if_splits)
    qed
  qed
qed

lemma backend_blob_allocate:
  "blob_allocate env d n rid s = (st, r, s1) \<Longrightarrow> db_backend s1 = db_backend s"
  by (cases "blob_store_allocate env (blob_calls s) (take n d) n") (auto simp: blob_allocate_def)

lemma backend_nosplit_write:
  assumes "nosplit_write env page key rid record count i s = Some (st, s1)"
  shows "db_backend s1 = db_backend s"
proof -
  obtain pg1 where pg1: "pages s page = Some pg1"
    using assms by (cases "pages s page") (simp_all add: nosplit_write_def)
  show ?thesis
  proof (cases "btree_node_is_leaf env (page_node pg1) \<and> 8 < rsize record")
    case True
    obtain st2 rid1 s2 where bl: "blob_allocate env (rdata record) (rsize record) rid s = (st2, rid1, s2)"
      using prod_cases3 by blast
    have b2: "db_backend s2 = db_backend s" using backend_blob_allocate[OF bl] .
    show ?thesis
    proof (cases "st2 = HAM_SUCCESS")
      case False
      then show ?thesis using assms pg1 bl b2 True by (simp add: nosplit_write_def)
    next
      case st: True
      obtain pg2 where pg2: "pages s2 page = Some pg2"
        using assms pg1 bl True st by (cases "pages s2 page") (simp_all add: nosplit_write_def)
      show ?thesis using assms pg1 bl b2 True st pg2
        by (simp add: nosplit_write_def split: if_splits prod.splits) auto
    qed
  next
    case False
    show ?thesis using assms pg1 False
      by (simp add: nosplit_write_def split: if_splits prod.splits) auto
  qed
qed

lemma backend_my_insert_nosplit:
  assumes "my_insert_nosplit env page key rid record flags s = Some (st, s1)"
  shows "db_backend s1 = db_backend s"
proof -
  obtain pg where pg: "pages s page = Some pg"
    using assms by (auto simp: my_insert_nosplit_def split: option.splits)
  obtain r s0 where sc: "nosplit_scan env page key flags (node_count (page_node pg)) 0 s = Some (r, s0)"
    using assms pg by (auto simp: my_insert_nosplit_def Let_def split: option.splits)
  have b0: "db_backend s0 = db_backend s" using backend_nosplit_scan[OF sc] .
  show ?thesis
  proof (cases r)
    case (Return x)
    then show ?thesis using assms pg sc b0 by (simp add: my_insert_nosplit_def)
  next
    case (Slot i)
    then have "nosplit_write env page key rid record (node_count (page_node pg)) i s0 = Some (st, s1)"
      using assms pg sc by (simp add: my_insert_nosplit_def)
    then show ?thesis using backend_nosplit_write b0 by metis
  qed
qed

lemma backend_db_alloc_page:
  "db_alloc_page env t s = (r, s1) \<Longrightarrow> db_backend s1 = db_backend s"
  by (auto simp: db_alloc_page_def split: list.splits)

lemma backend_db_fetch_page:
  "db_fetch_page p s = (r, s1) \<Longrightarrow> db_backend s1 = db_backend s"
  by (auto simp: db_fetch_page_def split: option.splits if_splits)

lemma backend_util_copy_key:
  "util_copy_key k s = (r, s1) \<Longrightarrow> db_backend s1 = db_backend s"
  by (auto simp: util_copy_key_def split: if_splits)

lemma backend_db_free_page [simp]: "db_backend (db_free_page p s) = db_backend s"
  by (simp add: db_free_page_def)

lemma backend_split_copy_keys:
  "split_copy_keys env page newpage s = Some s1 \<Longrightarrow> db_backend s1 = db_backend s"
  by (auto simp: split_copy_keys_def Let_def split: option.splits if_splits)

lemma backend_split_adjust:
  "split_adjust env page newpage count pivot s = Some s1 \<Longrightarrow> db_backend s1 = db_backend s"
  by (auto simp: split_adjust_def Let_def split: option.splits if_splits)

lemma last_write_states: "last (s # write_states s ws) = foldl apply_write s ws"
  by (induction ws arbitrary: s) simp_all

lemma split_fix_siblings_fold:
  "split_fix_siblings page newpage s =
     (case pages s page of
        None \<Rightarrow> None
      | Some opg \<Rightarrow>
          let oldright = node_right (page_node opg);
              (oldsib, s1) = (if oldright \<noteq> 0 then db_fetch_page oldright s else (None, s))
          in Some (foldl apply_write s1 (sibling_writes page newpage oldright oldsib)))"
  by (simp add: split_fix_siblings_def split_fix_siblings_states_def Let_def last_write_states
           split: option.splits prod.splits del: last.simps)

lemma backend_apply_writes: "db_backend (foldl apply_write s ws) = db_backend s"
proof (induction ws arbitrary: s)
  case Nil
  then show ?case by simp
next
  case (Cons w ws)
  then show ?case by (cases w) simp_all
qed

lemma backend_split_fix_siblings:
  "split_fix_siblings page newpage s = Some s1 \<Longrightarrow> db_backend s1 = db_backend s"
  by (auto simp: split_fix_siblings_fold Let_def backend_apply_writes
           split: option.splits if_splits prod.splits dest: backend_db_fetch_page)

lemma backend_my_insert_split:
  assumes "my_insert_split env page key rid flags sp s = Some (st, sp1, s1)"
  shows "db_backend s1 = db_backend s"
  using assms unfolding my_insert_split_def Let_def
  by (auto split: option.splits if_splits prod.splits
           dest!: backend_db_alloc_page backend_split_copy_keys backend_util_copy_key
                  backend_split_adjust backend_key_compare backend_my_insert_nosplit
                  backend_split_fix_siblings)

lemma backend_my_insert_in_page:
  assumes "my_insert_in_page env page key rid flags sp s = Some (st, sp1, s1)"
  shows "db_backend s1 = db_backend s"
  using assms unfolding my_insert_in_page_def
  by (auto split: option.splits if_splits dest!: backend_my_insert_nosplit backend_my_insert_split)

lemma backend_my_insert_recursive:
  assumes "my_insert_recursive env page key rid sp s = Some r"
  shows "db_backend (snd (snd r)) = db_backend s"
proof (rule my_insert_recursive.raw_induct
          [where P = "\<lambda>env page key rid sp s r. db_backend (snd (snd r)) = db_backend s", OF _ assms],
       goal_cases)
  case (1 rec env page key rid sp s r)
  note IH = 1(1) and prems = 1(2)
  obtain pg where pg: "pages s page = Some pg"
    using prems by (cases "pages s page") simp_all
  show ?case
  proof (cases "btree_node_is_leaf env (page_node pg)")
    case True
    then have "my_insert_in_page env page key rid 0 sp s = Some r" using prems pg by simp
    then show ?thesis using backend_my_insert_in_page[of env page key rid 0 sp s "fst r" "fst (snd r)" "snd (snd r)"]
      by simp
  next
    case False
    then obtain st0 sp0 s0 where
      c: "rec env (btree_traverse_tree env s page key) key rid sp s = Some (st0, sp0, s0)"
      using prems pg by (auto simp: bind_eq_Some_conv)
    have b0: "db_backend s0 = db_backend s" using IH[OF c] by simp
    show ?thesis
    proof (cases "st0 = SPLIT")
      case True
      then have "my_insert_in_page env page (sp_key sp0) (sp_rid sp0) OVERWRITE sp0 s0 = Some r"
        using prems pg False c by simp
      then show ?thesis
        using backend_my_insert_in_page[of env page "sp_key sp0" "sp_rid sp0" OVERWRITE sp0 s0
                 "fst r" "fst (snd r)" "snd (snd r)"] b0
        by simp
    next
      case ns: False
      then obtain e where e: "st0 = Status e" by (cases st0) auto
      show ?thesis using prems pg False c e b0 by (cases e) auto
    qed
  qed
qed

lemma pages_modify_page:
  "pages (modify_page p f s) q = (if q = p then map_option f (pages s p) else pages s q)"
  by (simp add: modify_page_def split: option.splits)

lemma pages_modify_node:
  "pages (modify_node p f s) q =
     (if q = p then map_option (\<lambda>pg. pg\<lparr>page_node := f (page_node pg)\<rparr>) (pages s p) else pages s q)"
  by (simp add: modify_node_def pages_modify_page)

lemma pages_page_set_dirty:
  "pages (page_set_dirty p s) q =
     (if q = p then map_option (\<lambda>pg. pg\<lparr>page_dirty := True\<rparr>) (pages s p) else pages s q)"
  by (simp add: page_set_dirty_def pages_modify_page)

lemma pages_page_set_type:
  "pages (page_set_type p t s) q =
     (if q = p then map_option (\<lambda>pg. pg\<lparr>page_type := t\<rparr>) (pages s p) else pages s q)"
  by (simp add: page_set_type_def pages_modify_page)

lemma pages_db_fetch_page: "db_fetch_page p s = (r, s1) \<Longrightarrow> pages s1 = pages s"
  by (auto simp: db_fetch_page_def db_set_error_def split: option.splits if_splits)

lemma fix_siblings_right:
  assumes "split_fix_siblings page newpage s = Some s1"
  shows "\<exists>pg. pages s1 page = Some pg \<and> node_right (page_node pg) = newpage"
proof -
  obtain opg where opg: "pages s page = Some opg"
    using assms by (cases "pages s page") (simp_all add: split_fix_siblings_fold)
  obtain oldsib s0 where f: "(if node_right (page_node opg) \<noteq> 0 then db_fetch_page (node_right (page_node opg)) s
                            else (None, s)) = (oldsib, s0)"
    using prod.exhaust by blast
  have p0: "pages s0 = pages s" using f pages_db_fetch_page by (auto split: if_splits)
  have s1: "s1 = foldl apply_write s0 (sibling_writes page newpage (node_right (page_node opg)) oldsib)"
    using assms opg f by (simp add: split_fix_siblings_fold)
  show ?thesis
    unfolding s1 using opg p0
    by (cases oldsib)
       (auto simp add: sibling_writes_def pages_modify_node pages_page_set_dirty)
qed

lemma split_result_right_sibling:
  assumes "my_insert_split env page key rid flags sp s = Some (SPLIT, sp1, s1)"
  shows "\<exists>pg. pages s1 page = Some pg \<and> node_right (page_node pg) = sp_rid sp1"
  using assms unfolding my_insert_split_def Let_def
  by (auto split: option.splits if_splits prod.splits dest!: fix_siblings_right)

lemma in_page_split_result:
  assumes "my_insert_in_page env page key rid flags sp s = Some (SPLIT, sp1, s1)"
  shows "\<exists>pg. pages s1 page = Some pg \<and> node_right (page_node pg) = sp_rid sp1"
  using assms unfolding my_insert_in_page_def
  by (auto split: option.splits if_splits dest!: split_result_right_sibling)

lemma recursive_split_result:
  assumes "my_insert_recursive env page key rid sp s = Some (SPLIT, sp1, s1)"
  shows "\<exists>pg. pages s1 page = Some pg \<and> node_right (page_node pg) = sp_rid sp1"
proof -
  obtain pg where pg: "pages s page = Some pg"
    using assms by (subst (asm) my_insert_recursive.simps) (cases "pages s page", simp_all)
  show ?thesis
  proof (cases "btree_node_is_leaf env (page_node pg)")
    case True
    then have "my_insert_in_page env page key rid 0 sp s = Some (SPLIT, sp1, s1)"
      using assms pg by (subst (asm) my_insert_recursive.simps) simp
    then show ?thesis by (rule in_page_split_result)
  next
    case False
    then obtain st0 sp0 s0 where
      c: "my_insert_recursive env (btree_traverse_tree env s page key) key rid sp s = Some (st0, sp0, s0)"
      using assms pg by (subst (asm) my_insert_recursive.simps) (auto simp: bind_eq_Some_conv)
    show ?thesis
    proof (cases "st0 = SPLIT")
      case True
      then have "my_insert_in_page env page (sp_key sp0) (sp_rid sp0) OVERWRITE sp0 s0 = Some (SPLIT, sp1, s1)"
        using assms pg False c by (subst (asm) my_insert_recursive.simps) simp
      then show ?thesis by (rule in_page_split_result)
    next
      case ns: False
      then obtain e where e: "st0 = Status e" by (cases st0) auto
      have "False" using assms pg False c e
        by (subst (asm) my_insert_recursive.simps) (cases e, auto)
      then show ?thesis ..
    qed
  qed
qed

lemma db_dirty_modify_page [simp]: "db_dirty (modify_page p f s) = db_dirty s"
  by (simp add: modify_page_def split: option.splits)

lemma db_dirty_page_set_type [simp]: "db_dirty (page_set_type p t s) = db_dirty s"
  by (simp add: page_set_type_def)

lemma nosplit_empty_internal:
  assumes pg: "pages s page = Some pg"
    and cnt: "node_count (page_node pg) = 0"
    and internal: "\<not> btree_node_is_leaf env (page_node pg)"
    and room: "0 < length (node_entries (page_node pg))"
  shows "my_insert_nosplit env page key rid record flags s =
           Some (HAM_SUCCESS,
                 s\<lparr>pages := (pages s)(page \<mapsto>
                      pg\<lparr>page_dirty := True,
                         page_node := (page_node pg)
                           \<lparr>node_entries := (node_entries (page_node pg))
                               [0 := \<lparr>key_ptr = rid, key_size = ksize key, key_flags = 0,
                                      key_key = take (ksize key) (kdata key)\<rparr>],
                            node_count := 1\<rparr>\<rparr>)\<rparr>)"
proof -
  have sc: "nosplit_scan env page key flags 0 0 s = Some (Slot 0, s)"
    by (subst nosplit_scan.simps) simp
  have w: "nosplit_write env page key rid record 0 0 s =
           Some (HAM_SUCCESS,
                 s\<lparr>pages := (pages s)(page \<mapsto>
                      pg\<lparr>page_dirty := True,
                         page_node := (page_node pg)
                           \<lparr>node_entries := (node_entries (page_node pg))
                               [0 := \<lparr>key_ptr = rid, key_size = ksize key, key_flags = 0,
                                      key_key = take (ksize key) (kdata key)\<rparr>],
                            node_count := 1\<rparr>\<rparr>)\<rparr>)"
    using pg internal room
    by (simp add: nosplit_write_def record_to_slot_def modify_node_def modify_page_def page_set_dirty_def)
  show ?thesis using pg cnt sc w by (simp add: my_insert_nosplit_def)
qed

text \<open>
  C3. When the recursion reports a split of the root and a page can be had for the new
  root, \<^verbatim>\<open>btree_insert\<close> returns success and: the new root has the old root's address
  as its left pointer and, in slot 0, the pivot key of the scratchpad with the address of
  the new sibling (the right neighbour of the old root) as its pointer; the backend's
  root address is the new page and the database is marked dirty; the old root is still
  in the page store, with nothing changed but its type, now an index page.
\<close>

theorem root_split_creates_new_root:
  assumes be: "db_backend s = Some be"
    and rec: "my_insert_recursive env (rootpage be) key 0
                \<lparr>sp_flags = flags, sp_record = record, sp_key = \<lparr>kdata = [], ksize = 0\<rparr>, sp_rid = 0\<rparr> s
              = Some (SPLIT, sp1, s1)"
    and free: "free_pages s1 = newroot # rest"
    and fresh: "pages s1 newroot = None"
    and internal: "\<not> btree_node_is_leaf env
                      ((page_node (fresh_page env PAGE_TYPE_ROOT))\<lparr>node_ptr_left := rootpage be\<rparr>)"
    and room: "0 < page_slots env"
  shows "\<exists>s' oldpg.
           btree_insert env key record flags s = Some (HAM_SUCCESS, s') \<and>
           db_backend s' = Some (be\<lparr>rootpage := newroot\<rparr>) \<and>
           db_dirty s' \<and>
           pages s' newroot =
             Some \<lparr>page_type = PAGE_TYPE_ROOT, page_dirty = True,
                   page_node =
                     \<lparr>node_count = 1, node_ptr_left = rootpage be, node_left = 0, node_right = 0,
                      node_entries = (replicate (page_slots env) zero_key)
                         [0 := \<lparr>key_ptr = sp_rid sp1, key_size = ksize (sp_key sp1), key_flags = 0,
                                key_key = take (ksize (sp_key sp1)) (kdata (sp_key sp1))\<rparr>]\<rparr>,
                   page_cursors = []\<rparr> \<and>
           pages s1 (rootpage be) = Some oldpg \<and>
           node_right (page_node oldpg) = sp_rid sp1 \<and>
           pages s' (rootpage be) = Some (oldpg\<lparr>page_type := PAGE_TYPE_INDEX\<rparr>)"
proof -
  have be1: "db_backend s1 = Some be"
    using backend_my_insert_recursive[OF rec] be by simp
  obtain oldpg where old: "pages s1 (rootpage be) = Some oldpg"
      "node_right (page_node oldpg) = sp_rid sp1"
    using recursive_split_result[OF rec] by blast
  have ne: "newroot \<noteq> rootpage be" using old fresh by auto
  define s2 where "s2 = s1\<lparr>pages := (pages s1)(newroot \<mapsto> fresh_page env PAGE_TYPE_ROOT), free_pages := rest\<rparr>"
  have al: "db_alloc_page env PAGE_TYPE_ROOT s1 = (Some newroot, s2)"
    using free by (simp add: db_alloc_page_def s2_def)
  define s4 where "s4 = modify_node newroot (\<lambda>n. n\<lparr>node_ptr_left := rootpage be\<rparr>)
                           (page_set_type newroot PAGE_TYPE_ROOT s2)"
  define pg4 where "pg4 = (fresh_page env PAGE_TYPE_ROOT)
                       \<lparr>page_node := (page_node (fresh_page env PAGE_TYPE_ROOT))\<lparr>node_ptr_left := rootpage be\<rparr>\<rparr>"
  have p4: "pages s4 newroot = Some pg4"
    by (simp add: s4_def s2_def pg4_def pages_modify_node pages_page_set_type fresh_page_def)
  have p4o: "pages s4 (rootpage be) = Some oldpg"
    using ne old by (simp add: s4_def s2_def pages_modify_node pages_page_set_type)
  have b4: "db_backend s4 = Some be" "db_backend s2 = Some be"
    using be1 by (simp_all add: s4_def s2_def)
  have c4: "node_count (page_node pg4) = 0" by (simp add: pg4_def fresh_page_def)
  have i4: "\<not> btree_node_is_leaf env (page_node pg4)" using internal by (simp add: pg4_def)
  have r4: "0 < length (node_entries (page_node pg4))" using room by (simp add: pg4_def fresh_page_def)
  note ns = nosplit_empty_internal[OF p4 c4 i4 r4, of "sp_key sp1" "sp_rid sp1" "sp_record sp1" NOFLUSH]
  show ?thesis
    using be rec al b4 ns p4o ne old
    by (simp add: btree_insert_def s4_def[symmetric] btree_set_rootpage_def pages_page_set_type
          pg4_def fresh_page_def Let_def)
qed

lemmas run_defs =
  ex_db4_def ex_db2_def ex_db_def ex_leaf_def ex_env_def ex_slot_def ex_key_def ex_record_def
  my_insert_in_page_def btree_node_search_by_key_def my_insert_split_def db_alloc_page_def
  split_copy_keys_def fresh_page_def zero_key_def util_copy_key_def split_adjust_def
  key_compare_int_to_pub_def my_insert_nosplit_def nosplit_scan.simps nosplit_write_def
  record_to_slot_def split_fix_siblings_fold sibling_writes_def modify_node_def modify_page_def
  page_set_dirty_def memmove_keys_def KEY_BLOB_SIZE_EMPTY_def KEY_BLOB_SIZE_TINY_def Let_def
  NOFLUSH_def OVERWRITE_def db_set_error_def db_fetch_page_def ex_sp_def

lemma ex_db4_root_split:
  "\<exists>sp1 s1. my_insert_recursive ex_env 1 (ex_key 25) 0
        \<lparr>sp_flags = 0, sp_record = ex_record, sp_key = \<lparr>kdata = [], ksize = 0\<rparr>, sp_rid = 0\<rparr> ex_db4
      = Some (SPLIT, sp1, s1) \<and> free_pages s1 = [3] \<and> pages s1 3 = None"
  by (subst my_insert_recursive.simps) (simp add: run_defs)

theorem root_split_creates_new_root_witness:
  "\<exists>sp1 s1 s' oldpg.
     db_backend ex_db4 = Some \<lparr>rootpage = 1, maxkeys = 4\<rparr> \<and>
     my_insert_recursive ex_env (rootpage \<lparr>rootpage = 1, maxkeys = 4\<rparr>) (ex_key 25) 0
        \<lparr>sp_flags = 0, sp_record = ex_record, sp_key = \<lparr>kdata = [], ksize = 0\<rparr>, sp_rid = 0\<rparr> ex_db4
       = Some (SPLIT, sp1, s1) \<and>
     free_pages s1 = 3 # [] \<and>
     pages s1 3 = None \<and>
     \<not> btree_node_is_leaf ex_env
          ((page_node (fresh_page ex_env PAGE_TYPE_ROOT))
             \<lparr>node_ptr_left := rootpage \<lparr>rootpage = 1, maxkeys = 4\<rparr>\<rparr>) \<and>
     0 < page_slots ex_env \<and>
     btree_insert ex_env (ex_key 25) ex_record 0 ex_db4 = Some (HAM_SUCCESS, s') \<and>
     db_backend s' = Some \<lparr>rootpage = 3, maxkeys = 4\<rparr> \<and>
     db_dirty s' \<and>
     map_option page_type (pages s' 3) = Some PAGE_TYPE_ROOT \<and>
     map_option (node_ptr_left \<circ> page_node) (pages s' 3) = Some 1 \<and>
     pages s1 1 = Some oldpg \<and>
     node_right (page_node oldpg) = sp_rid sp1 \<and>
     pages s' 1 = Some (oldpg\<lparr>page_type := PAGE_TYPE_INDEX\<rparr>)"
proof -
  obtain sp1 s1 where r:
    "my_insert_recursive ex_env 1 (ex_key 25) 0
        \<lparr>sp_flags = 0, sp_record = ex_record, sp_key = \<lparr>kdata = [], ksize = 0\<rparr>, sp_rid = 0\<rparr> ex_db4
      = Some (SPLIT, sp1, s1)" "free_pages s1 = [3]" "pages s1 3 = None"
    using ex_db4_root_split by blast
  have h1: "db_backend ex_db4 = Some \<lparr>rootpage = 1, maxkeys = 4\<rparr>"
    by (simp add: ex_db4_def ex_db_def)
  have h2: "my_insert_recursive ex_env (rootpage \<lparr>rootpage = 1, maxkeys = 4\<rparr>) (ex_key 25) 0
        \<lparr>sp_flags = 0, sp_record = ex_record, sp_key = \<lparr>kdata = [], ksize = 0\<rparr>, sp_rid = 0\<rparr> ex_db4
      = Some (SPLIT, sp1, s1)"
    using r(1) by simp
  have h5: "\<not> btree_node_is_leaf ex_env
          ((page_node (fresh_page ex_env PAGE_TYPE_ROOT))
             \<lparr>node_ptr_left := rootpage \<lparr>rootpage = 1, maxkeys = 4\<rparr>\<rparr>)"
    by (simp add: ex_env_def)
  have h6: "0 < page_slots ex_env" by (simp add: ex_env_def)
  from root_split_creates_new_root[OF h1 h2 r(2) r(3) h5 h6]
  obtain s' oldpg where c:
    "btree_insert ex_env (ex_key 25) ex_record 0 ex_db4 = Some (HAM_SUCCESS, s')"
    "db_backend s' = Some (\<lparr>rootpage = 1, maxkeys = 4\<rparr>\<lparr>rootpage := 3\<rparr>)"
    "db_dirty s'"
    "pages s' 3 =
       Some \<lparr>page_type = PAGE_TYPE_ROOT, page_dirty = True,
             page_node =
               \<lparr>node_count = 1, node_ptr_left = rootpage \<lparr>rootpage = 1, maxkeys = 4\<rparr>,
                node_left = 0, node_right = 0,
                node_entries = (replicate (page_slots ex_env) zero_key)
                   [0 := \<lparr>key_ptr = sp_rid sp1, key_size = ksize (sp_key sp1), key_flags = 0,
                          key_key = take (ksize (sp_key sp1)) (kdata (sp_key sp1))\<rparr>]\<rparr>,
             page_cursors = []\<rparr>"
    "pages s1 (rootpage \<lparr>rootpage = 1, maxkeys = 4\<rparr>) = Some oldpg"
    "node_right (page_node oldpg) = sp_rid sp1"
    "pages s' (rootpage \<lparr>rootpage = 1, maxkeys = 4\<rparr>) = Some (oldpg\<lparr>page_type := PAGE_TYPE_INDEX\<rparr>)"
    by blast
  show ?thesis
    using h1 h2 r(2,3) h5 h6 c by (intro exI[of _ sp1] exI[of _ s1] exI[of _ s'] exI[of _ oldpg]) simp
qed

subsection \<open>The steps of a split\<close>

lemma key_compare_state:
  assumes "key_compare_int_to_pub env page i key s = Some (cmp, s1)" "db_error s1 = HAM_SUCCESS"
    "pages s page = Some pg"
  shows "cmp = fst (slot_cmp env (node_entries (page_node pg) ! i) key)"
  using assms
  by (auto simp: key_compare_int_to_pub_def slot_cmp_def Let_def db_set_error_def
           split: if_splits prod.splits)

lemma my_insert_split_SPLIT:
  assumes "my_insert_split env page key rid flags sp s = Some (SPLIT, sp1, s1)"
  obtains newpage sa s2 opg pivotkey s3 s4 cmp s5 s6 where
    "db_alloc_page env PAGE_TYPE_INDEX s = (Some newpage, sa)"
    "split_copy_keys env page newpage sa = Some s2"
    "pages s2 page = Some opg"
    "node_count (page_node opg) div 2 < length (node_entries (page_node opg))"
    "util_copy_key
       \<lparr>kdata = key_key (node_entries (page_node opg) ! (node_count (page_node opg) div 2)),
        ksize = key_size (node_entries (page_node opg) ! (node_count (page_node opg) div 2))\<rparr> s2
     = (Some pivotkey, s3)"
    "split_adjust env page newpage (node_count (page_node opg)) (node_count (page_node opg) div 2) s3
     = Some s4"
    "key_compare_int_to_pub env page (node_count (page_node opg) div 2) key s4 = Some (cmp, s5)"
    "db_error s5 = HAM_SUCCESS"
    "my_insert_nosplit env (if cmp \<le> 0 then newpage else page) key rid (sp_record sp)
       (flags OR NOFLUSH) s5 = Some (HAM_SUCCESS, s6)"
    "split_fix_siblings page newpage s6 = Some s1"
    "sp1 = sp\<lparr>sp_key := pivotkey, sp_rid := newpage\<rparr>"
proof -
  obtain r sa where al: "db_alloc_page env PAGE_TYPE_INDEX s = (r, sa)" by (cases "db_alloc_page env PAGE_TYPE_INDEX s")
  obtain newpage where r: "r = Some newpage"
    using assms al by (cases r) (simp_all add: my_insert_split_def)
  obtain s2 where s2: "split_copy_keys env page newpage sa = Some s2"
    using assms al r by (cases "split_copy_keys env page newpage sa") (simp_all add: my_insert_split_def)
  obtain opg where opg: "pages s2 page = Some opg"
    using assms al r s2 by (cases "pages s2 page") (simp_all add: my_insert_split_def)
  let ?count = "node_count (page_node opg)"
  let ?pivot = "?count div 2"
  have len: "?pivot < length (node_entries (page_node opg))"
    using assms al r s2 opg by (simp add: my_insert_split_def Let_def split: if_splits)
  let ?oldkey = "\<lparr>kdata = key_key (node_entries (page_node opg) ! ?pivot),
                  ksize = key_size (node_entries (page_node opg) ! ?pivot)\<rparr>"
  obtain pk s3 where uc: "util_copy_key ?oldkey s2 = (pk, s3)" by (cases "util_copy_key ?oldkey s2")
  obtain pivotkey where pk: "pk = Some pivotkey"
    using assms al r s2 opg len uc by (cases pk) (simp_all add: my_insert_split_def Let_def)
  obtain s4 where s4: "split_adjust env page newpage ?count ?pivot s3 = Some s4"
    using assms al r s2 opg len uc pk
    by (cases "split_adjust env page newpage ?count ?pivot s3") (simp_all add: my_insert_split_def Let_def)
  obtain cmp s5 where kc: "key_compare_int_to_pub env page ?pivot key s4 = Some (cmp, s5)"
    using assms al r s2 opg len uc pk s4
    by (cases "key_compare_int_to_pub env page ?pivot key s4") (auto simp add: my_insert_split_def Let_def)
  have e5: "db_error s5 = HAM_SUCCESS"
    using assms al r s2 opg len uc pk s4 kc
    by (simp add: my_insert_split_def Let_def split: if_splits)
  let ?ns = "my_insert_nosplit env (if cmp \<le> 0 then newpage else page) key rid (sp_record sp)
       (flags OR NOFLUSH) s5"
  have red: "(case ?ns of None \<Rightarrow> None
             | Some (st, s6) \<Rightarrow>
                 if st \<noteq> HAM_SUCCESS then Some (Status st, sp, s6)
                 else (case split_fix_siblings page newpage s6 of None \<Rightarrow> None
                       | Some s7 \<Rightarrow> Some (SPLIT, sp\<lparr>sp_key := pivotkey, sp_rid := newpage\<rparr>, s7)))
             = Some (SPLIT, sp1, s1)"
    using assms al r s2 opg len uc pk s4 kc e5
    by (simp add: my_insert_split_def Let_def if_distrib[of "\<lambda>x. case_option _ _ x"] split: if_splits)
  obtain st s6 where ns: "?ns = Some (st, s6)"
    using red by (cases ?ns) auto
  have st: "st = HAM_SUCCESS" using red ns by (simp split: if_splits)
  obtain s7 where fx: "split_fix_siblings page newpage s6 = Some s7"
    using red ns st by (cases "split_fix_siblings page newpage s6") simp_all
  have fin: "s7 = s1" "sp1 = sp\<lparr>sp_key := pivotkey, sp_rid := newpage\<rparr>"
    using red ns st fx by simp_all
  show ?thesis
    using that[OF al[unfolded r] s2 opg len uc[unfolded pk] s4 kc e5 ns[unfolded st] fx[unfolded fin(1)] fin(2)] .
qed

lemma key_compare_same_state:
  assumes "key_compare_int_to_pub env page i key s = Some (cmp, s1)" "db_error s1 = HAM_SUCCESS"
  shows "s1 = s"
  using assms
  by (auto simp: key_compare_int_to_pub_def Let_def db_set_error_def
           split: option.splits if_splits prod.splits)

lemma split_structure:
  assumes split: "my_insert_split env page key rid flags sp s = Some (SPLIT, sp1, s1)"
    and pg: "pages s page = Some opg"
    and free: "free_pages s = newpage # rest"
    and fresh: "pages s newpage = None"
    and stable: "btree_node_is_leaf env ((page_node opg)\<lparr>node_count := node_count (page_node opg) div 2\<rparr>)
                 = btree_node_is_leaf env (page_node opg)"
  shows "\<exists>s4 s6 opg4 npg4.
           sp1 = sp\<lparr>sp_key := \<lparr>kdata = take (key_size (node_entries (page_node opg) ! (node_count (page_node opg) div 2)))
                                        (key_key (node_entries (page_node opg) ! (node_count (page_node opg) div 2))),
                                  ksize = key_size (node_entries (page_node opg) ! (node_count (page_node opg) div 2))\<rparr>,
                     sp_rid := newpage\<rparr> \<and>
           node_count (page_node opg) \<le> length (node_entries (page_node opg)) \<and>
           pages s4 page = Some opg4 \<and> pages s4 newpage = Some npg4 \<and>
           page_node opg4 = (page_node opg)\<lparr>node_count := node_count (page_node opg) div 2\<rparr> \<and>
           (if btree_node_is_leaf env (page_node opg)
            then node_count (page_node npg4) = node_count (page_node opg) - node_count (page_node opg) div 2 \<and>
                 take (node_count (page_node opg) - node_count (page_node opg) div 2) (node_entries (page_node npg4))
                   = take (node_count (page_node opg) - node_count (page_node opg) div 2)
                       (drop (node_count (page_node opg) div 2) (node_entries (page_node opg))) \<and>
                 node_ptr_left (page_node npg4) = 0
            else node_count (page_node npg4) = node_count (page_node opg) - node_count (page_node opg) div 2 - 1 \<and>
                 take (node_count (page_node opg) - node_count (page_node opg) div 2 - 1) (node_entries (page_node npg4))
                   = take (node_count (page_node opg) - node_count (page_node opg) div 2 - 1)
                       (drop (node_count (page_node opg) div 2 + 1) (node_entries (page_node opg))) \<and>
                 node_ptr_left (page_node npg4)
                   = key_ptr (node_entries (page_node opg) ! (node_count (page_node opg) div 2))) \<and>
           my_insert_nosplit env
              (if fst (slot_cmp env (node_entries (page_node opg) ! (node_count (page_node opg) div 2)) key) \<le> 0
               then newpage else page)
              key rid (sp_record sp) (flags OR NOFLUSH) s4 = Some (HAM_SUCCESS, s6) \<and>
           split_fix_siblings page newpage s6 = Some s1"
proof -
  let ?N = "node_count (page_node opg)"
  let ?pivot = "?N div 2"
  let ?e = "node_entries (page_node opg) ! ?pivot"
  have ne: "newpage \<noteq> page" using pg fresh by auto
  from split obtain np sa s2 opg2 pivotkey s3 s4 cmp s5 s6 where
    al: "db_alloc_page env PAGE_TYPE_INDEX s = (Some np, sa)" and
    cp: "split_copy_keys env page np sa = Some s2" and
    p2: "pages s2 page = Some opg2" and
    uc: "util_copy_key
       \<lparr>kdata = key_key (node_entries (page_node opg2) ! (node_count (page_node opg2) div 2)),
        ksize = key_size (node_entries (page_node opg2) ! (node_count (page_node opg2) div 2))\<rparr> s2
     = (Some pivotkey, s3)" and
    ad: "split_adjust env page np (node_count (page_node opg2)) (node_count (page_node opg2) div 2) s3
     = Some s4" and
    kc: "key_compare_int_to_pub env page (node_count (page_node opg2) div 2) key s4 = Some (cmp, s5)" and
    e5: "db_error s5 = HAM_SUCCESS" and
    ns: "my_insert_nosplit env (if cmp \<le> 0 then np else page) key rid (sp_record sp)
       (flags OR NOFLUSH) s5 = Some (HAM_SUCCESS, s6)" and
    fx: "split_fix_siblings page np s6 = Some s1" and
    sp1: "sp1 = sp\<lparr>sp_key := pivotkey, sp_rid := np\<rparr>"
    by (rule my_insert_split_SPLIT)
  have np: "np = newpage" and sa: "sa = s\<lparr>pages := (pages s)(newpage \<mapsto> fresh_page env PAGE_TYPE_INDEX), free_pages := rest\<rparr>"
    using al free by (auto simp: db_alloc_page_def)
  have pa: "pages sa page = Some opg" "pages sa newpage = Some (fresh_page env PAGE_TYPE_INDEX)"
    using pg ne by (simp_all add: sa)
  let ?leaf = "btree_node_is_leaf env (page_node opg)"
  let ?from = "if ?leaf then ?pivot else ?pivot + 1"
  let ?n = "if ?leaf then ?N - ?pivot else ?N - ?pivot - 1"
  have cpe: "s2 = modify_node newpage
                 (\<lambda>nd. nd\<lparr>node_entries := take ?n (drop ?from (node_entries (page_node opg))) @ drop ?n (node_entries nd)\<rparr>) sa"
    and bounds: "?from + ?n \<le> length (node_entries (page_node opg))"
       "?n \<le> page_slots env" "?leaf \<or> ?N - ?pivot \<noteq> 0"
    using cp pa unfolding np
    by (auto simp: split_copy_keys_def Let_def fresh_page_def split: if_splits)
  have o2: "opg2 = opg" using p2 pa ne by (simp add: cpe pages_modify_node)
  have Nlen: "?N \<le> length (node_entries (page_node opg))"
    using bounds by (auto split: if_splits)
  have p2n: "pages s2 newpage = Some ((fresh_page env PAGE_TYPE_INDEX)
      \<lparr>page_node := (page_node (fresh_page env PAGE_TYPE_INDEX))
         \<lparr>node_entries := take ?n (drop ?from (node_entries (page_node opg)))
                           @ drop ?n (replicate (page_slots env) zero_key)\<rparr>\<rparr>)"
    using pa by (simp add: cpe pages_modify_node fresh_page_def)
  have pk: "pivotkey = \<lparr>kdata = take (key_size ?e) (key_key ?e), ksize = key_size ?e\<rparr>"
    and p3: "pages s3 = pages s2"
    using uc unfolding o2 by (auto simp: util_copy_key_def db_set_error_def split: if_splits)
  have p3o: "pages s3 page = Some opg" using p3 p2 o2 by simp
  have s55: "s5 = s4" using key_compare_same_state[OF kc e5] .
  obtain opg4 npg4 where p4: "pages s4 page = Some opg4" "pages s4 newpage = Some npg4"
     and n4: "page_node opg4 = (page_node opg)\<lparr>node_count := ?pivot\<rparr>"
     and nn4: "if ?leaf
            then node_count (page_node npg4) = ?N - ?pivot \<and>
                 take (?N - ?pivot) (node_entries (page_node npg4))
                   = take (?N - ?pivot) (drop ?pivot (node_entries (page_node opg))) \<and>
                 node_ptr_left (page_node npg4) = 0
            else node_count (page_node npg4) = ?N - ?pivot - 1 \<and>
                 take (?N - ?pivot - 1) (node_entries (page_node npg4))
                   = take (?N - ?pivot - 1) (drop (?pivot + 1) (node_entries (page_node opg))) \<and>
                 node_ptr_left (page_node npg4) = key_ptr ?e"
    using ad p3o p3 p2n ne stable bounds unfolding np o2
    by (cases ?leaf)
       (auto simp: split_adjust_def Let_def pages_modify_node fresh_page_def split: if_splits option.splits)
  have cmpv: "cmp = fst (slot_cmp env ?e key)"
    using key_compare_state[OF kc e5 p4(1)] n4 unfolding o2 by simp
  show ?thesis
    using sp1 pk Nlen p4 n4 nn4 ns fx cmpv unfolding np s55 by blast
qed

lemma ex_db4_split_25:
  "\<exists>sp1 s1. my_insert_split ex_env 1 (ex_key 25) 0 0 ex_sp ex_db4 = Some (SPLIT, sp1, s1)"
  by (simp add: run_defs)

lemma ex_db4_hyps:
  "pages ex_db4 1 = Some (ex_leaf [ex_slot 10, ex_slot 20, ex_slot 30, ex_slot 40] 4)"
  "free_pages ex_db4 = 2 # [3]"
  "pages ex_db4 2 = None"
  "btree_node_is_leaf ex_env
     ((page_node (ex_leaf [ex_slot 10, ex_slot 20, ex_slot 30, ex_slot 40] 4))
        \<lparr>node_count := node_count (page_node (ex_leaf [ex_slot 10, ex_slot 20, ex_slot 30, ex_slot 40] 4)) div 2\<rparr>)
   = btree_node_is_leaf ex_env (page_node (ex_leaf [ex_slot 10, ex_slot 20, ex_slot 30, ex_slot 40] 4))"
  by (simp_all add: ex_db4_def ex_db_def ex_leaf_def ex_env_def)

text \<open>
  C4, as the code has it. After the slots are divided, slot \<open>pivot\<close> of the old page is
  compared with the inserted key (\<^verbatim>\<open>key_compare_int_to_pub(page, pivot, key)\<close>): when the
  result is \<open>\<le> 0\<close>, that is when the pivot key is less than or equal to the inserted key,
  the key goes into the new right sibling, otherwise into the old left node; either way
  through \<^verbatim>\<open>my_insert_nosplit\<close> with \<open>flags | NOFLUSH\<close>, in the state \<open>s4\<close> in which
  the old node already has \<open>pivot\<close> slots.
\<close>

theorem split_inserts_after_pivot_compare:
  assumes "my_insert_split env page key rid flags sp s = Some (SPLIT, sp1, s1)"
    and "pages s page = Some opg"
    and "free_pages s = newpage # rest"
    and "pages s newpage = None"
    and "btree_node_is_leaf env ((page_node opg)\<lparr>node_count := node_count (page_node opg) div 2\<rparr>)
           = btree_node_is_leaf env (page_node opg)"
  shows "\<exists>s4 s6 opg4.
           pages s4 page = Some opg4 \<and>
           page_node opg4 = (page_node opg)\<lparr>node_count := node_count (page_node opg) div 2\<rparr> \<and>
           my_insert_nosplit env
              (if fst (slot_cmp env (node_entries (page_node opg) ! (node_count (page_node opg) div 2)) key) \<le> 0
               then newpage else page)
              key rid (sp_record sp) (flags OR NOFLUSH) s4 = Some (HAM_SUCCESS, s6) \<and>
           split_fix_siblings page newpage s6 = Some s1"
  using split_structure[OF assms] by blast

theorem split_inserts_after_pivot_compare_witness:
  "\<exists>sp1 s1 s4 s6 opg4.
     my_insert_split ex_env 1 (ex_key 25) 0 0 ex_sp ex_db4 = Some (SPLIT, sp1, s1) \<and>
     pages ex_db4 1 = Some (ex_leaf [ex_slot 10, ex_slot 20, ex_slot 30, ex_slot 40] 4) \<and>
     free_pages ex_db4 = 2 # [3] \<and>
     pages ex_db4 2 = None \<and>
     pages s4 1 = Some opg4 \<and>
     node_count (page_node opg4) = 2 \<and>
     0 < fst (slot_cmp ex_env (ex_slot 30) (ex_key 25)) \<and>
     my_insert_nosplit ex_env 1 (ex_key 25) 0 (sp_record ex_sp) (0 OR NOFLUSH) s4 = Some (HAM_SUCCESS, s6) \<and>
     split_fix_siblings 1 2 s6 = Some s1"
proof -
  obtain sp1 s1 where r: "my_insert_split ex_env 1 (ex_key 25) 0 0 ex_sp ex_db4 = Some (SPLIT, sp1, s1)"
    using ex_db4_split_25 by blast
  have c: "0 < fst (slot_cmp ex_env (ex_slot 30) (ex_key 25))"
    by (simp add: slot_cmp_def ex_env_def ex_slot_def ex_key_def)
  from split_inserts_after_pivot_compare[OF r ex_db4_hyps]
  obtain s4 s6 opg4 where
    "pages s4 1 = Some opg4"
    "page_node opg4 = (page_node (ex_leaf [ex_slot 10, ex_slot 20, ex_slot 30, ex_slot 40] 4))
        \<lparr>node_count := node_count (page_node (ex_leaf [ex_slot 10, ex_slot 20, ex_slot 30, ex_slot 40] 4)) div 2\<rparr>"
    "my_insert_nosplit ex_env
        (if fst (slot_cmp ex_env
                  (node_entries (page_node (ex_leaf [ex_slot 10, ex_slot 20, ex_slot 30, ex_slot 40] 4)) !
                    (node_count (page_node (ex_leaf [ex_slot 10, ex_slot 20, ex_slot 30, ex_slot 40] 4)) div 2))
                  (ex_key 25)) \<le> 0
         then 2 else 1)
        (ex_key 25) 0 (sp_record ex_sp) (0 OR NOFLUSH) s4 = Some (HAM_SUCCESS, s6)"
    "split_fix_siblings 1 2 s6 = Some s1"
    by blast
  then have
    "pages s4 1 = Some opg4" "node_count (page_node opg4) = 2"
    "my_insert_nosplit ex_env 1 (ex_key 25) 0 (sp_record ex_sp) (0 OR NOFLUSH) s4 = Some (HAM_SUCCESS, s6)"
    "split_fix_siblings 1 2 s6 = Some s1"
    using c by (simp_all add: ex_leaf_def)
  then show ?thesis using r ex_db4_hyps(1-3) c by blast
qed

text \<open>
  C4 as stated fails: the key 25 is less than the pivot key 30, and the split of the
  full leaf 10, 20, 30, 40 puts it into the old left node, not into the new right
  sibling.
\<close>

theorem split_target_counterexample:
  "fst (db_compare ex_env [25] [30]) \<le> 0 \<and>
   map_option (\<lambda>(st, sp', s'). (st, page_keys s' 1, page_keys s' 2))
      (my_insert_split ex_env 1 (ex_key 25) 0 0 ex_sp ex_db4)
     = Some (SPLIT, [[10], [20], [25]], [[30], [40]])"
  by (simp add: run_defs page_keys_def)

text \<open>
  C5. A split that succeeds divides the node of count \<open>N\<close> at \<open>pivot = N div 2\<close>. The old
  node keeps its slot array and has the count \<open>pivot\<close>, so it keeps the slots
  \<open>[0, pivot)\<close>. The scratchpad receives a copy of the key of slot \<open>pivot\<close> and the
  address of the new page. For a leaf the new page holds the slots \<open>[pivot, N)\<close> (the
  pivot slot among them) and has no left pointer; for an internal node it holds the
  slots \<open>[pivot + 1, N)\<close> and its left pointer is the pointer of slot \<open>pivot\<close>, which is
  in neither node any more. This is the state \<open>s4\<close> in which the new key is then
  inserted and the siblings are linked.
\<close>

theorem split_divides_at_pivot:
  assumes "my_insert_split env page key rid flags sp s = Some (SPLIT, sp1, s1)"
    and "pages s page = Some opg"
    and "free_pages s = newpage # rest"
    and "pages s newpage = None"
    and "btree_node_is_leaf env ((page_node opg)\<lparr>node_count := node_count (page_node opg) div 2\<rparr>)
           = btree_node_is_leaf env (page_node opg)"
  shows "\<exists>s4 s6 opg4 npg4 target.
           sp_rid sp1 = newpage \<and>
           sp_key sp1 = \<lparr>kdata = take (key_size (node_entries (page_node opg) ! (node_count (page_node opg) div 2)))
                                     (key_key (node_entries (page_node opg) ! (node_count (page_node opg) div 2))),
                          ksize = key_size (node_entries (page_node opg) ! (node_count (page_node opg) div 2))\<rparr> \<and>
           node_count (page_node opg) \<le> length (node_entries (page_node opg)) \<and>
           pages s4 page = Some opg4 \<and> pages s4 newpage = Some npg4 \<and>
           page_node opg4 = (page_node opg)\<lparr>node_count := node_count (page_node opg) div 2\<rparr> \<and>
           (if btree_node_is_leaf env (page_node opg)
            then node_count (page_node npg4) = node_count (page_node opg) - node_count (page_node opg) div 2 \<and>
                 take (node_count (page_node opg) - node_count (page_node opg) div 2) (node_entries (page_node npg4))
                   = take (node_count (page_node opg) - node_count (page_node opg) div 2)
                       (drop (node_count (page_node opg) div 2) (node_entries (page_node opg))) \<and>
                 node_ptr_left (page_node npg4) = 0
            else node_count (page_node npg4) = node_count (page_node opg) - node_count (page_node opg) div 2 - 1 \<and>
                 take (node_count (page_node opg) - node_count (page_node opg) div 2 - 1) (node_entries (page_node npg4))
                   = take (node_count (page_node opg) - node_count (page_node opg) div 2 - 1)
                       (drop (node_count (page_node opg) div 2 + 1) (node_entries (page_node opg))) \<and>
                 node_ptr_left (page_node npg4)
                   = key_ptr (node_entries (page_node opg) ! (node_count (page_node opg) div 2))) \<and>
           my_insert_nosplit env target key rid (sp_record sp) (flags OR NOFLUSH) s4 = Some (HAM_SUCCESS, s6) \<and>
           split_fix_siblings page newpage s6 = Some s1"
proof -
  from split_structure[OF assms] obtain s4 s6 opg4 npg4 where
    a: "sp1 = sp\<lparr>sp_key := \<lparr>kdata = take (key_size (node_entries (page_node opg) ! (node_count (page_node opg) div 2)))
                                        (key_key (node_entries (page_node opg) ! (node_count (page_node opg) div 2))),
                                  ksize = key_size (node_entries (page_node opg) ! (node_count (page_node opg) div 2))\<rparr>,
                     sp_rid := newpage\<rparr>" and
    b: "node_count (page_node opg) \<le> length (node_entries (page_node opg))"
       "pages s4 page = Some opg4" "pages s4 newpage = Some npg4"
       "page_node opg4 = (page_node opg)\<lparr>node_count := node_count (page_node opg) div 2\<rparr>"
       "(if btree_node_is_leaf env (page_node opg)
            then node_count (page_node npg4) = node_count (page_node opg) - node_count (page_node opg) div 2 \<and>
                 take (node_count (page_node opg) - node_count (page_node opg) div 2) (node_entries (page_node npg4))
                   = take (node_count (page_node opg) - node_count (page_node opg) div 2)
                       (drop (node_count (page_node opg) div 2) (node_entries (page_node opg))) \<and>
                 node_ptr_left (page_node npg4) = 0
            else node_count (page_node npg4) = node_count (page_node opg) - node_count (page_node opg) div 2 - 1 \<and>
                 take (node_count (page_node opg) - node_count (page_node opg) div 2 - 1) (node_entries (page_node npg4))
                   = take (node_count (page_node opg) - node_count (page_node opg) div 2 - 1)
                       (drop (node_count (page_node opg) div 2 + 1) (node_entries (page_node opg))) \<and>
                 node_ptr_left (page_node npg4)
                   = key_ptr (node_entries (page_node opg) ! (node_count (page_node opg) div 2)))"
       "my_insert_nosplit env
              (if fst (slot_cmp env (node_entries (page_node opg) ! (node_count (page_node opg) div 2)) key) \<le> 0
               then newpage else page)
              key rid (sp_record sp) (flags OR NOFLUSH) s4 = Some (HAM_SUCCESS, s6)"
       "split_fix_siblings page newpage s6 = Some s1"
    by blast
  have "sp_rid sp1 = newpage" 
       "sp_key sp1 = \<lparr>kdata = take (key_size (node_entries (page_node opg) ! (node_count (page_node opg) div 2)))
                                     (key_key (node_entries (page_node opg) ! (node_count (page_node opg) div 2))),
                          ksize = key_size (node_entries (page_node opg) ! (node_count (page_node opg) div 2))\<rparr>"
    using a by simp_all
  then show ?thesis using b by blast
qed

lemma ex_db_internal_split_25:
  "\<exists>sp1 s1. my_insert_split ex_env 1 (ex_key 25) 77 OVERWRITE ex_sp ex_db_internal = Some (SPLIT, sp1, s1)"
  by (simp add: run_defs ex_db_internal_def ex_internal_def ex_child_slot_def)

lemma ex_db_internal_hyps:
  "pages ex_db_internal 1 = Some ex_internal"
  "free_pages ex_db_internal = 2 # [3]"
  "pages ex_db_internal 2 = None"
  "btree_node_is_leaf ex_env
     ((page_node ex_internal)\<lparr>node_count := node_count (page_node ex_internal) div 2\<rparr>)
   = btree_node_is_leaf ex_env (page_node ex_internal)"
  by (simp_all add: ex_db_internal_def ex_db_def ex_internal_def ex_env_def)

theorem split_divides_at_pivot_witness:
  "(\<exists>sp1 s1 s4 npg4.
      my_insert_split ex_env 1 (ex_key 25) 0 0 ex_sp ex_db4 = Some (SPLIT, sp1, s1) \<and>
      pages ex_db4 1 = Some (ex_leaf [ex_slot 10, ex_slot 20, ex_slot 30, ex_slot 40] 4) \<and>
      free_pages ex_db4 = 2 # [3] \<and> pages ex_db4 2 = None \<and>
      sp_rid sp1 = 2 \<and> sp_key sp1 = ex_key 30 \<and>
      page_keys s4 1 = [[10], [20]] \<and>
      pages s4 2 = Some npg4 \<and> node_count (page_node npg4) = 2 \<and>
      take 2 (node_entries (page_node npg4)) = [ex_slot 30, ex_slot 40]) \<and>
   (\<exists>sp1 s1 s4 npg4.
      my_insert_split ex_env 1 (ex_key 25) 77 OVERWRITE ex_sp ex_db_internal = Some (SPLIT, sp1, s1) \<and>
      pages ex_db_internal 1 = Some ex_internal \<and>
      free_pages ex_db_internal = 2 # [3] \<and> pages ex_db_internal 2 = None \<and>
      sp_rid sp1 = 2 \<and> sp_key sp1 = ex_key 30 \<and>
      page_keys s4 1 = [[10], [20]] \<and>
      pages s4 2 = Some npg4 \<and> node_count (page_node npg4) = 1 \<and>
      take 1 (node_entries (page_node npg4)) = [ex_child_slot 40 9] \<and>
      node_ptr_left (page_node npg4) = 8)"
proof -
  obtain sp1 s1 where r: "my_insert_split ex_env 1 (ex_key 25) 0 0 ex_sp ex_db4 = Some (SPLIT, sp1, s1)"
    using ex_db4_split_25 by blast
  from split_divides_at_pivot[OF r ex_db4_hyps]
  have A: "\<exists>s4 npg4.
      sp_rid sp1 = 2 \<and> sp_key sp1 = ex_key 30 \<and>
      page_keys s4 1 = [[10], [20]] \<and>
      pages s4 2 = Some npg4 \<and> node_count (page_node npg4) = 2 \<and>
      take 2 (node_entries (page_node npg4)) = [ex_slot 30, ex_slot 40]"
    apply (elim exE conjE)
    subgoal for s4 s6 opg4 npg4 target
      apply (rule exI[of _ s4], rule exI[of _ npg4])
      apply (simp add: ex_leaf_def ex_env_def ex_slot_def ex_key_def page_keys_def)
      done
    done
  obtain sp2 s2 where r2:
    "my_insert_split ex_env 1 (ex_key 25) 77 OVERWRITE ex_sp ex_db_internal = Some (SPLIT, sp2, s2)"
    using ex_db_internal_split_25 by blast
  from split_divides_at_pivot[OF r2 ex_db_internal_hyps]
  have B: "\<exists>s4 npg4.
      sp_rid sp2 = 2 \<and> sp_key sp2 = ex_key 30 \<and>
      page_keys s4 1 = [[10], [20]] \<and>
      pages s4 2 = Some npg4 \<and> node_count (page_node npg4) = 1 \<and>
      take 1 (node_entries (page_node npg4)) = [ex_child_slot 40 9] \<and>
      node_ptr_left (page_node npg4) = 8"
    apply (elim exE conjE)
    subgoal for s4 s6 opg4 npg4 target
      apply (rule exI[of _ s4], rule exI[of _ npg4])
      apply (simp add: ex_internal_def ex_env_def ex_child_slot_def ex_key_def page_keys_def)
      done
    done
  show ?thesis
    using A B r r2 ex_db4_hyps(1-3) ex_db_internal_hyps(1-3) by blast
qed

text \<open>
  C9, as the code has it. The old right sibling is fetched first. Then the header fields
  are written in the order \<open>new.left = old\<close>, \<open>new.right = old.right\<close>,
  \<open>old.right = new\<close> and, when the old right sibling exists, \<open>old.right.left = new\<close>;
  the sibling, the new page and the old page are marked dirty, in this order. The theorem
  lists the three pages in the state before the first write and after each write: after
  the third write the old page already points to the new one while its former right
  sibling is still as it was, and only the fourth write makes the sibling point back to
  the new page. The last state is the result of \<^verbatim>\<open>split_fix_siblings\<close>.
\<close>

theorem sibling_chain_write_order:
  assumes "pages s page = Some opg"
    and "pages s newpage = Some npg"
    and "node_right (page_node opg) = r"
    and "page \<noteq> newpage"
    and "r = 0 \<or> (pages s r = Some sibpg \<and> r \<noteq> page \<and> r \<noteq> newpage)"
  shows "\<exists>sts. split_fix_siblings_states page newpage s = Some sts \<and>
           split_fix_siblings page newpage s = Some (last sts) \<and>
           (if r = 0 then
              map (\<lambda>st. (pages st page, pages st newpage)) sts =
                [(Some opg, Some npg),
                 (Some opg, Some (npg\<lparr>page_node := (page_node npg)\<lparr>node_left := page\<rparr>\<rparr>)),
                 (Some opg, Some (npg\<lparr>page_node := (page_node npg)\<lparr>node_left := page, node_right := 0\<rparr>\<rparr>)),
                 (Some (opg\<lparr>page_node := (page_node opg)\<lparr>node_right := newpage\<rparr>\<rparr>),
                  Some (npg\<lparr>page_node := (page_node npg)\<lparr>node_left := page, node_right := 0\<rparr>\<rparr>)),
                 (Some (opg\<lparr>page_node := (page_node opg)\<lparr>node_right := newpage\<rparr>\<rparr>),
                  Some (npg\<lparr>page_dirty := True,
                            page_node := (page_node npg)\<lparr>node_left := page, node_right := 0\<rparr>\<rparr>)),
                 (Some (opg\<lparr>page_dirty := True, page_node := (page_node opg)\<lparr>node_right := newpage\<rparr>\<rparr>),
                  Some (npg\<lparr>page_dirty := True,
                            page_node := (page_node npg)\<lparr>node_left := page, node_right := 0\<rparr>\<rparr>))]
            else
              map (\<lambda>st. (pages st page, pages st newpage, pages st r)) sts =
                [(Some opg, Some npg, Some sibpg),
                 (Some opg, Some (npg\<lparr>page_node := (page_node npg)\<lparr>node_left := page\<rparr>\<rparr>), Some sibpg),
                 (Some opg, Some (npg\<lparr>page_node := (page_node npg)\<lparr>node_left := page, node_right := r\<rparr>\<rparr>),
                  Some sibpg),
                 (Some (opg\<lparr>page_node := (page_node opg)\<lparr>node_right := newpage\<rparr>\<rparr>),
                  Some (npg\<lparr>page_node := (page_node npg)\<lparr>node_left := page, node_right := r\<rparr>\<rparr>),
                  Some sibpg),
                 (Some (opg\<lparr>page_node := (page_node opg)\<lparr>node_right := newpage\<rparr>\<rparr>),
                  Some (npg\<lparr>page_node := (page_node npg)\<lparr>node_left := page, node_right := r\<rparr>\<rparr>),
                  Some (sibpg\<lparr>page_node := (page_node sibpg)\<lparr>node_left := newpage\<rparr>\<rparr>)),
                 (Some (opg\<lparr>page_node := (page_node opg)\<lparr>node_right := newpage\<rparr>\<rparr>),
                  Some (npg\<lparr>page_node := (page_node npg)\<lparr>node_left := page, node_right := r\<rparr>\<rparr>),
                  Some (sibpg\<lparr>page_dirty := True, page_node := (page_node sibpg)\<lparr>node_left := newpage\<rparr>\<rparr>)),
                 (Some (opg\<lparr>page_node := (page_node opg)\<lparr>node_right := newpage\<rparr>\<rparr>),
                  Some (npg\<lparr>page_dirty := True,
                            page_node := (page_node npg)\<lparr>node_left := page, node_right := r\<rparr>\<rparr>),
                  Some (sibpg\<lparr>page_dirty := True, page_node := (page_node sibpg)\<lparr>node_left := newpage\<rparr>\<rparr>)),
                 (Some (opg\<lparr>page_dirty := True, page_node := (page_node opg)\<lparr>node_right := newpage\<rparr>\<rparr>),
                  Some (npg\<lparr>page_dirty := True,
                            page_node := (page_node npg)\<lparr>node_left := page, node_right := r\<rparr>\<rparr>),
                  Some (sibpg\<lparr>page_dirty := True, page_node := (page_node sibpg)\<lparr>node_left := newpage\<rparr>\<rparr>))])"
proof (cases "r = 0")
  case True
  then show ?thesis using assms(1-4)
    by (simp add: split_fix_siblings_def split_fix_siblings_states_def sibling_writes_def
          pages_modify_node pages_page_set_dirty)
next
  case False
  then have sib: "pages s r = Some sibpg" "r \<noteq> page" "r \<noteq> newpage" using assms(5) by auto
  have f: "db_fetch_page r s = (Some r, s)" using sib(1) by (simp add: db_fetch_page_def)
  show ?thesis using assms(1-4) sib f False
    by (simp add: split_fix_siblings_def split_fix_siblings_states_def sibling_writes_def
          pages_modify_node pages_page_set_dirty)
qed

theorem sibling_chain_write_order_witness:
  "pages ex_db_chain 1 = Some (ex_linked_leaf [ex_slot 10, ex_slot 20, zero_key, zero_key] 2 0 3) \<and>
   pages ex_db_chain 2 = Some (ex_linked_leaf [ex_slot 30, ex_slot 40, zero_key, zero_key] 2 0 0) \<and>
   pages ex_db_chain 3 = Some (ex_linked_leaf [ex_slot 50, zero_key, zero_key, zero_key] 1 1 0) \<and>
   map_option (map (\<lambda>st. (map_option (node_right \<circ> page_node) (pages st 1),
                           map_option (node_left \<circ> page_node) (pages st 2),
                           map_option (node_right \<circ> page_node) (pages st 2),
                           map_option (node_left \<circ> page_node) (pages st 3))))
     (split_fix_siblings_states 1 2 ex_db_chain) =
     Some [(Some 3, Some 0, Some 0, Some 1),
           (Some 3, Some 1, Some 0, Some 1),
           (Some 3, Some 1, Some 3, Some 1),
           (Some 2, Some 1, Some 3, Some 1),
           (Some 2, Some 1, Some 3, Some 2),
           (Some 2, Some 1, Some 3, Some 2),
           (Some 2, Some 1, Some 3, Some 2),
           (Some 2, Some 1, Some 3, Some 2)] \<and>
   map_option (\<lambda>s1. (pages s1 1, pages s1 2, pages s1 3)) (split_fix_siblings 1 2 ex_db_chain) =
     Some (Some ((ex_linked_leaf [ex_slot 10, ex_slot 20, zero_key, zero_key] 2 0 2)\<lparr>page_dirty := True\<rparr>),
           Some ((ex_linked_leaf [ex_slot 30, ex_slot 40, zero_key, zero_key] 2 1 3)\<lparr>page_dirty := True\<rparr>),
           Some ((ex_linked_leaf [ex_slot 50, zero_key, zero_key, zero_key] 1 2 0)\<lparr>page_dirty := True\<rparr>))"
proof -
  have h1: "pages ex_db_chain 1 = Some (ex_linked_leaf [ex_slot 10, ex_slot 20, zero_key, zero_key] 2 0 3)"
    and h2: "pages ex_db_chain 2 = Some (ex_linked_leaf [ex_slot 30, ex_slot 40, zero_key, zero_key] 2 0 0)"
    and h3: "pages ex_db_chain 3 = Some (ex_linked_leaf [ex_slot 50, zero_key, zero_key, zero_key] 1 1 0)"
    by (simp_all add: ex_db_chain_def)
  have h4: "node_right (page_node (ex_linked_leaf [ex_slot 10, ex_slot 20, zero_key, zero_key] 2 0 3)) = 3"
    by (simp add: ex_linked_leaf_def)
  have h5: "(1 :: ham_offset) \<noteq> 2" by simp
  have h6: "(3 :: ham_offset) = 0 \<or>
            (pages ex_db_chain 3 = Some (ex_linked_leaf [ex_slot 50, zero_key, zero_key, zero_key] 1 1 0) \<and>
             (3 :: ham_offset) \<noteq> 1 \<and> (3 :: ham_offset) \<noteq> 2)"
    using h3 by simp
  obtain sts where
    a: "split_fix_siblings_states 1 2 ex_db_chain = Some sts" and
    b: "split_fix_siblings 1 2 ex_db_chain = Some (last sts)" and
    c: "map (\<lambda>st. (pages st 1, pages st 2, pages st 3)) sts =
          [(Some (ex_linked_leaf [ex_slot 10, ex_slot 20, zero_key, zero_key] 2 0 3),
            Some (ex_linked_leaf [ex_slot 30, ex_slot 40, zero_key, zero_key] 2 0 0),
            Some (ex_linked_leaf [ex_slot 50, zero_key, zero_key, zero_key] 1 1 0)),
           (Some (ex_linked_leaf [ex_slot 10, ex_slot 20, zero_key, zero_key] 2 0 3),
            Some (ex_linked_leaf [ex_slot 30, ex_slot 40, zero_key, zero_key] 2 1 0),
            Some (ex_linked_leaf [ex_slot 50, zero_key, zero_key, zero_key] 1 1 0)),
           (Some (ex_linked_leaf [ex_slot 10, ex_slot 20, zero_key, zero_key] 2 0 3),
            Some (ex_linked_leaf [ex_slot 30, ex_slot 40, zero_key, zero_key] 2 1 3),
            Some (ex_linked_leaf [ex_slot 50, zero_key, zero_key, zero_key] 1 1 0)),
           (Some (ex_linked_leaf [ex_slot 10, ex_slot 20, zero_key, zero_key] 2 0 2),
            Some (ex_linked_leaf [ex_slot 30, ex_slot 40, zero_key, zero_key] 2 1 3),
            Some (ex_linked_leaf [ex_slot 50, zero_key, zero_key, zero_key] 1 1 0)),
           (Some (ex_linked_leaf [ex_slot 10, ex_slot 20, zero_key, zero_key] 2 0 2),
            Some (ex_linked_leaf [ex_slot 30, ex_slot 40, zero_key, zero_key] 2 1 3),
            Some (ex_linked_leaf [ex_slot 50, zero_key, zero_key, zero_key] 1 2 0)),
           (Some (ex_linked_leaf [ex_slot 10, ex_slot 20, zero_key, zero_key] 2 0 2),
            Some (ex_linked_leaf [ex_slot 30, ex_slot 40, zero_key, zero_key] 2 1 3),
            Some ((ex_linked_leaf [ex_slot 50, zero_key, zero_key, zero_key] 1 2 0)\<lparr>page_dirty := True\<rparr>)),
           (Some (ex_linked_leaf [ex_slot 10, ex_slot 20, zero_key, zero_key] 2 0 2),
            Some ((ex_linked_leaf [ex_slot 30, ex_slot 40, zero_key, zero_key] 2 1 3)\<lparr>page_dirty := True\<rparr>),
            Some ((ex_linked_leaf [ex_slot 50, zero_key, zero_key, zero_key] 1 2 0)\<lparr>page_dirty := True\<rparr>)),
           (Some ((ex_linked_leaf [ex_slot 10, ex_slot 20, zero_key, zero_key] 2 0 2)\<lparr>page_dirty := True\<rparr>),
            Some ((ex_linked_leaf [ex_slot 30, ex_slot 40, zero_key, zero_key] 2 1 3)\<lparr>page_dirty := True\<rparr>),
            Some ((ex_linked_leaf [ex_slot 50, zero_key, zero_key, zero_key] 1 2 0)\<lparr>page_dirty := True\<rparr>))]"
    using sibling_chain_write_order[OF h1 h2 h4 h5 h6]
    by (auto simp: ex_linked_leaf_def)
  obtain t0 t1 t2 t3 t4 t5 t6 t7 where sts: "sts = [t0, t1, t2, t3, t4, t5, t6, t7]"
    using c by (auto simp: map_eq_Cons_conv)
  show ?thesis
    using a b c h1 h2 h3 unfolding sts
    by (simp add: ex_linked_leaf_def)
qed

text \<open>
  C9 as stated fails: the third write is \<open>old.right = new\<close>, the fourth is
  \<open>old.right.left = new\<close>. For the pages 1 (old), 2 (new) and 3 (the right sibling of
  page 1), in the state after the third write page 1 has the right sibling 2 and page 3
  still has the left sibling 1, where the order of the claim would have page 3 point to
  page 2 and page 1 still to page 3.
\<close>

theorem sibling_chain_order_counterexample:
  "sibling_writes 1 2 3 (Some 3) ! 2 = Set_right 1 2 \<and>
   sibling_writes 1 2 3 (Some 3) ! 3 = Set_left 3 2 \<and>
   map_option (node_right \<circ> page_node)
     (pages (foldl apply_write ex_db_chain (take 3 (sibling_writes 1 2 3 (Some 3)))) 1) = Some 2 \<and>
   map_option (node_left \<circ> page_node)
     (pages (foldl apply_write ex_db_chain (take 3 (sibling_writes 1 2 3 (Some 3)))) 3) = Some 1 \<and>
   map_option (\<lambda>sts. (map_option (node_right \<circ> page_node) (pages (sts ! 3) 1),
                       map_option (node_left \<circ> page_node) (pages (sts ! 3) 3)))
     (split_fix_siblings_states 1 2 ex_db_chain) = Some (Some 2, Some 1)"
  by (simp add: split_fix_siblings_states_def db_fetch_page_def
        sibling_writes_def ex_db_chain_def ex_linked_leaf_def ex_db_def pages_modify_node)

subsection \<open>Cursors\<close>

lemma or_first_has_first: "(x OR HAM_CURSOR_FIRST) AND HAM_CURSOR_FIRST \<noteq> 0"
  by (simp add: HAM_CURSOR_FIRST_def word_ao_absorbs)

lemma rewritten_next_no_next:
  "((x AND NOT HAM_CURSOR_NEXT) OR HAM_CURSOR_FIRST) AND HAM_CURSOR_NEXT = 0"
  by (simp add: HAM_CURSOR_FIRST_def HAM_CURSOR_NEXT_def bit.conj_disj_distrib2 word_bw_assocs)

lemma rewritten_prev_has_first:
  "((((x AND NOT HAM_CURSOR_NEXT) OR HAM_CURSOR_FIRST) AND NOT HAM_CURSOR_PREVIOUS) OR HAM_CURSOR_LAST)
     AND HAM_CURSOR_FIRST \<noteq> 0"
  apply (simp add: HAM_CURSOR_FIRST_def HAM_CURSOR_NEXT_def HAM_CURSOR_PREVIOUS_def HAM_CURSOR_LAST_def)
  apply (simp add: bit_eq_iff bit_simps)
  apply (rule exI[of _ 0])
  apply simp
  done

lemma rewritten_prev_no_dirs:
  assumes "x AND HAM_CURSOR_NEXT = 0"
  shows "((x AND NOT HAM_CURSOR_PREVIOUS) OR HAM_CURSOR_LAST) AND HAM_CURSOR_NEXT = 0"
    "((x AND NOT HAM_CURSOR_PREVIOUS) OR HAM_CURSOR_LAST) AND HAM_CURSOR_PREVIOUS = 0"
  using assms
  by (simp_all add: HAM_CURSOR_LAST_def HAM_CURSOR_NEXT_def HAM_CURSOR_PREVIOUS_def
        bit.conj_disj_distrib2 word_bw_assocs)

lemma no_direction:
  assumes "x AND (HAM_CURSOR_FIRST OR HAM_CURSOR_LAST OR HAM_CURSOR_NEXT OR HAM_CURSOR_PREVIOUS) = 0"
  shows "x AND HAM_CURSOR_FIRST = 0" "x AND HAM_CURSOR_LAST = 0"
        "x AND HAM_CURSOR_NEXT = 0" "x AND HAM_CURSOR_PREVIOUS = 0"
  using assms
  by (auto simp add: bit.conj_disj_distrib or_eq_0_iff)

lemma txn_begin_frame:
  "ham_txn_begin s = (st, s1) \<Longrightarrow> cursors s1 = cursors s \<and> db_backend s1 = db_backend s \<and> pages s1 = pages s"
  by (auto simp: ham_txn_begin_def split: if_splits)

lemma dispatch_first:
  assumes "flags AND HAM_CURSOR_FIRST \<noteq> 0"
  shows "move_dispatch env be local_txn c cu key record flags s1 =
           move_finish env local_txn c key record (my_move_first env be c 0 s1)"
  using assms by (simp add: move_dispatch_def my_move_first_def)

lemma dispatch_last:
  assumes "flags AND HAM_CURSOR_FIRST = 0" "flags AND HAM_CURSOR_LAST \<noteq> 0"
  shows "move_dispatch env be local_txn c cu key record flags s1 =
           move_finish env local_txn c key record (my_move_last env be c 0 s1)"
  using assms by (simp add: move_dispatch_def my_move_last_def)

lemma move_next_as_first:
  assumes "cursors s c = Some cu" "bt_cursor_is_nil cu" "flags AND HAM_CURSOR_NEXT \<noteq> 0"
  shows "bt_cursor_move env c key record flags s =
         bt_cursor_move env c key record ((flags AND NOT HAM_CURSOR_NEXT) OR HAM_CURSOR_FIRST) s"
proof (cases "db_backend s")
  case None
  then show ?thesis by (simp add: bt_cursor_move_def)
next
  case (Some be)
  obtain st0 s1 where b: "(if \<not> db_txn s then ham_txn_begin s else (HAM_SUCCESS, s)) = (st0, s1)"
    by (cases "if \<not> db_txn s then ham_txn_begin s else (HAM_SUCCESS, s)")
  have c1: "cursors s1 c = Some cu"
    using b assms(1) txn_begin_frame by (auto split: if_splits)
  define f1 where "f1 = (flags AND NOT HAM_CURSOR_NEXT) OR HAM_CURSOR_FIRST"
  have r1: "nil_rewrite_flags cu flags = f1"
    using assms(2,3) by (simp add: nil_rewrite_flags_def f1_def)
  have h1: "f1 AND HAM_CURSOR_FIRST \<noteq> 0" unfolding f1_def by (rule or_first_has_first)
  have h2: "nil_rewrite_flags cu f1 AND HAM_CURSOR_FIRST \<noteq> 0"
  proof (cases "f1 AND HAM_CURSOR_PREVIOUS \<noteq> 0")
    case True
    have "nil_rewrite_flags cu f1 = (f1 AND NOT HAM_CURSOR_PREVIOUS) OR HAM_CURSOR_LAST"
      using assms(2) True rewritten_next_no_next[of flags]
      unfolding nil_rewrite_flags_def f1_def by simp
    then show ?thesis using rewritten_prev_has_first[of flags] unfolding f1_def by simp
  next
    case False
    have "nil_rewrite_flags cu f1 = f1"
      using assms(2) False rewritten_next_no_next[of flags]
      unfolding nil_rewrite_flags_def f1_def by simp
    then show ?thesis using h1 by simp
  qed
  have L: "bt_cursor_move env c key record flags s =
        (if st0 \<noteq> HAM_SUCCESS then Some (st0, key, record, s1)
         else move_finish env (\<not> db_txn s) c key record (my_move_first env be c 0 s1))"
    using Some b c1 r1 dispatch_first[OF h1] by (simp add: bt_cursor_move_def Let_def)
  have R: "bt_cursor_move env c key record f1 s =
        (if st0 \<noteq> HAM_SUCCESS then Some (st0, key, record, s1)
         else move_finish env (\<not> db_txn s) c key record (my_move_first env be c 0 s1))"
    using Some b c1 dispatch_first[OF h2] by (simp add: bt_cursor_move_def Let_def)
  show ?thesis using L R unfolding f1_def by simp
qed

lemma move_previous_as_last:
  assumes "cursors s c = Some cu" "bt_cursor_is_nil cu"
    "flags AND HAM_CURSOR_NEXT = 0" "flags AND HAM_CURSOR_PREVIOUS \<noteq> 0"
  shows "bt_cursor_move env c key record flags s =
         bt_cursor_move env c key record ((flags AND NOT HAM_CURSOR_PREVIOUS) OR HAM_CURSOR_LAST) s"
proof (cases "db_backend s")
  case None
  then show ?thesis by (simp add: bt_cursor_move_def)
next
  case (Some be)
  obtain st0 s1 where b: "(if \<not> db_txn s then ham_txn_begin s else (HAM_SUCCESS, s)) = (st0, s1)"
    by (cases "if \<not> db_txn s then ham_txn_begin s else (HAM_SUCCESS, s)")
  have c1: "cursors s1 c = Some cu"
    using b assms(1) txn_begin_frame by (auto split: if_splits)
  define f1 where "f1 = (flags AND NOT HAM_CURSOR_PREVIOUS) OR HAM_CURSOR_LAST"
  have r1: "nil_rewrite_flags cu flags = f1"
    using assms(2,3,4) by (simp add: nil_rewrite_flags_def f1_def)
  have r2: "nil_rewrite_flags cu f1 = f1"
    using assms(2) rewritten_prev_no_dirs[OF assms(3)]
    unfolding nil_rewrite_flags_def f1_def by simp
  have L: "bt_cursor_move env c key record flags s =
        (if st0 \<noteq> HAM_SUCCESS then Some (st0, key, record, s1)
         else move_dispatch env be (\<not> db_txn s) c cu key record f1 s1)"
    using Some b c1 r1 by (simp add: bt_cursor_move_def Let_def)
  have R: "bt_cursor_move env c key record f1 s =
        (if st0 \<noteq> HAM_SUCCESS then Some (st0, key, record, s1)
         else move_dispatch env be (\<not> db_txn s) c cu key record f1 s1)"
    using Some b c1 r2 by (simp add: bt_cursor_move_def Let_def)
  show ?thesis using L R unfolding f1_def by simp
qed

lemma move_nil_no_direction:
  assumes "cursors s c = Some cu" "bt_cursor_is_nil cu"
    "flags AND (HAM_CURSOR_FIRST OR HAM_CURSOR_LAST OR HAM_CURSOR_NEXT OR HAM_CURSOR_PREVIOUS) = 0"
    "db_backend s = Some be" "db_txn s \<or> txn_begin_status s = HAM_SUCCESS"
  shows "bt_cursor_move env c key record flags s =
           Some (if key \<noteq> None \<or> record \<noteq> None then HAM_CURSOR_IS_NIL else HAM_SUCCESS,
                 key, record,
                 if db_txn s then s else ham_txn_abort (snd (ham_txn_begin s)))"
proof -
  note nd = no_direction[OF assms(3)]
  have r: "nil_rewrite_flags cu flags = flags"
    using assms(2) nd by (simp add: nil_rewrite_flags_def)
  have d: "\<And>lt s1. move_dispatch env be lt c cu key record flags s1 =
        Some (if key \<noteq> None \<or> record \<noteq> None then HAM_CURSOR_IS_NIL else HAM_SUCCESS,
              key, record, if lt then ham_txn_abort s1 else s1)"
    using assms(2) nd by (simp add: move_dispatch_def)
  show ?thesis
  proof (cases "db_txn s")
    case True
    then show ?thesis using assms(1,4) r d by (simp add: bt_cursor_move_def Let_def)
  next
    case False
    then have ok: "txn_begin_status s = HAM_SUCCESS" using assms(5) by simp
    have b: "ham_txn_begin s = (HAM_SUCCESS, s\<lparr>db_txn := True, txn_log := txn_log s @ [TXN_BEGIN]\<rparr>)"
      using ok by (simp add: ham_txn_begin_def)
    show ?thesis using False assms(1,4) r d b by (simp add: bt_cursor_move_def Let_def)
  qed
qed

lemma move_first_ignores_flags: "my_move_first env be c flags s = my_move_first env be c 0 s"
  by (simp add: my_move_first_def)

lemma move_last_ignores_flags: "my_move_last env be c flags s = my_move_last env be c 0 s"
  by (simp add: my_move_last_def)

lemma move_nil_next_reaches_first:
  assumes "cursors s c = Some cu" "bt_cursor_is_nil cu" "flags AND HAM_CURSOR_NEXT \<noteq> 0"
    "db_backend s = Some be" "db_txn s \<or> txn_begin_status s = HAM_SUCCESS"
  shows "bt_cursor_move env c key record flags s =
           move_finish env (\<not> db_txn s) c key record
             (my_move_first env be c 0 (if db_txn s then s else snd (ham_txn_begin s)))"
proof -
  define s1 where "s1 = (if db_txn s then s else snd (ham_txn_begin s))"
  have b: "(if \<not> db_txn s then ham_txn_begin s else (HAM_SUCCESS, s)) = (HAM_SUCCESS, s1)"
    using assms(5) by (auto simp: s1_def ham_txn_begin_def)
  have c1: "cursors s1 c = Some cu"
    using assms(1) by (auto simp: s1_def ham_txn_begin_def)
  have r1: "nil_rewrite_flags cu flags = (flags AND NOT HAM_CURSOR_NEXT) OR HAM_CURSOR_FIRST"
    using assms(2,3) by (simp add: nil_rewrite_flags_def)
  show ?thesis
    using assms(4) b c1 r1 dispatch_first[OF or_first_has_first]
    by (simp add: bt_cursor_move_def Let_def s1_def)
qed

lemma move_nil_previous_reaches_last:
  assumes "cursors s c = Some cu" "bt_cursor_is_nil cu"
    "flags AND HAM_CURSOR_NEXT = 0" "flags AND HAM_CURSOR_PREVIOUS \<noteq> 0" "flags AND HAM_CURSOR_FIRST = 0"
    "db_backend s = Some be" "db_txn s \<or> txn_begin_status s = HAM_SUCCESS"
  shows "bt_cursor_move env c key record flags s =
           move_finish env (\<not> db_txn s) c key record
             (my_move_last env be c 0 (if db_txn s then s else snd (ham_txn_begin s)))"
proof -
  define s1 where "s1 = (if db_txn s then s else snd (ham_txn_begin s))"
  define f1 where "f1 = (flags AND NOT HAM_CURSOR_PREVIOUS) OR HAM_CURSOR_LAST"
  have b: "(if \<not> db_txn s then ham_txn_begin s else (HAM_SUCCESS, s)) = (HAM_SUCCESS, s1)"
    using assms(7) by (auto simp: s1_def ham_txn_begin_def)
  have c1: "cursors s1 c = Some cu"
    using assms(1) by (auto simp: s1_def ham_txn_begin_def)
  have r1: "nil_rewrite_flags cu flags = f1"
    using assms(2,3,4) by (simp add: nil_rewrite_flags_def f1_def)
  have nf: "f1 AND HAM_CURSOR_FIRST = 0"
    using assms(5) unfolding f1_def
    by (simp add: HAM_CURSOR_LAST_def HAM_CURSOR_FIRST_def HAM_CURSOR_PREVIOUS_def
          bit.conj_disj_distrib2 word_bw_assocs)
  have hl: "f1 AND HAM_CURSOR_LAST \<noteq> 0"
    unfolding f1_def by (simp add: HAM_CURSOR_LAST_def word_ao_absorbs)
  show ?thesis
    using assms(6) b c1 r1 dispatch_last[OF nf hl]
    by (simp add: bt_cursor_move_def Let_def s1_def)
qed

text \<open>
  C6. For a NIL cursor, with the backend bound and a transaction active or begun, a move
  that asks for the next key runs \<^verbatim>\<open>my_move_first\<close> and a move that asks for the
  previous key runs \<^verbatim>\<open>my_move_last\<close>; their status, when not success, is returned
  after the abort of a private transaction, and otherwise the slot the cursor is now
  coupled to is read. So the move with \<open>NEXT\<close> is the move with \<open>FIRST\<close> and the move
  with \<open>PREVIOUS\<close> is the move with \<open>LAST\<close>: the two calls return the same status, the
  same buffers and the same state (also for flag words with further bits set). A move
  without a direction on a NIL cursor returns \<open>HAM_CURSOR_IS_NIL\<close> when a key or a record
  buffer was supplied and success when neither was; the buffers are left as they were and
  a private transaction is aborted.
\<close>

theorem nil_cursor_move:
  assumes "cursors s c = Some cu"
    and "bt_cursor_is_nil cu"
  shows "(db_backend s = Some be \<and> (db_txn s \<or> txn_begin_status s = HAM_SUCCESS) \<longrightarrow>
            bt_cursor_move env c key record HAM_CURSOR_NEXT s
              = (case my_move_first env be c HAM_CURSOR_FIRST (if db_txn s then s else snd (ham_txn_begin s)) of
                   None \<Rightarrow> None
                 | Some (st, s2) \<Rightarrow>
                     if st \<noteq> HAM_SUCCESS
                     then Some (st, key, record, if db_txn s then s2 else ham_txn_abort s2)
                     else move_read env (\<not> db_txn s) c key record s2) \<and>
            bt_cursor_move env c key record HAM_CURSOR_PREVIOUS s
              = (case my_move_last env be c HAM_CURSOR_LAST (if db_txn s then s else snd (ham_txn_begin s)) of
                   None \<Rightarrow> None
                 | Some (st, s2) \<Rightarrow>
                     if st \<noteq> HAM_SUCCESS
                     then Some (st, key, record, if db_txn s then s2 else ham_txn_abort s2)
                     else move_read env (\<not> db_txn s) c key record s2)) \<and>
         bt_cursor_move env c key record HAM_CURSOR_NEXT s
           = bt_cursor_move env c key record HAM_CURSOR_FIRST s \<and>
         bt_cursor_move env c key record HAM_CURSOR_PREVIOUS s
           = bt_cursor_move env c key record HAM_CURSOR_LAST s \<and>
         (flags AND HAM_CURSOR_NEXT \<noteq> 0 \<longrightarrow>
            bt_cursor_move env c key record flags s
              = bt_cursor_move env c key record ((flags AND NOT HAM_CURSOR_NEXT) OR HAM_CURSOR_FIRST) s) \<and>
         (flags AND HAM_CURSOR_NEXT = 0 \<and> flags AND HAM_CURSOR_PREVIOUS \<noteq> 0 \<longrightarrow>
            bt_cursor_move env c key record flags s
              = bt_cursor_move env c key record ((flags AND NOT HAM_CURSOR_PREVIOUS) OR HAM_CURSOR_LAST) s) \<and>
         (flags AND (HAM_CURSOR_FIRST OR HAM_CURSOR_LAST OR HAM_CURSOR_NEXT OR HAM_CURSOR_PREVIOUS) = 0 \<and>
          db_backend s \<noteq> None \<and> (db_txn s \<or> txn_begin_status s = HAM_SUCCESS) \<longrightarrow>
            bt_cursor_move env c key record flags s
              = Some (if key \<noteq> None \<or> record \<noteq> None then HAM_CURSOR_IS_NIL else HAM_SUCCESS,
                      key, record,
                      if db_txn s then s else ham_txn_abort (snd (ham_txn_begin s))))"
proof -
  have n: "HAM_CURSOR_NEXT AND HAM_CURSOR_NEXT \<noteq> 0"
     "(HAM_CURSOR_NEXT AND NOT HAM_CURSOR_NEXT) OR HAM_CURSOR_FIRST = HAM_CURSOR_FIRST"
     "HAM_CURSOR_PREVIOUS AND HAM_CURSOR_NEXT = 0" "HAM_CURSOR_PREVIOUS AND HAM_CURSOR_PREVIOUS \<noteq> 0"
     "(HAM_CURSOR_PREVIOUS AND NOT HAM_CURSOR_PREVIOUS) OR HAM_CURSOR_LAST = HAM_CURSOR_LAST"
     "HAM_CURSOR_PREVIOUS AND HAM_CURSOR_FIRST = 0"
    by (simp_all add: HAM_CURSOR_NEXT_def HAM_CURSOR_FIRST_def HAM_CURSOR_PREVIOUS_def HAM_CURSOR_LAST_def)
  have a: "bt_cursor_move env c key record HAM_CURSOR_NEXT s
           = bt_cursor_move env c key record HAM_CURSOR_FIRST s"
    using move_next_as_first[OF assms n(1), of env key "record"] unfolding n(2) .
  have b: "bt_cursor_move env c key record HAM_CURSOR_PREVIOUS s
           = bt_cursor_move env c key record HAM_CURSOR_LAST s"
    using move_previous_as_last[OF assms n(3,4), of env key "record"] unfolding n(5) .
  have p: "bt_cursor_move env c key record HAM_CURSOR_NEXT s
              = (case my_move_first env be c HAM_CURSOR_FIRST (if db_txn s then s else snd (ham_txn_begin s)) of
                   None \<Rightarrow> None
                 | Some (st, s2) \<Rightarrow>
                     if st \<noteq> HAM_SUCCESS
                     then Some (st, key, record, if db_txn s then s2 else ham_txn_abort s2)
                     else move_read env (\<not> db_txn s) c key record s2)"
    if "db_backend s = Some be" "db_txn s \<or> txn_begin_status s = HAM_SUCCESS"
    using move_nil_next_reaches_first[OF assms n(1) that, of env key "record"]
          move_first_ignores_flags[of env be c HAM_CURSOR_FIRST]
    by (auto simp: move_finish_def split: option.splits)
  have q: "bt_cursor_move env c key record HAM_CURSOR_PREVIOUS s
              = (case my_move_last env be c HAM_CURSOR_LAST (if db_txn s then s else snd (ham_txn_begin s)) of
                   None \<Rightarrow> None
                 | Some (st, s2) \<Rightarrow>
                     if st \<noteq> HAM_SUCCESS
                     then Some (st, key, record, if db_txn s then s2 else ham_txn_abort s2)
                     else move_read env (\<not> db_txn s) c key record s2)"
    if "db_backend s = Some be" "db_txn s \<or> txn_begin_status s = HAM_SUCCESS"
    using move_nil_previous_reaches_last[OF assms n(3,4,6) that, of env key "record"]
          move_last_ignores_flags[of env be c HAM_CURSOR_LAST]
    by (auto simp: move_finish_def split: option.splits)
  show ?thesis
    using a b p q move_next_as_first[OF assms, of flags env key "record"]
          move_previous_as_last[OF assms, of flags env key "record"]
          move_nil_no_direction[OF assms, of flags _ env key "record"]
    by auto
qed

lemma move_first_loop_leaf:
  assumes "pages s page = Some pg" "node_count (page_node pg) \<noteq> 0" "btree_node_is_leaf env (page_node pg)"
  shows "move_first_loop env page s = Some (Inr page, s)"
  using assms by (subst move_first_loop.simps) simp

lemma move_last_loop_leaf:
  assumes "pages s page = Some pg" "node_count (page_node pg) \<noteq> 0" "btree_node_is_leaf env (page_node pg)"
  shows "move_last_loop env page s = Some (Inr page, s)"
  using assms by (subst move_last_loop.simps) simp


lemmas cursor_run_defs =
  ex_one_cursor_def ex_db2_def ex_db_def
  ex_leaf_def ex_env_def zero_cursor_def zero_key_def
  bt_cursor_create_def bt_cursor_close_def bt_cursor_erase_def bt_cursor_move_def
  move_dispatch_def nil_rewrite_flags_def
  bt_cursor_set_to_nil_def bt_cursor_is_nil_def ham_mem_alloc_def ham_txn_begin_def
  ham_txn_commit_def ham_txn_abort_def modify_cursor_def db_set_error_def
  BT_CURSOR_FLAG_COUPLED_def BT_CURSOR_FLAG_UNCOUPLED_def
  HAM_CURSOR_FIRST_def HAM_CURSOR_LAST_def HAM_CURSOR_NEXT_def HAM_CURSOR_PREVIOUS_def Let_def

theorem nil_cursor_move_witness:
  "cursors ex_one_cursor 1 = Some zero_cursor \<and> bt_cursor_is_nil zero_cursor \<and>
   db_backend ex_one_cursor = Some \<lparr>rootpage = 1, maxkeys = 4\<rparr> \<and>
   txn_begin_status ex_one_cursor = HAM_SUCCESS \<and>
   map_option (\<lambda>(st, k, r, s1). (st, k, map_option (\<lambda>cu. (c_coupled_page cu, c_coupled_index cu)) (cursors s1 1)))
     (bt_cursor_move ex_env 1 (Some (ex_key 0)) None HAM_CURSOR_NEXT ex_one_cursor)
     = Some (HAM_SUCCESS, Some (ex_key 10), Some (1, 0)) \<and>
   map_option (\<lambda>(st, k, r, s1). (st, k, map_option (\<lambda>cu. (c_coupled_page cu, c_coupled_index cu)) (cursors s1 1)))
     (bt_cursor_move ex_env 1 (Some (ex_key 0)) None HAM_CURSOR_PREVIOUS ex_one_cursor)
     = Some (HAM_SUCCESS, Some (ex_key 20), Some (1, 1)) \<and>
   bt_cursor_move ex_env 1 (Some (ex_key 0)) None HAM_CURSOR_NEXT ex_one_cursor
     = bt_cursor_move ex_env 1 (Some (ex_key 0)) None HAM_CURSOR_FIRST ex_one_cursor \<and>
   bt_cursor_move ex_env 1 (Some (ex_key 0)) None HAM_CURSOR_PREVIOUS ex_one_cursor
     = bt_cursor_move ex_env 1 (Some (ex_key 0)) None HAM_CURSOR_LAST ex_one_cursor \<and>
   (0 :: ham_u32) AND (HAM_CURSOR_FIRST OR HAM_CURSOR_LAST OR HAM_CURSOR_NEXT OR HAM_CURSOR_PREVIOUS) = 0 \<and>
   map_option fst (bt_cursor_move ex_env 1 (Some (ex_key 0)) None 0 ex_one_cursor) = Some HAM_CURSOR_IS_NIL \<and>
   map_option fst (bt_cursor_move ex_env 1 None (Some ex_record) 0 ex_one_cursor) = Some HAM_CURSOR_IS_NIL \<and>
   map_option fst (bt_cursor_move ex_env 1 None None 0 ex_one_cursor) = Some HAM_SUCCESS"
proof -
  have h: "cursors ex_one_cursor 1 = Some zero_cursor" "bt_cursor_is_nil zero_cursor"
    by (simp_all add: ex_one_cursor_def bt_cursor_is_nil_def zero_cursor_def)
  have g: "(0 :: ham_u32) AND (HAM_CURSOR_FIRST OR HAM_CURSOR_LAST OR HAM_CURSOR_NEXT OR HAM_CURSOR_PREVIOUS) = 0"
    "db_backend ex_one_cursor = Some \<lparr>rootpage = 1, maxkeys = 4\<rparr>"
    "txn_begin_status ex_one_cursor = HAM_SUCCESS" "\<not> db_txn ex_one_cursor"
    by (simp_all add: ex_one_cursor_def ex_db2_def ex_db_def)
  note t = nil_cursor_move[OF h, of "\<lparr>rootpage = 1, maxkeys = 4\<rparr>" ex_env "Some (ex_key 0)" None 0]
  have first: "map_option (\<lambda>(st, k, r, s1). (st, k, map_option (\<lambda>cu. (c_coupled_page cu, c_coupled_index cu)) (cursors s1 1)))
      (case my_move_first ex_env \<lparr>rootpage = 1, maxkeys = 4\<rparr> 1 HAM_CURSOR_FIRST
              (if db_txn ex_one_cursor then ex_one_cursor else snd (ham_txn_begin ex_one_cursor)) of
         None \<Rightarrow> None
       | Some (st, s2) \<Rightarrow>
           if st \<noteq> HAM_SUCCESS
           then Some (st, Some (ex_key 0), None, if db_txn ex_one_cursor then s2 else ham_txn_abort s2)
           else move_read ex_env (\<not> db_txn ex_one_cursor) 1 (Some (ex_key 0)) None s2)
      = Some (HAM_SUCCESS, Some (ex_key 10), Some (1, 0))"
    by (simp add: cursor_run_defs my_move_first_def db_fetch_page_def move_first_loop_leaf couple_to_def
          page_add_cursor_def modify_page_def move_read_def ex_slot_def ex_key_def)
  have last: "map_option (\<lambda>(st, k, r, s1). (st, k, map_option (\<lambda>cu. (c_coupled_page cu, c_coupled_index cu)) (cursors s1 1)))
      (case my_move_last ex_env \<lparr>rootpage = 1, maxkeys = 4\<rparr> 1 HAM_CURSOR_LAST
              (if db_txn ex_one_cursor then ex_one_cursor else snd (ham_txn_begin ex_one_cursor)) of
         None \<Rightarrow> None
       | Some (st, s2) \<Rightarrow>
           if st \<noteq> HAM_SUCCESS
           then Some (st, Some (ex_key 0), None, if db_txn ex_one_cursor then s2 else ham_txn_abort s2)
           else move_read ex_env (\<not> db_txn ex_one_cursor) 1 (Some (ex_key 0)) None s2)
      = Some (HAM_SUCCESS, Some (ex_key 20), Some (1, 1))"
    by (simp add: cursor_run_defs my_move_last_def db_fetch_page_def move_last_loop_leaf couple_to_def
          page_add_cursor_def modify_page_def move_read_def ex_slot_def ex_key_def u32_pred_def)
  have nx: "map_option (\<lambda>(st, k, r, s1). (st, k, map_option (\<lambda>cu. (c_coupled_page cu, c_coupled_index cu)) (cursors s1 1)))
     (bt_cursor_move ex_env 1 (Some (ex_key 0)) None HAM_CURSOR_NEXT ex_one_cursor)
     = Some (HAM_SUCCESS, Some (ex_key 10), Some (1, 0))"
    using g(2,3) t first by (simp only: simp_thms)
  have pv: "map_option (\<lambda>(st, k, r, s1). (st, k, map_option (\<lambda>cu. (c_coupled_page cu, c_coupled_index cu)) (cursors s1 1)))
     (bt_cursor_move ex_env 1 (Some (ex_key 0)) None HAM_CURSOR_PREVIOUS ex_one_cursor)
     = Some (HAM_SUCCESS, Some (ex_key 20), Some (1, 1))"
    using g(2,3) t last by (simp only: simp_thms)
  have d1: "bt_cursor_move ex_env 1 (Some (ex_key 0)) None HAM_CURSOR_NEXT ex_one_cursor
     = bt_cursor_move ex_env 1 (Some (ex_key 0)) None HAM_CURSOR_FIRST ex_one_cursor"
    and d2: "bt_cursor_move ex_env 1 (Some (ex_key 0)) None HAM_CURSOR_PREVIOUS ex_one_cursor
     = bt_cursor_move ex_env 1 (Some (ex_key 0)) None HAM_CURSOR_LAST ex_one_cursor"
    using t by blast+
  have n1: "map_option fst (bt_cursor_move ex_env 1 (Some (ex_key 0)) None 0 ex_one_cursor) = Some HAM_CURSOR_IS_NIL"
    using g t by simp
  have n2: "map_option fst (bt_cursor_move ex_env 1 None (Some ex_record) 0 ex_one_cursor) = Some HAM_CURSOR_IS_NIL"
    using g nil_cursor_move[OF h, of "\<lparr>rootpage = 1, maxkeys = 4\<rparr>" ex_env None "Some ex_record" 0]
    by simp
  have n3: "map_option fst (bt_cursor_move ex_env 1 None None 0 ex_one_cursor) = Some HAM_SUCCESS"
    using g nil_cursor_move[OF h, of "\<lparr>rootpage = 1, maxkeys = 4\<rparr>" ex_env None None 0]
    by simp
  show ?thesis
    by (intro conjI) (fact h g nx pv d1 d2 n1 n2 n3)+
qed

lemma clear_uncoupled:
  "(f AND NOT BT_CURSOR_FLAG_UNCOUPLED) AND BT_CURSOR_FLAG_UNCOUPLED = 0"
  "(f AND NOT BT_CURSOR_FLAG_UNCOUPLED) AND BT_CURSOR_FLAG_COUPLED = f AND BT_CURSOR_FLAG_COUPLED"
  "(f AND NOT BT_CURSOR_FLAG_COUPLED) AND BT_CURSOR_FLAG_COUPLED = 0"
  "(f AND NOT BT_CURSOR_FLAG_COUPLED) AND BT_CURSOR_FLAG_UNCOUPLED = f AND BT_CURSOR_FLAG_UNCOUPLED"
  by (simp_all add: BT_CURSOR_FLAG_COUPLED_def BT_CURSOR_FLAG_UNCOUPLED_def bit_eq_iff bit_simps)
     (auto simp: bit_simps)

lemma cursors_modify_cursor:
  "cursors (modify_cursor c f s) d = (if d = c then map_option f (cursors s c) else cursors s d)"
  by (simp add: modify_cursor_def split: option.splits)

lemma pages_modify_cursor [simp]: "pages (modify_cursor c f s) = pages s"
  by (simp add: modify_cursor_def split: option.splits)

lemma cursors_modify_page [simp]: "cursors (modify_page p f s) = cursors s"
  by (simp add: modify_page_def split: option.splits)

lemma set_to_nil_makes_nil:
  assumes "cursor_wf s c"
  shows "\<exists>s1 cu1. bt_cursor_set_to_nil c s = Some (HAM_SUCCESS, s1) \<and>
           cursors s1 c = Some cu1 \<and> bt_cursor_is_nil cu1 \<and>
           (\<forall>p. map_option page_node (pages s1 p) = map_option page_node (pages s p))"
proof -
  obtain cu where cu: "cursors s c = Some cu"
    using assms by (auto simp: cursor_wf_def split: option.splits)
  show ?thesis
  proof (cases "c_flags cu AND BT_CURSOR_FLAG_UNCOUPLED \<noteq> 0")
    case True
    then obtain k where k: "c_uncoupled_key cu = Some k" and nc: "c_flags cu AND BT_CURSOR_FLAG_COUPLED = 0"
      using assms cu by (auto simp: cursor_wf_def)
    show ?thesis using cu True k nc
      by (simp add: bt_cursor_set_to_nil_def cursors_modify_cursor bt_cursor_is_nil_def clear_uncoupled)
  next
    case False
    note nu = False
    show ?thesis
    proof (cases "c_flags cu AND BT_CURSOR_FLAG_COUPLED \<noteq> 0")
      case True
      then obtain pg where pg: "pages s (c_coupled_page cu) = Some pg"
        using assms cu nu by (auto simp: cursor_wf_def)
      show ?thesis using cu nu True pg
        by (simp add: bt_cursor_set_to_nil_def page_remove_cursor_def cursors_modify_cursor
              bt_cursor_is_nil_def clear_uncoupled pages_modify_page)
    next
      case False
      then show ?thesis using cu nu
        by (simp add: bt_cursor_set_to_nil_def cursors_modify_cursor bt_cursor_is_nil_def)
    qed
  qed
qed

lemma cursors_db_set_error [simp]: "cursors (db_set_error e s) = cursors s"
  by (simp add: db_set_error_def)

lemma pages_db_set_error [simp]: "pages (db_set_error e s) = pages s"
  by (simp add: db_set_error_def)

lemma move_first_empty:
  assumes wf: "cursor_wf s c"
    and empty: "rootpage be = 0 \<or> (\<exists>pg. pages s (rootpage be) = Some pg \<and> node_count (page_node pg) = 0)"
  shows "\<exists>s1 cu1. my_move_first env be c flags s = Some (HAM_KEY_NOT_FOUND, s1) \<and>
           cursors s1 c = Some cu1 \<and> bt_cursor_is_nil cu1"
proof -
  obtain s1 cu1 where n: "bt_cursor_set_to_nil c s = Some (HAM_SUCCESS, s1)"
     "cursors s1 c = Some cu1" "bt_cursor_is_nil cu1"
     "\<forall>p. map_option page_node (pages s1 p) = map_option page_node (pages s p)"
    using set_to_nil_makes_nil[OF wf] by blast
  show ?thesis
  proof (cases "rootpage be = 0")
    case True
    then show ?thesis using n by (simp add: my_move_first_def)
  next
    case False
    then obtain pg where pg: "pages s (rootpage be) = Some pg" "node_count (page_node pg) = 0"
      using empty by auto
    obtain pg1 where pg1: "pages s1 (rootpage be) = Some pg1" "page_node pg1 = page_node pg"
      using n(4) pg(1) by (metis map_option_eq_Some option.simps(9))
    have f: "db_fetch_page (rootpage be) (db_set_error HAM_SUCCESS s1) = (Some (rootpage be), db_set_error HAM_SUCCESS s1)"
      using pg1 by (simp add: db_fetch_page_def)
    have l: "move_first_loop env (rootpage be) (db_set_error HAM_SUCCESS s1) =
               Some (Inl HAM_KEY_NOT_FOUND, db_set_error HAM_KEY_NOT_FOUND (db_set_error HAM_SUCCESS s1))"
      using pg1 pg(2) by (subst move_first_loop.simps) simp
    show ?thesis using n False f l by (simp add: my_move_first_def)
  qed
qed

lemma move_last_empty:
  assumes wf: "cursor_wf s c"
    and empty: "rootpage be = 0 \<or> (\<exists>pg. pages s (rootpage be) = Some pg \<and> node_count (page_node pg) = 0)"
  shows "\<exists>s1 cu1. my_move_last env be c flags s = Some (HAM_KEY_NOT_FOUND, s1) \<and>
           cursors s1 c = Some cu1 \<and> bt_cursor_is_nil cu1"
proof -
  obtain s1 cu1 where n: "bt_cursor_set_to_nil c s = Some (HAM_SUCCESS, s1)"
     "cursors s1 c = Some cu1" "bt_cursor_is_nil cu1"
     "\<forall>p. map_option page_node (pages s1 p) = map_option page_node (pages s p)"
    using set_to_nil_makes_nil[OF wf] by blast
  show ?thesis
  proof (cases "rootpage be = 0")
    case True
    then show ?thesis using n by (simp add: my_move_last_def)
  next
    case False
    then obtain pg where pg: "pages s (rootpage be) = Some pg" "node_count (page_node pg) = 0"
      using empty by auto
    obtain pg1 where pg1: "pages s1 (rootpage be) = Some pg1" "page_node pg1 = page_node pg"
      using n(4) pg(1) by (metis map_option_eq_Some option.simps(9))
    have f: "db_fetch_page (rootpage be) (db_set_error HAM_SUCCESS s1) = (Some (rootpage be), db_set_error HAM_SUCCESS s1)"
      using pg1 by (simp add: db_fetch_page_def)
    have l: "move_last_loop env (rootpage be) (db_set_error HAM_SUCCESS s1) =
               Some (Inl HAM_KEY_NOT_FOUND, db_set_error HAM_KEY_NOT_FOUND (db_set_error HAM_SUCCESS s1))"
      using pg1 pg(2) by (subst move_last_loop.simps) simp
    show ?thesis using n False f l by (simp add: my_move_last_def)
  qed
qed

lemma nil_rewrite_first_last:
  "nil_rewrite_flags cu HAM_CURSOR_FIRST = HAM_CURSOR_FIRST"
  "nil_rewrite_flags cu HAM_CURSOR_LAST = HAM_CURSOR_LAST"
  by (simp_all add: nil_rewrite_flags_def HAM_CURSOR_FIRST_def HAM_CURSOR_LAST_def
        HAM_CURSOR_NEXT_def HAM_CURSOR_PREVIOUS_def)

lemma direction_bits:
  "HAM_CURSOR_FIRST AND HAM_CURSOR_FIRST \<noteq> 0"
  "HAM_CURSOR_LAST AND HAM_CURSOR_FIRST = 0"
  "HAM_CURSOR_LAST AND HAM_CURSOR_LAST \<noteq> 0"
  by (simp_all add: HAM_CURSOR_FIRST_def HAM_CURSOR_LAST_def)

lemma move_on_empty:
  assumes wf: "cursor_wf s c"
    and empty: "rootpage be = 0 \<or> (\<exists>pg. pages s (rootpage be) = Some pg \<and> node_count (page_node pg) = 0)"
    and be: "db_backend s = Some be"
    and txn: "db_txn s \<or> txn_begin_status s = HAM_SUCCESS"
  shows "\<exists>s1 cu1. bt_cursor_move env c key record HAM_CURSOR_FIRST s
                     = Some (HAM_KEY_NOT_FOUND, key, record, s1) \<and>
                   cursors s1 c = Some cu1 \<and> bt_cursor_is_nil cu1"
    and "\<exists>s1 cu1. bt_cursor_move env c key record HAM_CURSOR_LAST s
                     = Some (HAM_KEY_NOT_FOUND, key, record, s1) \<and>
                   cursors s1 c = Some cu1 \<and> bt_cursor_is_nil cu1"
proof -
  define s0 where "s0 = (if db_txn s then s else s\<lparr>db_txn := True, txn_log := txn_log s @ [TXN_BEGIN]\<rparr>)"
  have b: "(if \<not> db_txn s then ham_txn_begin s else (HAM_SUCCESS, s)) = (HAM_SUCCESS, s0)"
    using txn by (auto simp: ham_txn_begin_def s0_def)
  have fr: "cursors s0 = cursors s" "pages s0 = pages s" by (simp_all add: s0_def)
  have wf0: "cursor_wf s0 c" using wf unfolding cursor_wf_def fr .
  have e0: "rootpage be = 0 \<or> (\<exists>pg. pages s0 (rootpage be) = Some pg \<and> node_count (page_node pg) = 0)"
    using empty fr by simp
  obtain cu where cu: "cursors s0 c = Some cu"
    using wf0 by (auto simp: cursor_wf_def split: option.splits)
  obtain s1 cu1 where f: "my_move_first env be c 0 s0 = Some (HAM_KEY_NOT_FOUND, s1)"
      "cursors s1 c = Some cu1" "bt_cursor_is_nil cu1"
    using move_first_empty[OF wf0 e0] by blast
  obtain s2 cu2 where l: "my_move_last env be c 0 s0 = Some (HAM_KEY_NOT_FOUND, s2)"
      "cursors s2 c = Some cu2" "bt_cursor_is_nil cu2"
    using move_last_empty[OF wf0 e0] by blast
  have df: "move_dispatch env be (\<not> db_txn s) c cu key record (nil_rewrite_flags cu HAM_CURSOR_FIRST) s0
            = move_finish env (\<not> db_txn s) c key record (my_move_first env be c 0 s0)"
    unfolding nil_rewrite_first_last by (rule dispatch_first[OF direction_bits(1)])
  have dl: "move_dispatch env be (\<not> db_txn s) c cu key record (nil_rewrite_flags cu HAM_CURSOR_LAST) s0
            = move_finish env (\<not> db_txn s) c key record (my_move_last env be c 0 s0)"
    unfolding nil_rewrite_first_last by (rule dispatch_last[OF direction_bits(2,3)])
  have mf: "bt_cursor_move env c key record HAM_CURSOR_FIRST s
              = Some (HAM_KEY_NOT_FOUND, key, record, if \<not> db_txn s then ham_txn_abort s1 else s1)"
    using be b cu df f(1) by (simp add: bt_cursor_move_def Let_def move_finish_def)
  have ml: "bt_cursor_move env c key record HAM_CURSOR_LAST s
              = Some (HAM_KEY_NOT_FOUND, key, record, if \<not> db_txn s then ham_txn_abort s2 else s2)"
    using be b cu dl l(1) by (simp add: bt_cursor_move_def Let_def move_finish_def)
  have ab: "\<And>x. cursors (ham_txn_abort x) = cursors x" by (simp add: ham_txn_abort_def)
  show "\<exists>s1 cu1. bt_cursor_move env c key record HAM_CURSOR_FIRST s
                     = Some (HAM_KEY_NOT_FOUND, key, record, s1) \<and>
                   cursors s1 c = Some cu1 \<and> bt_cursor_is_nil cu1"
    using mf f(2,3) ab by (cases "db_txn s") auto
  show "\<exists>s1 cu1. bt_cursor_move env c key record HAM_CURSOR_LAST s
                     = Some (HAM_KEY_NOT_FOUND, key, record, s1) \<and>
                   cursors s1 c = Some cu1 \<and> bt_cursor_is_nil cu1"
    using ml l(2,3) ab by (cases "db_txn s") auto
qed

text \<open>
  C10. On a database whose tree has no root page, or whose root node holds no entry,
  \<^verbatim>\<open>my_move_first\<close> and \<^verbatim>\<open>my_move_last\<close> return \<open>HAM_KEY_NOT_FOUND\<close> and leave the
  cursor NIL; so does \<^verbatim>\<open>bt_cursor_move\<close> with the direction FIRST or LAST, when the
  backend is bound and a transaction is active or can be begun.
\<close>

theorem move_first_last_on_empty_tree:
  assumes "cursor_wf s c"
    and "rootpage be = 0 \<or> (\<exists>pg. pages s (rootpage be) = Some pg \<and> node_count (page_node pg) = 0)"
    and "db_backend s = Some be"
    and "db_txn s \<or> txn_begin_status s = HAM_SUCCESS"
  shows "(\<exists>s1 cu1. my_move_first env be c flags s = Some (HAM_KEY_NOT_FOUND, s1) \<and>
                    cursors s1 c = Some cu1 \<and> bt_cursor_is_nil cu1) \<and>
         (\<exists>s1 cu1. my_move_last env be c flags s = Some (HAM_KEY_NOT_FOUND, s1) \<and>
                    cursors s1 c = Some cu1 \<and> bt_cursor_is_nil cu1) \<and>
         (\<exists>s1 cu1. bt_cursor_move env c key record HAM_CURSOR_FIRST s
                      = Some (HAM_KEY_NOT_FOUND, key, record, s1) \<and>
                    cursors s1 c = Some cu1 \<and> bt_cursor_is_nil cu1) \<and>
         (\<exists>s1 cu1. bt_cursor_move env c key record HAM_CURSOR_LAST s
                      = Some (HAM_KEY_NOT_FOUND, key, record, s1) \<and>
                    cursors s1 c = Some cu1 \<and> bt_cursor_is_nil cu1)"
  using move_first_empty[OF assms(1,2)] move_last_empty[OF assms(1,2)] move_on_empty[OF assms]
  by blast

lemma ex_empty_hyps:
  "cursor_wf ex_empty_root 1"
  "rootpage \<lparr>rootpage = 1, maxkeys = 4\<rparr> = 0 \<or>
     (\<exists>pg. pages ex_empty_root (rootpage \<lparr>rootpage = 1, maxkeys = 4\<rparr>) = Some pg \<and> node_count (page_node pg) = 0)"
  "db_backend ex_empty_root = Some \<lparr>rootpage = 1, maxkeys = 4\<rparr>"
  "db_txn ex_empty_root \<or> txn_begin_status ex_empty_root = HAM_SUCCESS"
  by (simp_all add: ex_empty_root_def ex_db_def ex_leaf_def cursor_wf_def zero_cursor_def)

lemma ex_no_root_hyps:
  "cursor_wf ex_no_root 1"
  "rootpage \<lparr>rootpage = 0, maxkeys = 4\<rparr> = 0 \<or>
     (\<exists>pg. pages ex_no_root (rootpage \<lparr>rootpage = 0, maxkeys = 4\<rparr>) = Some pg \<and> node_count (page_node pg) = 0)"
  "db_backend ex_no_root = Some \<lparr>rootpage = 0, maxkeys = 4\<rparr>"
  "db_txn ex_no_root \<or> txn_begin_status ex_no_root = HAM_SUCCESS"
  by (simp_all add: ex_no_root_def ex_db_def ex_leaf_def cursor_wf_def zero_cursor_def)

theorem move_first_last_on_empty_tree_witness:
  "cursor_wf ex_empty_root 1 \<and>
   map_option (node_count \<circ> page_node) (pages ex_empty_root 1) = Some 0 \<and>
   db_backend ex_empty_root = Some \<lparr>rootpage = 1, maxkeys = 4\<rparr> \<and>
   txn_begin_status ex_empty_root = HAM_SUCCESS \<and>
   (\<exists>s1 cu1. my_move_first ex_env \<lparr>rootpage = 1, maxkeys = 4\<rparr> 1 HAM_CURSOR_FIRST ex_empty_root
                = Some (HAM_KEY_NOT_FOUND, s1) \<and> cursors s1 1 = Some cu1 \<and> bt_cursor_is_nil cu1) \<and>
   (\<exists>s1 cu1. bt_cursor_move ex_env 1 (Some (ex_key 0)) None HAM_CURSOR_LAST ex_empty_root
                = Some (HAM_KEY_NOT_FOUND, Some (ex_key 0), None, s1) \<and>
              cursors s1 1 = Some cu1 \<and> bt_cursor_is_nil cu1) \<and>
   cursor_wf ex_no_root 1 \<and>
   db_backend ex_no_root = Some \<lparr>rootpage = 0, maxkeys = 4\<rparr> \<and>
   (\<exists>s1 cu1. my_move_last ex_env \<lparr>rootpage = 0, maxkeys = 4\<rparr> 1 HAM_CURSOR_LAST ex_no_root
                = Some (HAM_KEY_NOT_FOUND, s1) \<and> cursors s1 1 = Some cu1 \<and> bt_cursor_is_nil cu1) \<and>
   (\<exists>s1 cu1. bt_cursor_move ex_env 1 (Some (ex_key 0)) None HAM_CURSOR_FIRST ex_no_root
                = Some (HAM_KEY_NOT_FOUND, Some (ex_key 0), None, s1) \<and>
              cursors s1 1 = Some cu1 \<and> bt_cursor_is_nil cu1)"
proof -
  have a: "map_option (node_count \<circ> page_node) (pages ex_empty_root 1) = Some 0"
    "txn_begin_status ex_empty_root = HAM_SUCCESS"
    by (simp_all add: ex_empty_root_def ex_db_def ex_leaf_def)
  show ?thesis
    using move_first_last_on_empty_tree[OF ex_empty_hyps, of ex_env HAM_CURSOR_FIRST "Some (ex_key 0)" None]
          move_first_last_on_empty_tree[OF ex_no_root_hyps, of ex_env HAM_CURSOR_LAST "Some (ex_key 0)" None]
          ex_empty_hyps(1,3) ex_no_root_hyps(1,3) a
    by blast
qed

text \<open>
  C8 fails on the code. Two cursors are created, cursor 1 first; the list of the database
  is then 2, 1. Closing cursor 1, the last of the list, sets the head of the list to null
  (\<^verbatim>\<open>else db_set_cursors(db, 0)\<close> for a cursor without a successor), although cursor 2 is
  still open: no cursor can be reached from the head any more.
\<close>

theorem close_first_created_cursor_drops_the_list:
  "Option.bind (bt_cursor_create ex_db2) (\<lambda>(st1, c1, s1). bt_cursor_create s1)
     = Some (HAM_SUCCESS, 2, ex_two_cursors) \<and>
   cursor_chain ex_two_cursors 3 (db_cursors ex_two_cursors) = [2, 1] \<and>
   map_option (\<lambda>(st, s). (st, db_cursors s, cursor_chain s 3 (db_cursors s), cursors s 1, cursors s 2))
      (bt_cursor_close 1 ex_two_cursors)
     = Some (HAM_SUCCESS, 0, [], None, Some zero_cursor)"
  by (simp add: cursor_run_defs ex_two_cursors_def numeral_2_eq_2 numeral_3_eq_3)

text \<open>
  C7 fails on the code. \<^verbatim>\<open>bt_cursor_erase\<close> on a NIL cursor, with no transaction active,
  begins a private transaction and returns \<open>HAM_CURSOR_IS_NIL\<close> with the transaction still
  active, neither committed nor aborted. \<^verbatim>\<open>bt_cursor_move\<close> aborts its private transaction
  on the same condition.
\<close>

theorem erase_nil_cursor_leaves_txn_open:
  "bt_cursor_create ex_db2 = Some (HAM_SUCCESS, 1, ex_one_cursor) \<and>
   db_txn ex_one_cursor = False \<and> txn_log ex_one_cursor = [] \<and>
   map_option (\<lambda>(st, s). (st, db_txn s, txn_log s)) (bt_cursor_erase ex_env 1 0 ex_one_cursor)
     = Some (HAM_CURSOR_IS_NIL, True, [TXN_BEGIN]) \<and>
   map_option (\<lambda>(st, k, r, s). (st, db_txn s, txn_log s)) (bt_cursor_move ex_env 1 (Some (ex_key 0)) None 0 ex_one_cursor)
     = Some (HAM_CURSOR_IS_NIL, False, [TXN_BEGIN, TXN_ABORT])"
  by (simp add: cursor_run_defs)

end
